theory Spec2Isabelle
  imports Complex_Main "HOL-Library.List_Lexorder" "HOL-Library.Sublist" "HOL-Library.Multiset"
begin

section \<open>Values and Python list indexing\<close>

text \<open>
  The streaming cache of \<^verbatim>\<open>betfairlightweight/streaming/cache.py\<close> stores decoded JSON
  numbers. The code only compares them (\<^verbatim>\<open>==\<close>, \<^verbatim>\<open>!= 0\<close>, list sorting), so a number
  is modelled as a rational: Python compares \<^verbatim>\<open>int\<close> and finite \<^verbatim>\<open>float\<close> values by
  their exact numeric value, which is always a rational. A row of a ladder is a Python list
  of numbers; Python orders lists lexicographically, which is the order of
  \<^verbatim>\<open>HOL-Library.List_Lexorder\<close>.
\<close>

type_synonym num = rat

type_synonym row = "num list"

text \<open>
  A call that raises is a result \<open>Inl\<close> of the exception. The methods change their object
  in place, so a call that raises may leave the object half changed; that state is not
  modelled, and the statements below are about calls that return.
\<close>

datatype error = IndexError | KeyError | TypeError

text \<open>\<^verbatim>\<open>xs[i]\<close>: a negative index counts from the end, an index out of range raises.\<close>

definition py_get :: "'a list \<Rightarrow> int \<Rightarrow> error + 'a" where
  "py_get xs i =
     (if 0 \<le> i \<and> i < int (length xs) then Inr (xs ! nat i)
      else if i < 0 \<and> 0 \<le> int (length xs) + i then Inr (xs ! nat (int (length xs) + i))
      else Inl IndexError)"

text \<open>
  \<^verbatim>\<open>list.sort(reverse=r)\<close>. Rows that compare equal are equal lists, so the stability of
  Python's sort cannot be observed and the descending sort is the reversed ascending one.
  The rows hold finite numbers: a NaN, which Python's comparisons do not order, is not a
  value of \<open>num\<close>.
\<close>

definition py_sort :: "bool \<Rightarrow> row list \<Rightarrow> row list" where
  "py_sort r xs = (if r then rev (sort xs) else sort xs)"

section \<open>Available: one price ladder\<close>

text \<open>One element of \<^verbatim>\<open>Available.serialise\<close>: the dict with the keys "price" and "size".\<close>

record price_size =
  price :: num
  size_val :: num

record available =
  prices :: "row list"
  deletion_select :: int
  reverse :: bool
  serialise :: "price_size list"

text \<open>
  The list comprehension of \<^verbatim>\<open>Available.sort\<close>: for every row, first
  \<^verbatim>\<open>volume[deletion_select - 1]\<close>, then \<^verbatim>\<open>volume[deletion_select]\<close>.
\<close>

fun render_rows :: "int \<Rightarrow> row list \<Rightarrow> error + price_size list" where
  "render_rows ds [] = Inr []"
| "render_rows ds (volume # rest) =
     (case py_get volume (ds - 1) of
        Inl e \<Rightarrow> Inl e
      | Inr p \<Rightarrow>
          (case py_get volume ds of
             Inl e \<Rightarrow> Inl e
           | Inr s \<Rightarrow>
               (case render_rows ds rest of
                  Inl e \<Rightarrow> Inl e
                | Inr out \<Rightarrow> Inr (\<lparr>price = p, size_val = s\<rparr> # out))))"

text \<open>\<^verbatim>\<open>Available.sort(sort)\<close>: sort when asked to, then rebuild the cached rendering.\<close>

definition available_sort :: "bool \<Rightarrow> available \<Rightarrow> error + available" where
  "available_sort do_sort a =
     (let ps = (if do_sort then py_sort (reverse a) (prices a) else prices a)
      in case render_rows (deletion_select a) ps of
           Inl e \<Rightarrow> Inl e
         | Inr out \<Rightarrow> Inr (a\<lparr>prices := ps, serialise := out\<rparr>))"

text \<open>\<^verbatim>\<open>Available.__init__(prices, deletion_select, reverse)\<close>; \<^verbatim>\<open>prices or []\<close>.\<close>

definition available_init :: "row list option \<Rightarrow> int \<Rightarrow> bool \<Rightarrow> error + available" where
  "available_init ps ds r =
     available_sort True
       \<lparr>prices = (case ps of None \<Rightarrow> [] | Some l \<Rightarrow> l),
        deletion_select = ds, reverse = r, serialise = []\<rparr>"

text \<open>\<^verbatim>\<open>Available.clear\<close>.\<close>

definition available_clear :: "available \<Rightarrow> error + available" where
  "available_clear a = available_sort True (a\<lparr>prices := []\<rparr>)"

text \<open>
  The inner \<^verbatim>\<open>for (count, trade) in enumerate(self.prices)\<close> loop of
  \<^verbatim>\<open>Available.update\<close> with its \<^verbatim>\<open>else\<close> branch, for one incoming row \<open>book\<close>. The
  list argument is the part of \<^verbatim>\<open>self.prices\<close> not yet scanned. The result is the new
  rows and whether the row was appended. The first row whose \<^verbatim>\<open>trade[0]\<close> equals
  \<^verbatim>\<open>book[0]\<close> is deleted or overwritten and the scan stops; when the scan reaches the end,
  the row is appended unless its size field is 0.
\<close>

fun update_book :: "int \<Rightarrow> row \<Rightarrow> row list \<Rightarrow> error + (row list \<times> bool)" where
  "update_book ds book [] =
     (case py_get book ds of
        Inl e \<Rightarrow> Inl e
      | Inr s \<Rightarrow> if s \<noteq> 0 then Inr ([book], True) else Inr ([], False))"
| "update_book ds book (trade # rest) =
     (case py_get trade 0 of
        Inl e \<Rightarrow> Inl e
      | Inr t0 \<Rightarrow>
          (case py_get book 0 of
             Inl e \<Rightarrow> Inl e
           | Inr b0 \<Rightarrow>
               if t0 = b0 then
                 (case py_get book ds of
                    Inl e \<Rightarrow> Inl e
                  | Inr s \<Rightarrow> if s = 0 then Inr (rest, False) else Inr (book # rest, False))
               else
                 (case update_book ds book rest of
                    Inl e \<Rightarrow> Inl e
                  | Inr (rest', appended) \<Rightarrow> Inr (trade # rest', appended))))"

text \<open>The outer \<^verbatim>\<open>for book in book_update\<close> loop, carrying the rows and the \<^verbatim>\<open>sort\<close> flag.\<close>

fun update_books :: "int \<Rightarrow> row list \<Rightarrow> row list \<Rightarrow> bool \<Rightarrow> error + (row list \<times> bool)" where
  "update_books ds [] ps srt = Inr (ps, srt)"
| "update_books ds (book # rest) ps srt =
     (case update_book ds book ps of
        Inl e \<Rightarrow> Inl e
      | Inr (ps', appended) \<Rightarrow> update_books ds rest ps' (srt \<or> appended))"

text \<open>\<^verbatim>\<open>Available.update(book_update)\<close>.\<close>

definition available_update :: "available \<Rightarrow> row list \<Rightarrow> error + available" where
  "available_update a book_update =
     (case update_books (deletion_select a) book_update (prices a) False of
        Inl e \<Rightarrow> Inl e
      | Inr (ps, srt) \<Rightarrow> available_sort srt (a\<lparr>prices := ps\<rparr>))"

text \<open>
  The ladders the class can produce: built by the constructor and changed only by
  completed calls of \<^verbatim>\<open>update\<close> and \<^verbatim>\<open>clear\<close>.
\<close>

inductive ladder :: "available \<Rightarrow> bool" where
  ladder_init: "available_init ps ds r = Inr a \<Longrightarrow> ladder a"
| ladder_update: "ladder a \<Longrightarrow> available_update a bu = Inr a' \<Longrightarrow> ladder a'"
| ladder_clear: "ladder a \<Longrightarrow> available_clear a = Inr a' \<Longrightarrow> ladder a'"

text \<open>The identity of a row is its first field.\<close>

definition identities :: "row list \<Rightarrow> num list" where
  "identities ps = map hd ps"

definition sorted_by_identity :: "bool \<Rightarrow> row list \<Rightarrow> bool" where
  "sorted_by_identity r ps =
     (if r then sorted_wrt (\<ge>) (identities ps) else sorted_wrt (\<le>) (identities ps))"

section \<open>Decoded JSON payloads and Python dicts\<close>

text \<open>
  The cache stores parts of the decoded messages verbatim. A decoded JSON value is a
  \<open>jval\<close>; a JSON object keeps its keys in order and, as the decoder builds it, has no key
  twice, so that looking a key up is \<open>map_of\<close>.
\<close>

datatype jval =
    JNone
  | JBool bool
  | JNum num
  | JStr string
  | JList "jval list"
  | JObj "(string \<times> jval) list"

type_synonym jdict = "(string \<times> jval) list"

text \<open>\<^verbatim>\<open>d.get(k)\<close>: the value, or \<^verbatim>\<open>None\<close> when the key is absent.\<close>

definition dict_get_or_none :: "jdict \<Rightarrow> string \<Rightarrow> jval" where
  "dict_get_or_none d k = (case map_of d k of None \<Rightarrow> JNone | Some v \<Rightarrow> v)"

text \<open>
  A Python dict whose order of insertion matters is a list of pairs with pairwise distinct
  keys: \<^verbatim>\<open>d[k] = v\<close> overwrites the value of an existing key where it stands and appends
  a new key at the end.
\<close>

fun dict_set :: "'k \<Rightarrow> 'v \<Rightarrow> ('k \<times> 'v) list \<Rightarrow> ('k \<times> 'v) list" where
  "dict_set k v [] = [(k, v)]"
| "dict_set k v ((k', v') # d) =
     (if k' = k then (k', v) # d else (k', v') # dict_set k v d)"

text \<open>Sequencing of calls that may raise: the first exception ends the computation.\<close>

definition ebind :: "error + 'a \<Rightarrow> ('a \<Rightarrow> error + 'b) \<Rightarrow> error + 'b" where
  "ebind m f = (case m of Inl e \<Rightarrow> Inl e | Inr x \<Rightarrow> f x)"

section \<open>RunnerBook\<close>

text \<open>
  One entry of \<^verbatim>\<open>marketDefinition["runners"]\<close>. The keys \<^verbatim>\<open>id\<close> and \<^verbatim>\<open>hc\<close> are read as
  numbers (\<^verbatim>\<open>hc\<close> may be absent); the other keys stay in \<open>rd_fields\<close> and are read with
  \<^verbatim>\<open>get\<close>.
\<close>

record runner_definition =
  rd_id :: num
  rd_hc :: "num option"
  rd_fields :: jdict

text \<open>
  One entry of \<^verbatim>\<open>market_change["rc"]\<close> (\<^verbatim>\<open>new_data\<close> in the source). \<^verbatim>\<open>id\<close> is always
  there; for every other key \<open>None\<close> means that the key is absent from the dict, \<open>Some v\<close>
  that it is present with the number or the list of rows \<open>v\<close>.
\<close>

record runner_data =
  rc_id :: num
  rc_hc :: "num option"
  rc_ltp :: "num option"
  rc_tv :: "num option"
  rc_spn :: "num option"
  rc_spf :: "num option"
  rc_trd :: "row list option"
  rc_atb :: "row list option"
  rc_atl :: "row list option"
  rc_batb :: "row list option"
  rc_batl :: "row list option"
  rc_bdatb :: "row list option"
  rc_bdatl :: "row list option"
  rc_spb :: "row list option"
  rc_spl :: "row list option"

text \<open>The dict built by \<^verbatim>\<open>RunnerBook.serialise\<close>, with its nested "ex" and "sp" dicts.\<close>

record ex_snapshot =
  tradedVolume :: "price_size list"
  availableToBack :: "price_size list"
  availableToLay :: "price_size list"

record sp_snapshot =
  nearPrice :: "num option"
  farPrice :: "num option"
  backStakeTaken :: "price_size list"
  layLiabilityTaken :: "price_size list"
  actualSP :: jval

record runner_snapshot =
  status :: jval
  ex :: ex_snapshot
  sp :: sp_snapshot
  adjustmentFactor :: jval
  removalDate :: jval
  lastPriceTraded :: "num option"
  handicap_out :: num
  totalMatched :: "num option"
  selectionId :: num

text \<open>
  The object state of a \<^verbatim>\<open>RunnerBook\<close>. \<open>runner_def\<close> is \<^verbatim>\<open>self.definition\<close>, \<open>None\<close>
  for the empty dict; \<open>serialised\<close> is \<open>None\<close> for the empty dict the constructor leaves.
\<close>

record runner_book =
  selection_id :: num
  last_price_traded :: "num option"
  total_matched :: "num option"
  traded :: available
  available_to_back :: available
  best_available_to_back :: available
  best_display_available_to_back :: available
  available_to_lay :: available
  best_available_to_lay :: available
  best_display_available_to_lay :: available
  starting_price_back :: available
  starting_price_lay :: available
  starting_price_near :: "num option"
  starting_price_far :: "num option"
  handicap :: num
  runner_def :: "runner_definition option"
  definition_status :: jval
  definition_bsp :: jval
  definition_adjustment_factor :: jval
  definition_removal_date :: jval
  serialised :: "runner_snapshot option"

text \<open>\<^verbatim>\<open>self.definition.get(k)\<close>.\<close>

definition definition_get :: "runner_definition option \<Rightarrow> string \<Rightarrow> jval" where
  "definition_get d k =
     (case d of None \<Rightarrow> JNone | Some rd \<Rightarrow> dict_get_or_none (rd_fields rd) k)"

text \<open>\<^verbatim>\<open>RunnerBook.update_definition\<close>.\<close>

definition update_definition :: "runner_book \<Rightarrow> runner_definition option \<Rightarrow> runner_book" where
  "update_definition r d =
     r\<lparr>runner_def := d,
       definition_status := definition_get d ''status'',
       definition_bsp := definition_get d ''bsp'',
       definition_adjustment_factor := definition_get d ''adjustmentFactor'',
       definition_removal_date := definition_get d ''removalDate''\<rparr>"

text \<open>
  \<^verbatim>\<open>RunnerBook.__init__\<close>, called with the keyword arguments of a runner change and a
  definition. The nine ladders are built in the order of the source.
\<close>

definition runner_book_init :: "runner_data \<Rightarrow> runner_definition option \<Rightarrow> error + runner_book" where
  "runner_book_init nd d =
     ebind (available_init (rc_trd nd) 1 False) (\<lambda>trd.
     ebind (available_init (rc_atb nd) 1 True) (\<lambda>atb.
     ebind (available_init (rc_batb nd) 2 False) (\<lambda>batb.
     ebind (available_init (rc_bdatb nd) 2 False) (\<lambda>bdatb.
     ebind (available_init (rc_atl nd) 1 False) (\<lambda>atl.
     ebind (available_init (rc_batl nd) 2 False) (\<lambda>batl.
     ebind (available_init (rc_bdatl nd) 2 False) (\<lambda>bdatl.
     ebind (available_init (rc_spb nd) 1 False) (\<lambda>spb.
     ebind (available_init (rc_spl nd) 1 False) (\<lambda>spl.
       Inr (update_definition
         \<lparr>selection_id = rc_id nd,
          last_price_traded = rc_ltp nd,
          total_matched = rc_tv nd,
          traded = trd,
          available_to_back = atb,
          best_available_to_back = batb,
          best_display_available_to_back = bdatb,
          available_to_lay = atl,
          best_available_to_lay = batl,
          best_display_available_to_lay = bdatl,
          starting_price_back = spb,
          starting_price_lay = spl,
          starting_price_near = rc_spn nd,
          starting_price_far = rc_spf nd,
          handicap = (case rc_hc nd of None \<Rightarrow> 0 | Some h \<Rightarrow> h),
          runner_def = d,
          definition_status = JNone,
          definition_bsp = JNone,
          definition_adjustment_factor = JNone,
          definition_removal_date = JNone,
          serialised = None\<rparr> d))))))))))"

text \<open>\<^verbatim>\<open>RunnerBook.update_traded\<close>: an empty list clears the ladder.\<close>

definition update_traded :: "runner_book \<Rightarrow> row list \<Rightarrow> error + runner_book" where
  "update_traded r trd_update =
     ebind (if trd_update = [] then available_clear (traded r)
            else available_update (traded r) trd_update)
       (\<lambda>t. Inr (r\<lparr>traded := t\<rparr>))"

text \<open>\<^verbatim>\<open>RunnerBook.serialise_available_to_back\<close> and \<^verbatim>\<open>serialise_available_to_lay\<close>.\<close>

definition serialise_available_to_back :: "runner_book \<Rightarrow> price_size list" where
  "serialise_available_to_back r =
     (if prices (available_to_back r) \<noteq> [] then serialise (available_to_back r)
      else if prices (best_display_available_to_back r) \<noteq> []
        then serialise (best_display_available_to_back r)
      else if prices (best_available_to_back r) \<noteq> [] then serialise (best_available_to_back r)
      else [])"

definition serialise_available_to_lay :: "runner_book \<Rightarrow> price_size list" where
  "serialise_available_to_lay r =
     (if prices (available_to_lay r) \<noteq> [] then serialise (available_to_lay r)
      else if prices (best_display_available_to_lay r) \<noteq> []
        then serialise (best_display_available_to_lay r)
      else if prices (best_available_to_lay r) \<noteq> [] then serialise (best_available_to_lay r)
      else [])"

text \<open>The dict that \<^verbatim>\<open>RunnerBook.serialise\<close> builds from the current state.\<close>

definition runner_snapshot_of :: "runner_book \<Rightarrow> runner_snapshot" where
  "runner_snapshot_of r =
     \<lparr>status = definition_status r,
      ex = \<lparr>tradedVolume = serialise (traded r),
            availableToBack = serialise_available_to_back r,
            availableToLay = serialise_available_to_lay r\<rparr>,
      sp = \<lparr>nearPrice = starting_price_near r,
            farPrice = starting_price_far r,
            backStakeTaken = serialise (starting_price_back r),
            layLiabilityTaken = serialise (starting_price_lay r),
            actualSP = definition_bsp r\<rparr>,
      adjustmentFactor = definition_adjustment_factor r,
      removalDate = definition_removal_date r,
      lastPriceTraded = last_price_traded r,
      handicap_out = handicap r,
      totalMatched = total_matched r,
      selectionId = selection_id r\<rparr>"

text \<open>\<^verbatim>\<open>RunnerBook.serialise\<close>: store that dict in \<^verbatim>\<open>self.serialised\<close>.\<close>

definition runner_serialise :: "runner_book \<Rightarrow> runner_book" where
  "runner_serialise r = r\<lparr>serialised := Some (runner_snapshot_of r)\<rparr>"

section \<open>MarketBookCache\<close>

text \<open>
  \<^verbatim>\<open>if k in new_data: ladder.update(new_data[k])\<close> for one of the ladder keys: \<open>get\<close> reads
  the ladder of the runner and \<open>put\<close> stores the updated one.
\<close>

definition update_ladder ::
  "row list option \<Rightarrow> (runner_book \<Rightarrow> available) \<Rightarrow>
   (available \<Rightarrow> runner_book \<Rightarrow> runner_book) \<Rightarrow> runner_book \<Rightarrow> error + runner_book" where
  "update_ladder v get put r =
     (case v of
        None \<Rightarrow> Inr r
      | Some book_update \<Rightarrow> ebind (available_update (get r) book_update) (\<lambda>a. Inr (put a r)))"

text \<open>
  The branch \<^verbatim>\<open>if runner:\<close> of \<^verbatim>\<open>MarketBookCache.update_cache\<close>: the keys present in
  \<^verbatim>\<open>new_data\<close> are applied to the existing runner, in the order of the source.
\<close>

definition update_runner :: "runner_book \<Rightarrow> runner_data \<Rightarrow> error + runner_book" where
  "update_runner r0 nd =
     (let r1 = (case rc_ltp nd of None \<Rightarrow> r0 | Some v \<Rightarrow> r0\<lparr>last_price_traded := Some v\<rparr>);
          r2 = (case rc_tv nd of None \<Rightarrow> r1 | Some v \<Rightarrow> r1\<lparr>total_matched := Some v\<rparr>);
          r3 = (case rc_spn nd of None \<Rightarrow> r2 | Some v \<Rightarrow> r2\<lparr>starting_price_near := Some v\<rparr>);
          r4 = (case rc_spf nd of None \<Rightarrow> r3 | Some v \<Rightarrow> r3\<lparr>starting_price_far := Some v\<rparr>)
      in
      ebind (case rc_trd nd of None \<Rightarrow> Inr r4 | Some t \<Rightarrow> update_traded r4 t) (\<lambda>r.
      ebind (update_ladder (rc_atb nd) available_to_back
               (\<lambda>a r. r\<lparr>available_to_back := a\<rparr>) r) (\<lambda>r.
      ebind (update_ladder (rc_atl nd) available_to_lay
               (\<lambda>a r. r\<lparr>available_to_lay := a\<rparr>) r) (\<lambda>r.
      ebind (update_ladder (rc_batb nd) best_available_to_back
               (\<lambda>a r. r\<lparr>best_available_to_back := a\<rparr>) r) (\<lambda>r.
      ebind (update_ladder (rc_batl nd) best_available_to_lay
               (\<lambda>a r. r\<lparr>best_available_to_lay := a\<rparr>) r) (\<lambda>r.
      ebind (update_ladder (rc_bdatb nd) best_display_available_to_back
               (\<lambda>a r. r\<lparr>best_display_available_to_back := a\<rparr>) r) (\<lambda>r.
      ebind (update_ladder (rc_bdatl nd) best_display_available_to_lay
               (\<lambda>a r. r\<lparr>best_display_available_to_lay := a\<rparr>) r) (\<lambda>r.
      ebind (update_ladder (rc_spb nd) starting_price_back
               (\<lambda>a r. r\<lparr>starting_price_back := a\<rparr>) r) (\<lambda>r.
      update_ladder (rc_spl nd) starting_price_lay
               (\<lambda>a r. r\<lparr>starting_price_lay := a\<rparr>) r)))))))))"

text \<open>
  The market definition of a market change: its keys other than \<^verbatim>\<open>runners\<close> are read
  with \<^verbatim>\<open>get\<close>; \<open>md_runners\<close> is the value of \<^verbatim>\<open>runners\<close>, \<open>None\<close> when the key is
  absent.
\<close>

record market_definition =
  md_fields :: jdict
  md_runners :: "runner_definition list option"

record market_change =
  mc_marketDefinition :: "market_definition option"
  mc_tv :: "num option"
  mc_rc :: "runner_data list option"

text \<open>
  The state of a \<^verbatim>\<open>MarketBookCache\<close>. \<^verbatim>\<open>runner_dict\<close> holds references to the objects
  in \<^verbatim>\<open>runners\<close>; \<^verbatim>\<open>runners\<close> only grows at its end, so a reference is the position of
  the runner in \<open>runners\<close>, and a change of the runner through \<^verbatim>\<open>runner_dict\<close> is seen
  through \<^verbatim>\<open>runners\<close>.

  \<^verbatim>\<open>self.streaming_update\<close> is left out of the state. It is a reference to the message,
  and the ladders of a runner built from the message keep the message's own row lists and
  sort and change them in place, so that its value follows the ladders; nothing stated
  below reads it.
\<close>

record market_book_cache =
  market_id :: string
  publish_time :: int
  market_total_matched :: "num option"
  market_def :: "market_definition option"
  definition_bet_delay :: jval
  definition_version :: jval
  definition_complete :: jval
  definition_runners_voidable :: jval
  market_definition_status :: jval
  definition_bsp_reconciled :: jval
  definition_cross_matching :: jval
  definition_in_play :: jval
  definition_number_of_winners :: jval
  definition_number_of_active_runners :: jval
  definition_price_ladder_definition :: jval
  definition_key_line_description :: jval
  runners :: "runner_book list"
  runner_dict :: "(num \<times> num) \<rightharpoonup> nat"
  number_of_runners :: nat

text \<open>\<^verbatim>\<open>MarketBookCache.__init__\<close>.\<close>

definition market_book_cache_init :: "string \<Rightarrow> int \<Rightarrow> market_book_cache" where
  "market_book_cache_init mid pt =
     \<lparr>market_id = mid, publish_time = pt, market_total_matched = None, market_def = None,
      definition_bet_delay = JNone, definition_version = JNone, definition_complete = JNone,
      definition_runners_voidable = JNone, market_definition_status = JNone,
      definition_bsp_reconciled = JNone, definition_cross_matching = JNone,
      definition_in_play = JNone, definition_number_of_winners = JNone,
      definition_number_of_active_runners = JNone,
      definition_price_ladder_definition = JNone, definition_key_line_description = JNone,
      runners = [], runner_dict = Map.empty,
      number_of_runners = 0\<rparr>"

text \<open>
  The dict comprehension of \<^verbatim>\<open>_add_new_runner\<close>: every runner in turn is stored under
  its key, a later runner with the same key replacing an earlier one.
\<close>

fun build_runner_dict ::
  "runner_book list \<Rightarrow> nat \<Rightarrow> ((num \<times> num) \<rightharpoonup> nat) \<Rightarrow> ((num \<times> num) \<rightharpoonup> nat)" where
  "build_runner_dict [] i m = m"
| "build_runner_dict (r # rs) i m =
     build_runner_dict rs (Suc i) (m((selection_id r, handicap r) \<mapsto> i))"

text \<open>
  \<^verbatim>\<open>MarketBookCache._add_new_runner\<close>; the result is the new state and the position of
  the new runner.
\<close>

definition add_new_runner ::
  "market_book_cache \<Rightarrow> runner_data \<Rightarrow> runner_definition option \<Rightarrow>
   error + (market_book_cache \<times> nat)" where
  "add_new_runner mb nd d =
     ebind (runner_book_init nd d) (\<lambda>runner.
       let rs = runners mb @ [runner]
       in Inr (mb\<lparr>runners := rs, number_of_runners := length rs,
                  runner_dict := build_runner_dict rs 0 Map.empty\<rparr>,
               length rs - 1))"

text \<open>The keyword arguments \<^verbatim>\<open>id=selection_id, hc=hc\<close> of a runner made from its definition.\<close>

definition definition_kwargs :: "num \<Rightarrow> num \<Rightarrow> runner_data" where
  "definition_kwargs sid hc =
     \<lparr>rc_id = sid, rc_hc = Some hc, rc_ltp = None, rc_tv = None, rc_spn = None, rc_spf = None,
      rc_trd = None, rc_atb = None, rc_atl = None, rc_batb = None, rc_batl = None,
      rc_bdatb = None, rc_bdatl = None, rc_spb = None, rc_spl = None\<rparr>"

text \<open>The loop over the runner definitions of \<^verbatim>\<open>_process_market_definition\<close>.\<close>

fun process_runner_definitions ::
  "market_book_cache \<Rightarrow> runner_definition list \<Rightarrow> error + market_book_cache" where
  "process_runner_definitions mb [] = Inr mb"
| "process_runner_definitions mb (rd # rest) =
     (let sid = rd_id rd;
          hc = (case rd_hc rd of None \<Rightarrow> 0 | Some h \<Rightarrow> h)
      in case runner_dict mb (sid, hc) of
           Some i \<Rightarrow>
             process_runner_definitions
               (mb\<lparr>runners := (runners mb)
                    [i := runner_serialise (update_definition (runners mb ! i) (Some rd))]\<rparr>)
               rest
         | None \<Rightarrow>
             ebind (add_new_runner mb (definition_kwargs sid hc) (Some rd))
               (\<lambda>(mb', i).
                  process_runner_definitions
                    (mb'\<lparr>runners := (runners mb')[i := runner_serialise (runners mb' ! i)]\<rparr>)
                    rest))"

text \<open>\<^verbatim>\<open>MarketBookCache._process_market_definition\<close>.\<close>

definition process_market_definition ::
  "market_book_cache \<Rightarrow> market_definition \<Rightarrow> error + market_book_cache" where
  "process_market_definition mb md =
     process_runner_definitions
       (mb\<lparr>market_def := Some md,
           definition_bet_delay := dict_get_or_none (md_fields md) ''betDelay'',
           definition_version := dict_get_or_none (md_fields md) ''version'',
           definition_complete := dict_get_or_none (md_fields md) ''complete'',
           definition_runners_voidable := dict_get_or_none (md_fields md) ''runnersVoidable'',
           market_definition_status := dict_get_or_none (md_fields md) ''status'',
           definition_bsp_reconciled := dict_get_or_none (md_fields md) ''bspReconciled'',
           definition_cross_matching := dict_get_or_none (md_fields md) ''crossMatching'',
           definition_in_play := dict_get_or_none (md_fields md) ''inPlay'',
           definition_number_of_winners := dict_get_or_none (md_fields md) ''numberOfWinners'',
           definition_number_of_active_runners :=
             dict_get_or_none (md_fields md) ''numberOfActiveRunners'',
           definition_price_ladder_definition :=
             dict_get_or_none (md_fields md) ''priceLadderDefinition'',
           definition_key_line_description :=
             dict_get_or_none (md_fields md) ''keyLineDefinition''\<rparr>)
       (case md_runners md of None \<Rightarrow> [] | Some l \<Rightarrow> l)"

text \<open>
  The loop over \<^verbatim>\<open>market_change["rc"]\<close>: an existing runner takes the keys present, an
  unknown one is built from the entry; either is serialised at once.
\<close>

fun process_runner_changes ::
  "market_book_cache \<Rightarrow> runner_data list \<Rightarrow> error + market_book_cache" where
  "process_runner_changes mb [] = Inr mb"
| "process_runner_changes mb (new_data # rest) =
     (case runner_dict mb (rc_id new_data, (case rc_hc new_data of None \<Rightarrow> 0 | Some h \<Rightarrow> h)) of
        Some i \<Rightarrow>
          ebind (update_runner (runners mb ! i) new_data) (\<lambda>runner.
            process_runner_changes
              (mb\<lparr>runners := (runners mb)[i := runner_serialise runner]\<rparr>) rest)
      | None \<Rightarrow>
          ebind (add_new_runner mb new_data None) (\<lambda>(mb', i).
            process_runner_changes
              (mb'\<lparr>runners := (runners mb')[i := runner_serialise (runners mb' ! i)]\<rparr>) rest))"

text \<open>\<^verbatim>\<open>MarketBookCache.update_cache\<close>.\<close>

definition update_cache ::
  "market_book_cache \<Rightarrow> market_change \<Rightarrow> int \<Rightarrow> error + market_book_cache" where
  "update_cache mb market_change pt =
     (let mb1 = mb\<lparr>publish_time := pt\<rparr>
      in ebind (case mc_marketDefinition market_change of
                  None \<Rightarrow> Inr mb1
                | Some md \<Rightarrow> process_market_definition mb1 md) (\<lambda>mb2.
         let mb3 = (case mc_tv market_change of
                      None \<Rightarrow> mb2
                    | Some v \<Rightarrow> mb2\<lparr>market_total_matched := Some v\<rparr>)
         in case mc_rc market_change of
              None \<Rightarrow> Inr mb3
            | Some rc \<Rightarrow> process_runner_changes mb3 rc))"

text \<open>The property \<^verbatim>\<open>MarketBookCache.closed\<close>.\<close>

definition market_closed :: "market_book_cache \<Rightarrow> bool" where
  "market_closed mb =
     (case market_def mb of
        None \<Rightarrow> False
      | Some md \<Rightarrow> dict_get_or_none (md_fields md) ''status'' = JStr ''CLOSED'')"

text \<open>
  The market caches the class can produce: a new cache, changed only by completed calls
  of \<^verbatim>\<open>update_cache\<close>.
\<close>

inductive market :: "market_book_cache \<Rightarrow> bool" where
  market_init: "market (market_book_cache_init mid pt)"
| market_update: "market mb \<Longrightarrow> update_cache mb mc pt = Inr mb' \<Longrightarrow> market mb'"

text \<open>
  What every such cache satisfies: the cached dict of each runner is the one
  \<^verbatim>\<open>serialise\<close> builds from its state, and \<^verbatim>\<open>runner_dict\<close> maps a key to a runner of
  \<^verbatim>\<open>runners\<close> that has this key.
\<close>

definition market_inv :: "market_book_cache \<Rightarrow> bool" where
  "market_inv mb =
     ((\<forall>r\<in>set (runners mb). serialised r = Some (runner_snapshot_of r)) \<and>
      (\<forall>k i. runner_dict mb k = Some i \<longrightarrow>
         i < length (runners mb) \<and>
         (selection_id (runners mb ! i), handicap (runners mb ! i)) = k))"

section \<open>UnmatchedOrder, OrderBookRunner, OrderBookCache\<close>

text \<open>
  One entry of \<^verbatim>\<open>uo\<close>, the keyword arguments of \<^verbatim>\<open>UnmatchedOrder.__init__\<close>: the
  arguments without a default are always there, the others are \<open>None\<close> when absent.
\<close>

record order_data =
  o_id :: string
  o_p :: num
  o_s :: num
  o_side :: string
  o_status :: string
  o_ot :: string
  o_pd :: int
  o_sm :: num
  o_sr :: num
  o_sl :: num
  o_sc :: num
  o_sv :: num
  o_rfo :: string
  o_rfs :: string
  o_pt :: "string option"
  o_md :: "int option"
  o_avp :: "num option"
  o_bsp :: "num option"
  o_ld :: "int option"
  o_rac :: "string option"
  o_rc :: "string option"
  o_lsrc :: "string option"
  o_cd :: "int option"

text \<open>
  The state of an \<^verbatim>\<open>UnmatchedOrder\<close>. \<open>'d\<close> is the type of the date values that
  \<^verbatim>\<open>BaseResource.strip_datetime\<close> returns.
\<close>

record 'd unmatched_order =
  uo_bet_id :: string
  uo_price :: num
  uo_size :: num
  uo_bsp_liability :: "num option"
  uo_side :: string
  uo_status :: string
  uo_persistence_type :: "string option"
  uo_order_type :: string
  uo_placed_date :: "'d option"
  uo_placed_date_string :: "string option"
  uo_matched_date :: "'d option"
  uo_matched_date_string :: "string option"
  uo_average_price_matched :: "num option"
  uo_size_matched :: num
  uo_size_remaining :: num
  uo_size_lapsed :: num
  uo_size_cancelled :: num
  uo_size_voided :: num
  uo_regulator_auth_code :: "string option"
  uo_regulator_code :: "string option"
  uo_reference_order :: string
  uo_reference_strategy :: string
  uo_lapsed_date :: "'d option"
  uo_lapsed_date_string :: "string option"
  uo_lapse_status_reason_code :: "string option"
  uo_cancelled_date :: "'d option"
  uo_cancelled_date_string :: "string option"

text \<open>
  \<^verbatim>\<open>UnmatchedOrder.__init__\<close>. \<^verbatim>\<open>BaseResource.strip_datetime\<close> and
  \<^verbatim>\<open>utils.create_date_string\<close> are not part of this module; they are the parameters
  \<open>sd\<close> and \<open>cds\<close>.
\<close>

definition unmatched_order_init ::
  "(int option \<Rightarrow> 'd option) \<Rightarrow> ('d option \<Rightarrow> string option) \<Rightarrow> order_data \<Rightarrow>
   'd unmatched_order" where
  "unmatched_order_init sd cds i =
     \<lparr>uo_bet_id = o_id i,
      uo_price = o_p i,
      uo_size = o_s i,
      uo_bsp_liability = o_bsp i,
      uo_side = o_side i,
      uo_status = o_status i,
      uo_persistence_type = o_pt i,
      uo_order_type = o_ot i,
      uo_placed_date = sd (Some (o_pd i)),
      uo_placed_date_string = cds (sd (Some (o_pd i))),
      uo_matched_date = sd (o_md i),
      uo_matched_date_string = cds (sd (o_md i)),
      uo_average_price_matched = o_avp i,
      uo_size_matched = o_sm i,
      uo_size_remaining = o_sr i,
      uo_size_lapsed = o_sl i,
      uo_size_cancelled = o_sc i,
      uo_size_voided = o_sv i,
      uo_regulator_auth_code = o_rac i,
      uo_regulator_code = o_rc i,
      uo_reference_order = o_rfo i,
      uo_reference_strategy = o_rfs i,
      uo_lapsed_date = sd (o_ld i),
      uo_lapsed_date_string = cds (sd (o_ld i)),
      uo_lapse_status_reason_code = o_lsrc i,
      uo_cancelled_date = sd (o_cd i),
      uo_cancelled_date_string = cds (sd (o_cd i))\<rparr>"

text \<open>
  One entry of \<^verbatim>\<open>order_book["orc"]\<close>, the keyword arguments of
  \<^verbatim>\<open>OrderBookRunner.__init__\<close>.
\<close>

record order_changes =
  oc_id :: num
  oc_fullImage :: "bool option"
  oc_ml :: "row list option"
  oc_mb :: "row list option"
  oc_uo :: "order_data list option"
  oc_hc :: "num option"
  oc_smc :: "jval option"

record 'd order_book_runner =
  obr_selection_id :: num
  full_image :: "bool option"
  matched_lays :: available
  matched_backs :: available
  unmatched_orders :: "(string \<times> 'd unmatched_order) list"
  obr_handicap :: num
  strategy_matches :: "jval option"

text \<open>
  Storing the orders of a list under their ids, one after the other, into a dict: the dict
  comprehension of \<^verbatim>\<open>OrderBookRunner.__init__\<close> (from the empty dict) and the loop of
  \<^verbatim>\<open>update_unmatched\<close> (into the existing dict).
\<close>

definition store_orders ::
  "(int option \<Rightarrow> 'd option) \<Rightarrow> ('d option \<Rightarrow> string option) \<Rightarrow> order_data list \<Rightarrow>
   (string \<times> 'd unmatched_order) list \<Rightarrow> (string \<times> 'd unmatched_order) list" where
  "store_orders sd cds uo d =
     fold (\<lambda>i d. dict_set (o_id i) (unmatched_order_init sd cds i) d) uo d"

text \<open>\<^verbatim>\<open>OrderBookRunner.__init__\<close>.\<close>

definition order_book_runner_init ::
  "(int option \<Rightarrow> 'd option) \<Rightarrow> ('d option \<Rightarrow> string option) \<Rightarrow> order_changes \<Rightarrow>
   error + 'd order_book_runner" where
  "order_book_runner_init sd cds oc =
     ebind (available_init (oc_ml oc) 1 False) (\<lambda>ml.
     ebind (available_init (oc_mb oc) 1 False) (\<lambda>mb.
       Inr \<lparr>obr_selection_id = oc_id oc,
            full_image = oc_fullImage oc,
            matched_lays = ml,
            matched_backs = mb,
            unmatched_orders =
              (case oc_uo oc of None \<Rightarrow> [] | Some uo \<Rightarrow> store_orders sd cds uo []),
            obr_handicap = (case oc_hc oc of None \<Rightarrow> 0 | Some h \<Rightarrow> h),
            strategy_matches = oc_smc oc\<rparr>))"

text \<open>\<^verbatim>\<open>OrderBookRunner.update_unmatched\<close>.\<close>

definition update_unmatched ::
  "(int option \<Rightarrow> 'd option) \<Rightarrow> ('d option \<Rightarrow> string option) \<Rightarrow> 'd order_book_runner \<Rightarrow>
   order_data list \<Rightarrow> 'd order_book_runner" where
  "update_unmatched sd cds r uo =
     r\<lparr>unmatched_orders := store_orders sd cds uo (unmatched_orders r)\<rparr>"

text \<open>\<^verbatim>\<open>OrderBookRunner.serialise_matches\<close>, as the triple of its three values.\<close>

definition serialise_matches ::
  "'d order_book_runner \<Rightarrow> num \<times> price_size list \<times> price_size list" where
  "serialise_matches r =
     (obr_selection_id r, serialise (matched_lays r), serialise (matched_backs r))"

text \<open>The order book message: the keys \<^verbatim>\<open>closed\<close> and \<^verbatim>\<open>orc\<close>, \<open>None\<close> when absent.\<close>

record order_book =
  ob_closed :: "bool option"
  ob_orc :: "order_changes list option"

text \<open>
  The state of an \<^verbatim>\<open>OrderBookCache\<close>; \<^verbatim>\<open>runners\<close> is a dict from
  (selectionId, handicap) to the runner. \<^verbatim>\<open>self.streaming_update\<close> is left out as for the
  market cache: the matched ladders of a new runner keep the message's own row lists.
\<close>

record 'd order_book_cache =
  obc_datetime_updated :: "'d option"
  obc_publish_time :: "int option"
  obc_market_id :: "string option"
  closed :: "bool option"
  obc_runners :: "((num \<times> num) \<times> 'd order_book_runner) list"

text \<open>
  The \<^verbatim>\<open>else\<close> branch of the loop of \<^verbatim>\<open>OrderBookCache.update_cache\<close>: the parts
  present in the change are merged into the existing runner.
\<close>

definition merge_order_changes ::
  "(int option \<Rightarrow> 'd option) \<Rightarrow> ('d option \<Rightarrow> string option) \<Rightarrow> 'd order_book_runner \<Rightarrow>
   order_changes \<Rightarrow> error + 'd order_book_runner" where
  "merge_order_changes sd cds runner oc =
     ebind (case oc_ml oc of
              None \<Rightarrow> Inr runner
            | Some ml \<Rightarrow> ebind (available_update (matched_lays runner) ml)
                           (\<lambda>a. Inr (runner\<lparr>matched_lays := a\<rparr>))) (\<lambda>r1.
     ebind (case oc_mb oc of
              None \<Rightarrow> Inr r1
            | Some mb \<Rightarrow> ebind (available_update (matched_backs r1) mb)
                           (\<lambda>a. Inr (r1\<lparr>matched_backs := a\<rparr>))) (\<lambda>r2.
       Inr (case oc_uo oc of None \<Rightarrow> r2 | Some uo \<Rightarrow> update_unmatched sd cds r2 uo)))"

text \<open>The loop \<^verbatim>\<open>for order_changes in order_book.get("orc", [])\<close>, on the dict of runners.\<close>

fun process_order_changes ::
  "(int option \<Rightarrow> 'd option) \<Rightarrow> ('d option \<Rightarrow> string option) \<Rightarrow>
   ((num \<times> num) \<times> 'd order_book_runner) list \<Rightarrow> order_changes list \<Rightarrow>
   error + ((num \<times> num) \<times> 'd order_book_runner) list" where
  "process_order_changes sd cds rs [] = Inr rs"
| "process_order_changes sd cds rs (oc # rest) =
     (let lookup = (oc_id oc, (case oc_hc oc of None \<Rightarrow> 0 | Some h \<Rightarrow> h));
          runner = map_of rs lookup
      in if oc_fullImage oc = Some True \<or> runner = None
         then ebind (order_book_runner_init sd cds oc) (\<lambda>r.
                process_order_changes sd cds (dict_set lookup r rs) rest)
         else ebind (merge_order_changes sd cds (the runner) oc) (\<lambda>r.
                process_order_changes sd cds (dict_set lookup r rs) rest))"

text \<open>\<^verbatim>\<open>OrderBookCache.update_cache\<close>.\<close>

definition order_update_cache ::
  "(int option \<Rightarrow> 'd option) \<Rightarrow> ('d option \<Rightarrow> string option) \<Rightarrow> 'd order_book_cache \<Rightarrow>
   order_book \<Rightarrow> int \<Rightarrow> error + 'd order_book_cache" where
  "order_update_cache sd cds c ob pt =
     (let c1 = c\<lparr>obc_datetime_updated := sd (Some pt), obc_publish_time := Some pt\<rparr>;
          c2 = (case ob_closed ob of None \<Rightarrow> c1 | Some b \<Rightarrow> c1\<lparr>closed := Some b\<rparr>)
      in ebind (process_order_changes sd cds (obc_runners c2)
                  (case ob_orc ob of None \<Rightarrow> [] | Some l \<Rightarrow> l))
           (\<lambda>rs. Inr (c2\<lparr>obc_runners := rs\<rparr>)))"

section \<open>RunnerChange, RaceCache\<close>

text \<open>The class \<^verbatim>\<open>RunnerChange\<close>: the latest payload of one race runner.\<close>

record runner_change =
  change :: jdict

text \<open>
  The key under which Python stores a JSON value in a dict: lists and objects cannot be
  hashed, and \<^verbatim>\<open>True\<close> and \<^verbatim>\<open>False\<close> are the numbers 1 and 0.
\<close>

datatype hkey = HNone | HNum num | HStr string

fun hash_key :: "jval \<Rightarrow> error + hkey" where
  "hash_key JNone = Inr HNone"
| "hash_key (JBool b) = Inr (HNum (if b then 1 else 0))"
| "hash_key (JNum n) = Inr (HNum n)"
| "hash_key (JStr s) = Inr (HStr s)"
| "hash_key (JList l) = Inl TypeError"
| "hash_key (JObj d) = Inl TypeError"

text \<open>\<^verbatim>\<open>payload["id"]\<close> used as a dict key.\<close>

definition payload_id :: "jdict \<Rightarrow> error + hkey" where
  "payload_id d = (case map_of d ''id'' of None \<Rightarrow> Inl KeyError | Some v \<Rightarrow> hash_key v)"

text \<open>The race message: the keys \<^verbatim>\<open>rpc\<close> and \<^verbatim>\<open>rrc\<close>, \<open>None\<close> when absent.\<close>

record race_update =
  ru_rpc :: "jval option"
  ru_rrc :: "jdict list option"

record 'd race_cache =
  race_datetime_updated :: "'d option"
  race_publish_time :: "int option"
  race_market_id :: jval
  race_id :: jval
  rpc :: jval
  rrc :: "runner_change list"
  race_streaming_update :: "race_update option"

text \<open>
  The dict comprehension \<^verbatim>\<open>{runner.change["id"]: runner for runner in self.rrc}\<close>. The
  dict holds references to the objects of \<^verbatim>\<open>self.rrc\<close>, which only grows at its end: a
  reference is a position in \<^verbatim>\<open>self.rrc\<close>. A later runner with the same id replaces an
  earlier one.
\<close>

fun race_runner_dict ::
  "runner_change list \<Rightarrow> nat \<Rightarrow> (hkey \<rightharpoonup> nat) \<Rightarrow> error + (hkey \<rightharpoonup> nat)" where
  "race_runner_dict [] i m = Inr m"
| "race_runner_dict (runner # rest) i m =
     (case payload_id (change runner) of
        Inl e \<Rightarrow> Inl e
      | Inr k \<Rightarrow> race_runner_dict rest (Suc i) (m(k \<mapsto> i)))"

text \<open>
  The loop \<^verbatim>\<open>for runner_update in update["rrc"]\<close>. The dict was built before the loop
  and is not changed by it.
\<close>

fun apply_runner_updates ::
  "(hkey \<rightharpoonup> nat) \<Rightarrow> jdict list \<Rightarrow> runner_change list \<Rightarrow> error + runner_change list" where
  "apply_runner_updates m [] rs = Inr rs"
| "apply_runner_updates m (runner_update # rest) rs =
     (case payload_id runner_update of
        Inl e \<Rightarrow> Inl e
      | Inr k \<Rightarrow>
          (case m k of
             Some i \<Rightarrow> apply_runner_updates m rest (rs[i := \<lparr>change = runner_update\<rparr>])
           | None \<Rightarrow> apply_runner_updates m rest (rs @ [\<lparr>change = runner_update\<rparr>])))"

text \<open>\<^verbatim>\<open>RaceCache.update_cache\<close>; \<open>sd\<close> is \<^verbatim>\<open>BaseResource.strip_datetime\<close>.\<close>

definition race_update_cache ::
  "(int option \<Rightarrow> 'd option) \<Rightarrow> 'd race_cache \<Rightarrow> race_update \<Rightarrow> int \<Rightarrow>
   error + 'd race_cache" where
  "race_update_cache sd c u pt =
     (let c1 = c\<lparr>race_datetime_updated := sd (Some pt), race_publish_time := Some pt,
                 race_streaming_update := Some u\<rparr>;
          c2 = (case ru_rpc u of None \<Rightarrow> c1 | Some p \<Rightarrow> c1\<lparr>rpc := p\<rparr>)
      in case ru_rrc u of
           None \<Rightarrow> Inr c2
         | Some us \<Rightarrow>
             ebind (race_runner_dict (rrc c2) 0 Map.empty) (\<lambda>runner_dict.
             ebind (apply_runner_updates runner_dict us (rrc c2)) (\<lambda>rs.
               Inr (c2\<lparr>rrc := rs\<rparr>))))"

section \<open>Properties of the price ladder\<close>

lemma py_get_0: "py_get xs 0 = (case xs of [] \<Rightarrow> Inl IndexError | x # _ \<Rightarrow> Inr x)"
  by (cases xs) (simp_all add: py_get_def)

lemma py_get_Inr_nonempty: "py_get xs i = Inr v \<Longrightarrow> xs \<noteq> []"
  by (auto simp: py_get_def split: if_splits)

lemma py_get_0_Inr: "(py_get xs 0 = Inr v) = (xs \<noteq> [] \<and> hd xs = v)"
  by (cases xs) (simp_all add: py_get_0)

lemma render_rows_iff:
  "(render_rows ds ps = Inr out) =
   list_all2 (\<lambda>v p. py_get v (ds - 1) = Inr (price p) \<and> py_get v ds = Inr (size_val p)) ps out"
proof (induction ps arbitrary: out)
  case Nil
  then show ?case by auto
next
  case (Cons v ps)
  show ?case
  proof (cases out)
    case Nil
    then show ?thesis by (auto split: sum.splits)
  next
    case (Cons p out')
    then show ?thesis using Cons.IH [of out']
      by (cases p) (auto split: sum.splits)
  qed
qed

lemma render_rows_nonempty: "render_rows ds ps = Inr out \<Longrightarrow> [] \<notin> set ps"
  by (induction ps arbitrary: out) (auto split: sum.splits dest: py_get_Inr_nonempty)

lemma available_sort_Inr:
  "available_sort s a = Inr a' \<Longrightarrow>
     render_rows (deletion_select a') (prices a') = Inr (serialise a') \<and>
     deletion_select a' = deletion_select a \<and> reverse a' = reverse a \<and>
     prices a' = (if s then py_sort (reverse a) (prices a) else prices a)"
  by (auto simp: available_sort_def Let_def split: sum.splits)

lemma ladder_synced: "ladder a \<Longrightarrow> render_rows (deletion_select a) (prices a) = Inr (serialise a)"
  by (induction rule: ladder.induct)
     (auto simp: available_init_def available_clear_def available_update_def
           dest: available_sort_Inr split: sum.splits prod.splits)

lemma hd_le_lex: "(xs::row) \<le> ys \<Longrightarrow> xs \<noteq> [] \<Longrightarrow> ys \<noteq> [] \<Longrightarrow> hd xs \<le> hd ys"
  by (cases xs; cases ys) auto

lemma sorted_map_hd: "sorted (ps :: row list) \<Longrightarrow> [] \<notin> set ps \<Longrightarrow> sorted (map hd ps)"
  by (induction ps) (auto intro: hd_le_lex)


lemma update_book_nomatch:
  assumes "[] \<notin> set ps" "hd book \<notin> hd ` set ps" "py_get book ds = Inr s"
  shows "update_book ds book ps = Inr (if s = 0 then ps else ps @ [book], s \<noteq> 0)"
  using assms
proof (induction ps)
  case Nil
  then show ?case by simp
next
  case (Cons t ps)
  have bne: "book \<noteq> []" using Cons.prems(3) by (rule py_get_Inr_nonempty)
  then show ?case using Cons
    by (cases t; cases book) (auto simp: py_get_0)
qed

lemma update_book_Inr_cases:
  assumes "update_book ds book ps = Inr (ps', f)" "[] \<notin> set ps"
  shows "book \<noteq> [] \<and> (\<exists>s. py_get book ds = Inr s \<and>
     ((hd book \<notin> hd ` set ps \<and> ps' = (if s = 0 then ps else ps @ [book]) \<and> f = (s \<noteq> 0)) \<or>
      (\<exists>i<length ps. hd (ps ! i) = hd book \<and> (\<forall>j<i. hd (ps ! j) \<noteq> hd book) \<and>
         ps' = (if s = 0 then take i ps @ drop (Suc i) ps else ps[i := book]) \<and> \<not> f)))"
  using assms
proof (induction ps arbitrary: ps' f)
  case Nil
  then show ?case by (auto split: sum.splits if_splits dest: py_get_Inr_nonempty)
next
  case (Cons t ps)
  from Cons.prems obtain t0 b0 where t0: "py_get t 0 = Inr t0" and b0: "py_get book 0 = Inr b0"
    by (auto split: sum.splits)
  then have tne: "t \<noteq> []" "hd t = t0" and bne: "book \<noteq> []" "hd book = b0"
    by (auto simp: py_get_0_Inr)
  show ?case
  proof (cases "t0 = b0")
    case True
    with Cons.prems t0 b0 obtain s where s: "py_get book ds = Inr s"
      and r: "ps' = (if s = 0 then ps else book # ps)" "\<not> f"
      by (auto split: sum.splits if_splits)
    have "0 < length (t # ps) \<and> hd ((t # ps) ! 0) = hd book \<and> (\<forall>j<0. hd ((t # ps) ! j) \<noteq> hd book) \<and>
         ps' = (if s = 0 then take 0 (t # ps) @ drop (Suc 0) (t # ps) else (t # ps)[0 := book]) \<and> \<not> f"
      using True tne bne r by auto
    then show ?thesis using s bne by blast
  next
    case False
    with Cons.prems t0 b0 obtain rest' where u: "update_book ds book ps = Inr (rest', f)"
      and ps': "ps' = t # rest'"
      by (auto split: sum.splits prod.splits)
    from Cons.IH [OF u] Cons.prems(2) obtain s where s: "py_get book ds = Inr s" and
      d: "(hd book \<notin> hd ` set ps \<and> rest' = (if s = 0 then ps else ps @ [book]) \<and> f = (s \<noteq> 0)) \<or>
      (\<exists>i<length ps. hd (ps ! i) = hd book \<and> (\<forall>j<i. hd (ps ! j) \<noteq> hd book) \<and>
         rest' = (if s = 0 then take i ps @ drop (Suc i) ps else ps[i := book]) \<and> \<not> f)"
      by auto
    from d show ?thesis
    proof
      assume "hd book \<notin> hd ` set ps \<and> rest' = (if s = 0 then ps else ps @ [book]) \<and> f = (s \<noteq> 0)"
      then show ?thesis using s bne tne False ps' by auto
    next
      assume "\<exists>i<length ps. hd (ps ! i) = hd book \<and> (\<forall>j<i. hd (ps ! j) \<noteq> hd book) \<and>
         rest' = (if s = 0 then take i ps @ drop (Suc i) ps else ps[i := book]) \<and> \<not> f"
      then obtain i where i: "i < length ps" "hd (ps ! i) = hd book" "\<forall>j<i. hd (ps ! j) \<noteq> hd book"
         "rest' = (if s = 0 then take i ps @ drop (Suc i) ps else ps[i := book])" "\<not> f" by blast
      have "Suc i < length (t # ps) \<and> hd ((t # ps) ! Suc i) = hd book \<and>
         (\<forall>j<Suc i. hd ((t # ps) ! j) \<noteq> hd book) \<and>
         ps' = (if s = 0 then take (Suc i) (t # ps) @ drop (Suc (Suc i)) (t # ps) else (t # ps)[Suc i := book]) \<and> \<not> f"
        using i ps' False tne bne by (auto simp: less_Suc_eq_0_disj)
      then show ?thesis using s bne by blast
    qed
  qed
qed

lemma identities_update_same:
  "i < length ps \<Longrightarrow> hd (ps ! i) = hd book \<Longrightarrow> identities (ps[i := book]) = identities ps"
  by (simp add: identities_def map_update list_update_same_conv)

lemma subseq_remove_nth: "subseq (take i xs @ drop (Suc i) xs) xs"
proof -
  have "subseq (drop (Suc i) xs) (drop i xs)"
  proof (cases "i < length xs")
    case True
    then have "drop i xs = xs ! i # drop (Suc i) xs" by (simp add: Cons_nth_drop_Suc)
    moreover have "subseq (drop (Suc i) xs) (xs ! i # drop (Suc i) xs)"
      by (rule list_emb_Cons) simp
    ultimately show ?thesis by simp
  next
    case False
    then show ?thesis by simp
  qed
  then have "subseq (take i xs @ drop (Suc i) xs) (take i xs @ drop i xs)"
    by (simp only: subseq_append')
  then show ?thesis by simp
qed

lemma identities_remove_nth:
  "identities (take i ps @ drop (Suc i) ps) = take i (identities ps) @ drop (Suc i) (identities ps)"
  by (simp add: identities_def take_map drop_map)

lemma subseq_set_subset: "subseq xs ys \<Longrightarrow> set xs \<subseteq> set ys"
  by (auto simp: subseq_conv_nths dest: in_set_nthsD)

lemma subseq_sorted_wrt: "subseq xs ys \<Longrightarrow> sorted_wrt P ys \<Longrightarrow> sorted_wrt P xs"
proof (induction rule: list_emb.induct)
  case (list_emb_Cons2 x y xs ys)
  then show ?case using subseq_set_subset [of xs ys] by auto
qed auto

lemma subseq_distinctD: "subseq xs ys \<Longrightarrow> distinct ys \<Longrightarrow> distinct xs"
  by (auto simp: subseq_conv_nths)

lemma distinct_remove_nth: "distinct xs \<Longrightarrow> distinct (take i xs @ drop (Suc i) xs)"
  using subseq_remove_nth [of i xs] by (rule subseq_distinctD)

lemma update_book_nonempty:
  assumes "update_book ds book ps = Inr (ps', f)" "[] \<notin> set ps"
  shows "[] \<notin> set ps'"
proof -
  from update_book_Inr_cases [OF assms] have bne: "book \<noteq> []" by simp
  from update_book_Inr_cases [OF assms] obtain i where
    "ps' = ps \<or> ps' = ps @ [book] \<or> ps' = take i ps @ drop (Suc i) ps \<or> ps' = ps[i := book]"
    by (auto split: if_splits)
  moreover have "set (take i ps @ drop (Suc i) ps) \<subseteq> set ps"
    using subseq_remove_nth [of i ps] by (rule subseq_set_subset)
  moreover have "set (ps[i := book]) \<subseteq> insert book (set ps)"
    by (rule set_update_subset_insert)
  ultimately show ?thesis using bne assms(2) by auto
qed

lemma update_book_distinct:
  assumes "update_book ds book ps = Inr (ps', f)" "[] \<notin> set ps" "distinct (identities ps)"
  shows "distinct (identities ps')"
proof -
  from update_book_Inr_cases [OF assms(1,2)] obtain s :: num where
    d: "(hd book \<notin> hd ` set ps \<and> ps' = (if s = 0 then ps else ps @ [book])) \<or>
      (\<exists>i<length ps. hd (ps ! i) = hd book \<and>
         ps' = (if s = 0 then take i ps @ drop (Suc i) ps else ps[i := book]))"
    by blast
  then show ?thesis
  proof
    assume "hd book \<notin> hd ` set ps \<and> ps' = (if s = 0 then ps else ps @ [book])"
    then show ?thesis using assms(3) by (auto simp: identities_def)
  next
    assume "\<exists>i<length ps. hd (ps ! i) = hd book \<and>
         ps' = (if s = 0 then take i ps @ drop (Suc i) ps else ps[i := book])"
    then obtain i where i: "i < length ps" "hd (ps ! i) = hd book"
      "ps' = (if s = 0 then take i ps @ drop (Suc i) ps else ps[i := book])" by blast
    show ?thesis
    proof (cases "s = 0")
      case True
      then have "identities ps' = take i (identities ps) @ drop (Suc i) (identities ps)"
        using i by (simp add: identities_remove_nth)
      then show ?thesis using distinct_remove_nth [OF assms(3), of i] by simp
    next
      case False
      then show ?thesis using i assms(3) by (simp add: identities_update_same)
    qed
  qed
qed

lemma update_book_subseq:
  assumes "update_book ds book ps = Inr (ps', False)" "[] \<notin> set ps"
  shows "subseq (identities ps') (identities ps)"
proof -
  from update_book_Inr_cases [OF assms(1,2)] obtain s :: num where
    d: "(ps' = (if s = 0 then ps else ps @ [book]) \<and> False = (s \<noteq> 0)) \<or>
      (\<exists>i<length ps. hd (ps ! i) = hd book \<and>
         ps' = (if s = 0 then take i ps @ drop (Suc i) ps else ps[i := book]))"
    by blast
  then show ?thesis
  proof
    assume "ps' = (if s = 0 then ps else ps @ [book]) \<and> False = (s \<noteq> 0)"
    then show ?thesis by simp
  next
    assume "\<exists>i<length ps. hd (ps ! i) = hd book \<and>
         ps' = (if s = 0 then take i ps @ drop (Suc i) ps else ps[i := book])"
    then obtain i where i: "i < length ps" "hd (ps ! i) = hd book"
      "ps' = (if s = 0 then take i ps @ drop (Suc i) ps else ps[i := book])" by blast
    show ?thesis
    proof (cases "s = 0")
      case True
      then show ?thesis using i
        by (simp add: identities_remove_nth subseq_remove_nth)
    next
      case False
      then show ?thesis using i by (simp add: identities_update_same)
    qed
  qed
qed

lemma update_books_flag_mono:
  "update_books ds bu ps srt = Inr (ps', srt') \<Longrightarrow> srt \<Longrightarrow> srt'"
  by (induction bu arbitrary: ps srt) (auto split: sum.splits prod.splits)

lemma update_books_nonempty:
  "update_books ds bu ps srt = Inr (ps', srt') \<Longrightarrow> [] \<notin> set ps \<Longrightarrow> [] \<notin> set ps'"
proof (induction bu arbitrary: ps srt)
  case Nil
  then show ?case by simp
next
  case (Cons b bu)
  from Cons.prems(1) obtain ps1 f where u: "update_book ds b ps = Inr (ps1, f)"
    and r: "update_books ds bu ps1 (srt \<or> f) = Inr (ps', srt')"
    by (auto split: sum.splits prod.splits)
  from update_book_nonempty [OF u Cons.prems(2)] Cons.IH [OF r] show ?case by blast
qed

lemma update_books_distinct:
  "update_books ds bu ps srt = Inr (ps', srt') \<Longrightarrow> [] \<notin> set ps \<Longrightarrow>
     distinct (identities ps) \<Longrightarrow> distinct (identities ps')"
proof (induction bu arbitrary: ps srt)
  case Nil
  then show ?case by simp
next
  case (Cons b bu)
  from Cons.prems(1) obtain ps1 f where u: "update_book ds b ps = Inr (ps1, f)"
    and r: "update_books ds bu ps1 (srt \<or> f) = Inr (ps', srt')"
    by (auto split: sum.splits prod.splits)
  from update_book_nonempty [OF u Cons.prems(2)] update_book_distinct [OF u Cons.prems(2,3)]
    Cons.IH [OF r] show ?case by blast
qed

lemma update_books_subseq:
  "update_books ds bu ps srt = Inr (ps', False) \<Longrightarrow> [] \<notin> set ps \<Longrightarrow>
     subseq (identities ps') (identities ps)"
proof (induction bu arbitrary: ps srt)
  case Nil
  then show ?case by simp
next
  case (Cons b bu)
  from Cons.prems(1) obtain ps1 f where u: "update_book ds b ps = Inr (ps1, f)"
    and r: "update_books ds bu ps1 (srt \<or> f) = Inr (ps', False)"
    by (auto split: sum.splits prod.splits)
  from update_books_flag_mono [OF r] have "\<not> f" by auto
  with u have u': "update_book ds b ps = Inr (ps1, False)" by simp
  from update_book_nonempty [OF u Cons.prems(2)] Cons.IH [OF r]
  have "subseq (identities ps') (identities ps1)" by blast
  then show ?case using update_book_subseq [OF u' Cons.prems(2)]
    by (rule subseq_order.order_trans)
qed

lemma update_books_append:
  "update_books ds (xs @ ys) ps srt =
     (case update_books ds xs ps srt of
        Inl e \<Rightarrow> Inl e
      | Inr (ps1, srt1) \<Rightarrow> update_books ds ys ps1 srt1)"
  by (induction xs arbitrary: ps srt) (auto split: sum.splits prod.splits)

lemma sorted_by_identity_py_sort:
  "[] \<notin> set ps \<Longrightarrow> sorted_by_identity r (py_sort r ps)"
  by (simp add: sorted_by_identity_def py_sort_def identities_def rev_map [symmetric]
        sorted_wrt_rev sorted_map_hd)

lemma sorted_by_identity_subseq:
  "subseq (identities ps') (identities ps) \<Longrightarrow> sorted_by_identity r ps \<Longrightarrow>
     sorted_by_identity r ps'"
  by (auto simp: sorted_by_identity_def intro: subseq_sorted_wrt)

lemma ladder_nonempty: "ladder a \<Longrightarrow> [] \<notin> set (prices a)"
  using ladder_synced render_rows_nonempty by blast

lemma available_update_Inr:
  assumes "available_update a bu = Inr a'"
  shows "\<exists>ps srt. update_books (deletion_select a) bu (prices a) False = Inr (ps, srt) \<and>
     prices a' = (if srt then py_sort (reverse a) ps else ps) \<and>
     deletion_select a' = deletion_select a \<and> reverse a' = reverse a \<and>
     render_rows (deletion_select a) (prices a') = Inr (serialise a')"
proof -
  from assms obtain ps srt where u: "update_books (deletion_select a) bu (prices a) False = Inr (ps, srt)"
    and s: "available_sort srt (a\<lparr>prices := ps\<rparr>) = Inr a'"
    by (auto simp: available_update_def split: sum.splits prod.splits)
  from available_sort_Inr [OF s] u show ?thesis by auto
qed

lemma set_py_sort: "set (py_sort r ps) = set ps"
  by (simp add: py_sort_def)

lemma distinct_identities_py_sort:
  "distinct (identities (py_sort r ps)) = distinct (identities ps)"
  by (simp add: identities_def distinct_map py_sort_def)

lemma available_clear_eq: "available_clear a = Inr (a\<lparr>prices := [], serialise := []\<rparr>)"
  by (simp add: available_clear_def available_sort_def py_sort_def)

lemma ladder_sorted: "ladder a \<Longrightarrow> sorted_by_identity (reverse a) (prices a)"
proof (induction rule: ladder.induct)
  case (ladder_init ps ds r a)
  then have s: "available_sort True \<lparr>prices = (case ps of None \<Rightarrow> [] | Some l \<Rightarrow> l),
        deletion_select = ds, reverse = r, serialise = []\<rparr> = Inr a"
    by (simp add: available_init_def)
  from available_sort_Inr [OF s] have
    p: "prices a = py_sort r (case ps of None \<Rightarrow> [] | Some l \<Rightarrow> l)" and r: "reverse a = r"
    and "render_rows (deletion_select a) (prices a) = Inr (serialise a)" by auto
  then have "[] \<notin> set (prices a)" using render_rows_nonempty by blast
  then have "[] \<notin> set (case ps of None \<Rightarrow> [] | Some l \<Rightarrow> l)" by (simp add: p set_py_sort)
  then show ?case unfolding p r by (rule sorted_by_identity_py_sort)
next
  case (ladder_update a bu a')
  from available_update_Inr [OF ladder_update.hyps(2)] obtain ps srt where
    u: "update_books (deletion_select a) bu (prices a) False = Inr (ps, srt)" and
    p: "prices a' = (if srt then py_sort (reverse a) ps else ps)" and r: "reverse a' = reverse a"
    by blast
  have ne: "[] \<notin> set (prices a)" using ladder_update.hyps(1) by (rule ladder_nonempty)
  have ne': "[] \<notin> set ps" using u ne by (rule update_books_nonempty)
  show ?case
  proof (cases srt)
    case True
    then show ?thesis using p r ne' by (simp add: sorted_by_identity_py_sort)
  next
    case False
    with u have "subseq (identities ps) (identities (prices a))"
      using ne by (auto intro: update_books_subseq)
    then show ?thesis using False p r ladder_update.IH
      by (auto intro: sorted_by_identity_subseq)
  qed
next
  case (ladder_clear a a')
  then show ?case
    by (auto simp: available_clear_eq sorted_by_identity_def identities_def)
qed

lemma available_update_distinct:
  assumes "available_update a bu = Inr a'" "[] \<notin> set (prices a)" "distinct (identities (prices a))"
  shows "distinct (identities (prices a'))"
proof -
  from available_update_Inr [OF assms(1)] obtain ps srt where
    u: "update_books (deletion_select a) bu (prices a) False = Inr (ps, srt)" and
    p: "prices a' = (if srt then py_sort (reverse a) ps else ps)"
    by blast
  from update_books_distinct [OF u assms(2,3)] p show ?thesis
    by (simp add: distinct_identities_py_sort)
qed



lemma render_rows_total:
  "(\<forall>v\<in>set ps. \<exists>p s. py_get v (ds - 1) = Inr p \<and> py_get v ds = Inr s) \<Longrightarrow>
     \<exists>out. render_rows ds ps = Inr out"
  by (induction ps) auto

lemma available_update_nil:
  "render_rows (deletion_select a) (prices a) = Inr (serialise a) \<Longrightarrow> available_update a [] = Inr a"
  by (simp add: available_update_def available_sort_def)

lemma sorted_py_sort: "if r then sorted (rev (py_sort r ps)) else sorted (py_sort r ps)"
  by (simp add: py_sort_def)

lemma available_init_Inr:
  assumes "available_init pso ds r = Inr a"
  shows "prices a = py_sort r (case pso of None \<Rightarrow> [] | Some l \<Rightarrow> l) \<and>
         deletion_select a = ds \<and> reverse a = r \<and>
         render_rows ds (prices a) = Inr (serialise a)"
  using available_sort_Inr [OF assms [unfolded available_init_def]] by auto

lemma mset_py_sort: "mset (py_sort r ps) = mset ps"
  by (simp add: py_sort_def)

text \<open>
  Claim C10. The constructor called with \<^verbatim>\<open>None\<close> yields the empty ladder. Whenever the
  constructor returns, its rows are exactly the initial rows (the same rows, each as often)
  put in ascending order, or in descending order when \<^verbatim>\<open>reverse\<close> is set; they are
  therefore sorted as whole rows and by identity, whether or not the caller's rows were
  sorted. The cached rendering has, row by row, the price and size fields of these rows.
  The constructor returns for every initial list whose rows have the two fields that the
  rendering reads.
\<close>

theorem available_init_establishes_order:
  "available_init None ds r = Inr \<lparr>prices = [], deletion_select = ds, reverse = r, serialise = []\<rparr> \<and>
   (available_init pso ds r = Inr a \<longrightarrow>
      prices a = (if r then rev (sort (case pso of None \<Rightarrow> [] | Some l \<Rightarrow> l))
                  else sort (case pso of None \<Rightarrow> [] | Some l \<Rightarrow> l)) \<and>
      mset (prices a) = mset (case pso of None \<Rightarrow> [] | Some l \<Rightarrow> l) \<and>
      (if r then sorted (rev (prices a)) else sorted (prices a)) \<and>
      sorted_by_identity r (prices a) \<and>
      deletion_select a = ds \<and> reverse a = r \<and>
      render_rows ds (prices a) = Inr (serialise a) \<and>
      list_all2 (\<lambda>v p. py_get v (ds - 1) = Inr (price p) \<and> py_get v ds = Inr (size_val p))
        (prices a) (serialise a)) \<and>
   ((\<forall>v\<in>set ps. \<exists>p s. py_get v (ds - 1) = Inr p \<and> py_get v ds = Inr s) \<longrightarrow>
      (\<exists>a'. available_init (Some ps) ds r = Inr a'))"
proof (intro conjI impI)
  show "available_init None ds r = Inr \<lparr>prices = [], deletion_select = ds, reverse = r, serialise = []\<rparr>"
    by (simp add: available_init_def available_sort_def py_sort_def)
next
  assume i: "available_init pso ds r = Inr a"
  note f = available_init_Inr [OF i]
  from f have p: "prices a = py_sort r (case pso of None \<Rightarrow> [] | Some l \<Rightarrow> l)" by blast
  show "prices a = (if r then rev (sort (case pso of None \<Rightarrow> [] | Some l \<Rightarrow> l))
                  else sort (case pso of None \<Rightarrow> [] | Some l \<Rightarrow> l))"
    unfolding p py_sort_def ..
  show "mset (prices a) = mset (case pso of None \<Rightarrow> [] | Some l \<Rightarrow> l)"
    unfolding p by (rule mset_py_sort)
  show "if r then sorted (rev (prices a)) else sorted (prices a)"
    unfolding p by (simp add: py_sort_def)
  from ladder_sorted [OF ladder_init [OF i]] f
  show "sorted_by_identity r (prices a)" by simp
  from f show "deletion_select a = ds" by blast
  from f show "reverse a = r" by blast
  from f show rr: "render_rows ds (prices a) = Inr (serialise a)" by blast
  show "list_all2 (\<lambda>v p. py_get v (ds - 1) = Inr (price p) \<and> py_get v ds = Inr (size_val p))
        (prices a) (serialise a)"
    using rr by (simp only: render_rows_iff)
next
  assume "\<forall>v\<in>set ps. \<exists>p s. py_get v (ds - 1) = Inr p \<and> py_get v ds = Inr s"
  then have "\<forall>v\<in>set (py_sort r ps). \<exists>p s. py_get v (ds - 1) = Inr p \<and> py_get v ds = Inr s"
    by (simp add: set_py_sort)
  then obtain out where "render_rows ds (py_sort r ps) = Inr out"
    using render_rows_total by blast
  then show "\<exists>a'. available_init (Some ps) ds r = Inr a'"
    by (simp add: available_init_def available_sort_def)
qed

theorem available_init_establishes_order_witness:
  "available_init (Some [[3, 1], [1, 2], [2, 5]]) 1 False =
     Inr \<lparr>prices = [[1, 2], [2, 5], [3, 1]], deletion_select = 1, reverse = False,
          serialise = [\<lparr>price = 1, size_val = 2\<rparr>, \<lparr>price = 2, size_val = 5\<rparr>,
                       \<lparr>price = 3, size_val = 1\<rparr>]\<rparr> \<and>
   available_init (Some [[1, 2], [3, 1], [2, 5]]) 1 True =
     Inr \<lparr>prices = [[3, 1], [2, 5], [1, 2]], deletion_select = 1, reverse = True,
          serialise = [\<lparr>price = 3, size_val = 1\<rparr>, \<lparr>price = 2, size_val = 5\<rparr>,
                       \<lparr>price = 1, size_val = 2\<rparr>]\<rparr> \<and>
   py_get [3, 1::num] (1 - 1) = Inr 3 \<and> py_get [3, 1::num] 1 = Inr 1 \<and>
   py_get [1, 2::num] (1 - 1) = Inr 1 \<and> py_get [1, 2::num] 1 = Inr 2 \<and>
   py_get [2, 5::num] (1 - 1) = Inr 2 \<and> py_get [2, 5::num] 1 = Inr 5 \<and>
   mset [[1, 2], [2, 5], [3, 1::num]] = mset [[3, 1], [1, 2], [2, 5]] \<and>
   sorted_by_identity False [[1, 2], [2, 5], [3, 1]] \<and>
   sorted_by_identity True [[3, 1], [2, 5], [1, 2]]"
proof -
  let ?a = "\<lparr>prices = [[1, 2], [2, 5], [3, 1]], deletion_select = 1, reverse = False,
          serialise = [\<lparr>price = 1, size_val = 2\<rparr>, \<lparr>price = 2, size_val = 5\<rparr>,
                       \<lparr>price = 3, size_val = 1\<rparr>]\<rparr>"
  let ?b = "\<lparr>prices = [[3, 1], [2, 5], [1, 2]], deletion_select = 1, reverse = True,
          serialise = [\<lparr>price = 3, size_val = 1\<rparr>, \<lparr>price = 2, size_val = 5\<rparr>,
                       \<lparr>price = 1, size_val = 2\<rparr>]\<rparr>"
  have ia: "available_init (Some [[3, 1], [1, 2], [2, 5]]) 1 False = Inr ?a"
    by (simp add: available_init_def available_sort_def py_sort_def py_get_def)
  have ib: "available_init (Some [[1, 2], [3, 1], [2, 5]]) 1 True = Inr ?b"
    by (simp add: available_init_def available_sort_def py_sort_def py_get_def)
  have g: "py_get [3, 1::num] (1 - 1) = Inr 3 \<and> py_get [3, 1::num] 1 = Inr 1 \<and>
   py_get [1, 2::num] (1 - 1) = Inr 1 \<and> py_get [1, 2::num] 1 = Inr 2 \<and>
   py_get [2, 5::num] (1 - 1) = Inr 2 \<and> py_get [2, 5::num] 1 = Inr 5"
    by (simp add: py_get_def)
  from available_init_establishes_order [of 1 False "Some [[3, 1], [1, 2], [2, 5]]" ?a
      "[[3, 1], [1, 2], [2, 5]]", THEN conjunct2, THEN conjunct1, rule_format, OF ia]
  have ma: "mset (prices ?a) = mset [[3, 1], [1, 2], [2, 5::num]]"
    and sa: "sorted_by_identity False (prices ?a)" by simp_all
  from available_init_establishes_order [of 1 True "Some [[1, 2], [3, 1], [2, 5]]" ?b
      "[[1, 2], [3, 1], [2, 5]]", THEN conjunct2, THEN conjunct1, rule_format, OF ib]
  have sb: "sorted_by_identity True (prices ?b)" by simp
  have m: "mset [[1, 2], [2, 5], [3, 1::num]] = mset [[3, 1], [1, 2], [2, 5]]"
    using ma by simp
  have s1: "sorted_by_identity False [[1, 2], [2, 5], [3, 1]]" using sa by simp
  have s2: "sorted_by_identity True [[3, 1], [2, 5], [1, 2]]" using sb by simp
  show ?thesis using ia ib g m s1 s2 by (intro conjI) blast+
qed

text \<open>
  Claim C5, as stated, fails: the constructor keeps initial rows that share an identity, and
  a later update batch does not merge them.
\<close>

theorem ladder_duplicate_identities_counterexample:
  "available_init (Some [[1, 2], [1, 3]]) 1 False =
     Inr \<lparr>prices = [[1, 2], [1, 3]], deletion_select = 1, reverse = False,
          serialise = [\<lparr>price = 1, size_val = 2\<rparr>, \<lparr>price = 1, size_val = 3\<rparr>]\<rparr> \<and>
   available_update
     \<lparr>prices = [[1, 2], [1, 3]], deletion_select = 1, reverse = False,
      serialise = [\<lparr>price = 1, size_val = 2\<rparr>, \<lparr>price = 1, size_val = 3\<rparr>]\<rparr> [[5, 1]] =
     Inr \<lparr>prices = [[1, 2], [1, 3], [5, 1]], deletion_select = 1, reverse = False,
          serialise = [\<lparr>price = 1, size_val = 2\<rparr>, \<lparr>price = 1, size_val = 3\<rparr>,
                       \<lparr>price = 5, size_val = 1\<rparr>]\<rparr> \<and>
   \<not> distinct (identities [[1, 2], [1, 3], [5, 1]])"
  by (simp add: available_init_def available_update_def available_sort_def py_sort_def
        py_get_def identities_def)

text \<open>
  Claim C5, amended. Every ladder (after construction, after every completed update batch
  and after \<^verbatim>\<open>clear\<close>) has its rows sorted by identity in the configured direction, and
  its cached rendering is the rendering of these rows in this order; \<^verbatim>\<open>clear\<close> empties
  both. A completed update batch on rows with pairwise distinct identities leaves rows with
  pairwise distinct identities.
\<close>

theorem ladder_sorted_distinct_preserved:
  "ladder a \<longrightarrow>
     sorted_by_identity (reverse a) (prices a) \<and>
     render_rows (deletion_select a) (prices a) = Inr (serialise a) \<and>
     available_clear a = Inr (a\<lparr>prices := [], serialise := []\<rparr>) \<and>
     (distinct (identities (prices a)) \<and> available_update a bu = Inr a' \<longrightarrow>
        distinct (identities (prices a')))"
  using ladder_sorted ladder_synced available_clear_eq available_update_distinct ladder_nonempty
  by blast

theorem ladder_sorted_distinct_preserved_witness:
  "ladder \<lparr>prices = [[3, 1], [1, 2]], deletion_select = 1, reverse = True,
          serialise = [\<lparr>price = 3, size_val = 1\<rparr>, \<lparr>price = 1, size_val = 2\<rparr>]\<rparr> \<and>
   distinct (identities [[3, 1], [1, 2]]) \<and>
   available_update \<lparr>prices = [[3, 1], [1, 2]], deletion_select = 1, reverse = True,
          serialise = [\<lparr>price = 3, size_val = 1\<rparr>, \<lparr>price = 1, size_val = 2\<rparr>]\<rparr>
       [[2, 7], [3, 0]] =
     Inr \<lparr>prices = [[2, 7], [1, 2]], deletion_select = 1, reverse = True,
          serialise = [\<lparr>price = 2, size_val = 7\<rparr>, \<lparr>price = 1, size_val = 2\<rparr>]\<rparr> \<and>
   sorted_by_identity True [[2, 7], [1, 2]] \<and> distinct (identities [[2, 7], [1, 2]])"
proof -
  let ?a = "\<lparr>prices = [[3, 1], [1, 2]], deletion_select = 1, reverse = True,
          serialise = [\<lparr>price = 3, size_val = 1\<rparr>, \<lparr>price = 1, size_val = 2\<rparr>]\<rparr>"
  let ?a' = "\<lparr>prices = [[2, 7], [1, 2]], deletion_select = 1, reverse = True,
          serialise = [\<lparr>price = 2, size_val = 7\<rparr>, \<lparr>price = 1, size_val = 2\<rparr>]\<rparr>"
  have i: "available_init (Some [[3, 1], [1, 2]]) 1 True = Inr ?a"
    by (simp add: available_init_def available_sort_def py_sort_def py_get_def)
  have l: "ladder ?a" using i by (rule ladder_init)
  have u: "available_update ?a [[2, 7], [3, 0]] = Inr ?a'"
    by (simp add: available_update_def available_sort_def py_sort_def py_get_def)
  have l': "ladder ?a'" using l u by (rule ladder_update)
  have d: "distinct (identities (prices ?a))" by (simp add: identities_def)
  from ladder_sorted_distinct_preserved [of ?a "[[2, 7], [3, 0]]" ?a'] l u d
  have "distinct (identities (prices ?a'))" by blast
  moreover from ladder_sorted_distinct_preserved [of ?a' "[]" ?a'] l'
  have "sorted_by_identity (reverse ?a') (prices ?a')" by blast
  ultimately show ?thesis using l u d by simp
qed

text \<open>
  Claim C1. A row of a batch whose size field is 0 and whose identity matches none of the rows
  present when it is processed changes neither the rows nor the sort flag: the batch has
  exactly the outcome of the batch without that row. Applied alone it leaves the ladder,
  rows and cached rendering, as it was. The witness is the spec's scenario B: the row
  \<open>[2.5, 0]\<close> applied to the empty ladder.
\<close>

theorem zero_size_unmatched_row_dropped:
  assumes "ladder a"
    and "py_get book (deletion_select a) = Inr 0"
  shows "(update_books (deletion_select a) pre (prices a) False = Inr (ps, srt) \<and>
          hd book \<notin> hd ` set ps \<longrightarrow>
            update_book (deletion_select a) book ps = Inr (ps, False) \<and>
            available_update a (pre @ book # post) = available_update a (pre @ post)) \<and>
         (hd book \<notin> hd ` set (prices a) \<longrightarrow> available_update a [book] = Inr a)"
proof (intro conjI impI)
  assume h: "update_books (deletion_select a) pre (prices a) False = Inr (ps, srt) \<and>
          hd book \<notin> hd ` set ps"
  have "[] \<notin> set ps"
    using h ladder_nonempty [OF assms(1)] update_books_nonempty by blast
  then show s: "update_book (deletion_select a) book ps = Inr (ps, False)"
    using update_book_nomatch [of ps book "deletion_select a" 0] h assms(2) by simp
  have "update_books (deletion_select a) (pre @ book # post) (prices a) False =
        update_books (deletion_select a) (pre @ post) (prices a) False"
    using h s by (simp add: update_books_append)
  then show "available_update a (pre @ book # post) = available_update a (pre @ post)"
    by (simp add: available_update_def)
next
  assume h: "hd book \<notin> hd ` set (prices a)"
  have "update_book (deletion_select a) book (prices a) = Inr (prices a, False)"
    using update_book_nomatch [of "prices a" book "deletion_select a" 0] h assms(2)
      ladder_nonempty [OF assms(1)] by simp
  then have "available_update a [book] = available_update a []"
    by (simp add: available_update_def)
  then show "available_update a [book] = Inr a"
    using available_update_nil [OF ladder_synced [OF assms(1)]] by simp
qed

theorem zero_size_unmatched_row_dropped_witness:
  "ladder \<lparr>prices = [], deletion_select = 1, reverse = False, serialise = []\<rparr> \<and>
   py_get [5 / 2, 0 :: num] 1 = Inr 0 \<and>
   update_books 1 [] [] False = Inr ([], False) \<and>
   hd [5 / 2, 0 :: num] \<notin> hd ` set [] \<and>
   available_update \<lparr>prices = [], deletion_select = 1, reverse = False, serialise = []\<rparr>
     [[5 / 2, 0]] =
     Inr \<lparr>prices = [], deletion_select = 1, reverse = False, serialise = []\<rparr>"
proof -
  let ?a = "\<lparr>prices = [], deletion_select = 1, reverse = False, serialise = []\<rparr>"
  have "available_init None 1 False = Inr ?a"
    by (simp add: available_init_def available_sort_def py_sort_def)
  then have l: "ladder ?a" by (rule ladder_init)
  have g: "py_get [5 / 2, 0 :: num] (deletion_select ?a) = Inr 0" by (simp add: py_get_def)
  from zero_size_unmatched_row_dropped [OF l g, of "[]" "[]" False "[]", THEN conjunct2]
  have "available_update ?a [[5 / 2, 0]] = Inr ?a" by simp
  then show ?thesis using l g by simp
qed





lemma hd_fold_replace:
  "hd (fold (\<lambda>b r. if hd r = hd b then b else r) bu r) = hd r"
  by (induction bu arbitrary: r) auto

lemma update_book_replace_all:
  assumes "[] \<notin> set ps" "distinct (identities ps)" "hd book \<in> hd ` set ps"
    "py_get book ds = Inr s" "s \<noteq> 0"
  shows "update_book ds book ps = Inr (map (\<lambda>r. if hd r = hd book then book else r) ps, False)"
  using assms(1,2,3)
proof (induction ps)
  case Nil
  then show ?case by simp
next
  case (Cons t ps)
  have bne: "book \<noteq> []" using assms(4) by (rule py_get_Inr_nonempty)
  have tne: "t \<noteq> []" using Cons.prems(1) by auto
  show ?case
  proof (cases "hd t = hd book")
    case True
    then have "hd book \<notin> hd ` set ps" using Cons.prems(2) by (auto simp: identities_def)
    then have "\<And>x. x \<in> set ps \<Longrightarrow> hd x \<noteq> hd book" by (metis imageI)
    then have "map (\<lambda>r. if hd r = hd book then book else r) ps = ps"
      by (intro map_idI) simp
    then show ?thesis using True bne tne assms(4,5)
      by (cases t; cases book) (auto simp: py_get_0)
  next
    case False
    then have "update_book ds book ps =
        Inr (map (\<lambda>r. if hd r = hd book then book else r) ps, False)"
      using Cons.prems by (intro Cons.IH) (auto simp: identities_def)
    then show ?thesis using False bne tne
      by (cases t; cases book) (auto simp: py_get_0)
  qed
qed

lemma update_book_nonzero_cases:
  assumes "update_book ds book ps = Inr (ps', f)" "[] \<notin> set ps" "distinct (identities ps)"
    "py_get book ds \<noteq> Inr 0"
  shows "book \<noteq> [] \<and>
     (if hd book \<in> hd ` set ps
      then ps' = map (\<lambda>r. if hd r = hd book then book else r) ps
      else ps' = ps @ [book])"
proof -
  from update_book_Inr_cases [OF assms(1,2)] obtain s where
    bne: "book \<noteq> []" and s: "py_get book ds = Inr s" by blast
  with assms(4) have nz: "s \<noteq> 0" by auto
  show ?thesis
  proof (cases "hd book \<in> hd ` set ps")
    case True
    from update_book_replace_all [OF assms(2,3) True s nz] assms(1) bne True
    show ?thesis by simp
  next
    case False
    from update_book_nomatch [OF assms(2) False s] assms(1) nz bne False
    show ?thesis by simp
  qed
qed

lemma update_books_fields:
  "update_books ds bu ps srt = Inr (ps', srt') \<Longrightarrow> [] \<notin> set ps \<Longrightarrow>
     \<forall>b\<in>set bu. \<exists>s. py_get b ds = Inr s"
proof (induction bu arbitrary: ps srt)
  case Nil
  then show ?case by simp
next
  case (Cons b bu)
  from Cons.prems(1) obtain ps1 f where u: "update_book ds b ps = Inr (ps1, f)"
    and r: "update_books ds bu ps1 (srt \<or> f) = Inr (ps', srt')"
    by (auto split: sum.splits prod.splits)
  from update_book_Inr_cases [OF u Cons.prems(2)] have "\<exists>s. py_get b ds = Inr s" by blast
  moreover from Cons.IH [OF r update_book_nonempty [OF u Cons.prems(2)]]
  have "\<forall>b\<in>set bu. \<exists>s. py_get b ds = Inr s" .
  ultimately show ?case by simp
qed

lemma update_books_tracks:
  "update_books ds bu ps srt = Inr (ps', srt') \<Longrightarrow> [] \<notin> set ps \<Longrightarrow>
   distinct (identities ps) \<Longrightarrow> \<forall>b\<in>set bu. py_get b ds \<noteq> Inr 0 \<Longrightarrow> r \<in> set ps \<Longrightarrow>
     fold (\<lambda>b r. if hd r = hd b then b else r) bu r \<in> set ps'"
proof (induction bu arbitrary: ps srt r)
  case Nil
  then show ?case by simp
next
  case (Cons b bu)
  from Cons.prems(1) obtain ps1 f where u: "update_book ds b ps = Inr (ps1, f)"
    and rest: "update_books ds bu ps1 (srt \<or> f) = Inr (ps', srt')"
    by (auto split: sum.splits prod.splits)
  have nz: "py_get b ds \<noteq> Inr 0" using Cons.prems(4) by simp
  from update_book_nonzero_cases [OF u Cons.prems(2,3) nz] Cons.prems(5)
  have "(if hd r = hd b then b else r) \<in> set ps1"
    by (auto split: if_splits)
  moreover have "[] \<notin> set ps1" using u Cons.prems(2) by (rule update_book_nonempty)
  moreover have "distinct (identities ps1)" using u Cons.prems(2,3) by (rule update_book_distinct)
  ultimately have "fold (\<lambda>b r. if hd r = hd b then b else r) bu (if hd r = hd b then b else r) \<in> set ps'"
    using Cons.IH [OF rest] Cons.prems(4) by simp
  then show ?case by simp
qed

lemma update_book_nonzero_mem:
  assumes "update_book ds book ps = Inr (ps', f)" "[] \<notin> set ps" "distinct (identities ps)"
    "py_get book ds \<noteq> Inr 0"
  shows "book \<in> set ps'"
  using update_book_nonzero_cases [OF assms] by (auto split: if_splits)

lemma same_identity_same_row:
  "distinct (identities ps) \<Longrightarrow> x \<in> set ps \<Longrightarrow> y \<in> set ps \<Longrightarrow> hd x = hd y \<Longrightarrow> x = y"
  by (auto simp: identities_def distinct_map dest: inj_onD)

lemma update_books_fixed:
  "update_books ds bu ps srt = Inr (ps', srt') \<Longrightarrow> [] \<notin> set ps \<Longrightarrow>
   distinct (identities ps) \<Longrightarrow> \<forall>b\<in>set bu. py_get b ds \<noteq> Inr 0 \<Longrightarrow> r \<in> set ps' \<Longrightarrow>
     fold (\<lambda>b r. if hd r = hd b then b else r) bu r = r"
proof (induction bu arbitrary: ps srt)
  case Nil
  then show ?case by simp
next
  case (Cons b bu)
  from Cons.prems(1) obtain ps1 f where u: "update_book ds b ps = Inr (ps1, f)"
    and rest: "update_books ds bu ps1 (srt \<or> f) = Inr (ps', srt')"
    by (auto split: sum.splits prod.splits)
  have nz: "py_get b ds \<noteq> Inr 0" and nzs: "\<forall>b\<in>set bu. py_get b ds \<noteq> Inr 0"
    using Cons.prems(4) by simp_all
  have ne1: "[] \<notin> set ps1" using u Cons.prems(2) by (rule update_book_nonempty)
  have d1: "distinct (identities ps1)" using u Cons.prems(2,3) by (rule update_book_distinct)
  have ih: "fold (\<lambda>b r. if hd r = hd b then b else r) bu r = r"
    using Cons.IH [OF rest ne1 d1 nzs Cons.prems(5)] .
  show ?case
  proof (cases "hd r = hd b")
    case False
    then show ?thesis using ih by simp
  next
    case True
    have "b \<in> set ps1" using u Cons.prems(2,3) nz by (rule update_book_nonzero_mem)
    then have m: "fold (\<lambda>b r. if hd r = hd b then b else r) bu b \<in> set ps'"
      using update_books_tracks [OF rest ne1 d1 nzs] by blast
    have "distinct (identities ps')" using rest ne1 d1 by (rule update_books_distinct)
    then have "fold (\<lambda>b r. if hd r = hd b then b else r) bu b = r"
      using m Cons.prems(5) True by (intro same_identity_same_row) (auto simp: hd_fold_replace)
    then show ?thesis using True by simp
  qed
qed

lemma update_books_identities_present:
  "update_books ds bu ps srt = Inr (ps', srt') \<Longrightarrow> [] \<notin> set ps \<Longrightarrow>
   distinct (identities ps) \<Longrightarrow> \<forall>b\<in>set bu. py_get b ds \<noteq> Inr 0 \<Longrightarrow>
     \<forall>b\<in>set bu. hd b \<in> hd ` set ps'"
proof (induction bu arbitrary: ps srt)
  case Nil
  then show ?case by simp
next
  case (Cons b bu)
  from Cons.prems(1) obtain ps1 f where u: "update_book ds b ps = Inr (ps1, f)"
    and rest: "update_books ds bu ps1 (srt \<or> f) = Inr (ps', srt')"
    by (auto split: sum.splits prod.splits)
  have nz: "py_get b ds \<noteq> Inr 0" and nzs: "\<forall>b\<in>set bu. py_get b ds \<noteq> Inr 0"
    using Cons.prems(4) by simp_all
  have ne1: "[] \<notin> set ps1" using u Cons.prems(2) by (rule update_book_nonempty)
  have d1: "distinct (identities ps1)" using u Cons.prems(2,3) by (rule update_book_distinct)
  have "b \<in> set ps1" using u Cons.prems(2,3) nz by (rule update_book_nonzero_mem)
  then have "fold (\<lambda>b r. if hd r = hd b then b else r) bu b \<in> set ps'"
    using update_books_tracks [OF rest ne1 d1 nzs] by blast
  then have "hd (fold (\<lambda>b r. if hd r = hd b then b else r) bu b) \<in> hd ` set ps'"
    by (rule imageI)
  then have "hd b \<in> hd ` set ps'" by (simp add: hd_fold_replace)
  then show ?case using Cons.IH [OF rest ne1 d1 nzs] by simp
qed

lemma update_books_all_present:
  "[] \<notin> set ps \<Longrightarrow> distinct (identities ps) \<Longrightarrow>
   \<forall>b\<in>set bu. hd b \<in> hd ` set ps \<and> (\<exists>s. py_get b ds = Inr s \<and> s \<noteq> 0) \<Longrightarrow>
     update_books ds bu ps srt =
       Inr (map (fold (\<lambda>b r. if hd r = hd b then b else r) bu) ps, srt)"
proof (induction bu arbitrary: ps)
  case Nil
  then show ?case by simp
next
  case (Cons b bu)
  let ?g = "\<lambda>r. if hd r = hd b then b else r"
  from Cons.prems(3) obtain s where s: "py_get b ds = Inr s" "s \<noteq> 0" and hb: "hd b \<in> hd ` set ps"
    by auto
  have bne: "b \<noteq> []" using s(1) by (rule py_get_Inr_nonempty)
  have u: "update_book ds b ps = Inr (map ?g ps, False)"
    using Cons.prems(1,2) hb s by (rule update_book_replace_all)
  have ne: "[] \<notin> set (map ?g ps)" using Cons.prems(1) bne by auto
  have ids: "identities (map ?g ps) = identities ps" by (simp add: identities_def)
  have img: "hd ` set (map ?g ps) = hd ` set ps"
    using ids by (metis identities_def set_map)
  have d: "distinct (identities (map ?g ps))" using Cons.prems(2) by (simp only: ids)
  have "\<forall>b\<in>set bu. hd b \<in> hd ` set ps \<and> (\<exists>s. py_get b ds = Inr s \<and> s \<noteq> 0)"
    using Cons.prems(3) by simp
  then have p3: "\<forall>b\<in>set bu. hd b \<in> hd ` set (map ?g ps) \<and> (\<exists>s. py_get b ds = Inr s \<and> s \<noteq> 0)"
    by (simp only: img)
  have "update_books ds bu (map ?g ps) srt =
      Inr (map (fold (\<lambda>b r. if hd r = hd b then b else r) bu) (map ?g ps), srt)"
    using ne d p3 by (rule Cons.IH)
  then show ?case using u by (simp add: comp_def)
qed

text \<open>
  Claim C4, as stated, fails for a ladder whose rows share an identity: the first pass
  overwrites the first of them and re-sorts after its append, which moves the other one to
  the front, and the second pass overwrites that one.
\<close>

theorem nonzero_batch_not_idempotent_counterexample:
  "available_init (Some [[1, 2], [1, 3]]) 1 False =
     Inr \<lparr>prices = [[1, 2], [1, 3]], deletion_select = 1, reverse = False,
          serialise = [\<lparr>price = 1, size_val = 2\<rparr>, \<lparr>price = 1, size_val = 3\<rparr>]\<rparr> \<and>
   py_get [1, 5 :: num] 1 = Inr 5 \<and> py_get [3, 1 :: num] 1 = Inr 1 \<and>
   available_update
     \<lparr>prices = [[1, 2], [1, 3]], deletion_select = 1, reverse = False,
      serialise = [\<lparr>price = 1, size_val = 2\<rparr>, \<lparr>price = 1, size_val = 3\<rparr>]\<rparr>
     [[1, 5], [3, 1]] =
     Inr \<lparr>prices = [[1, 3], [1, 5], [3, 1]], deletion_select = 1, reverse = False,
          serialise = [\<lparr>price = 1, size_val = 3\<rparr>, \<lparr>price = 1, size_val = 5\<rparr>,
                       \<lparr>price = 3, size_val = 1\<rparr>]\<rparr> \<and>
   available_update
     \<lparr>prices = [[1, 3], [1, 5], [3, 1]], deletion_select = 1, reverse = False,
      serialise = [\<lparr>price = 1, size_val = 3\<rparr>, \<lparr>price = 1, size_val = 5\<rparr>,
                   \<lparr>price = 3, size_val = 1\<rparr>]\<rparr>
     [[1, 5], [3, 1]] =
     Inr \<lparr>prices = [[1, 5], [1, 5], [3, 1]], deletion_select = 1, reverse = False,
          serialise = [\<lparr>price = 1, size_val = 5\<rparr>, \<lparr>price = 1, size_val = 5\<rparr>,
                       \<lparr>price = 3, size_val = 1\<rparr>]\<rparr> \<and>
   [\<lparr>price = 1, size_val = 5\<rparr>, \<lparr>price = 1, size_val = 5\<rparr>, \<lparr>price = 3, size_val = 1\<rparr>] \<noteq>
   [\<lparr>price = 1, size_val = 3\<rparr>, \<lparr>price = 1, size_val = 5\<rparr>, \<lparr>price = 3, size_val = 1 :: num\<rparr>]"
  by (simp add: available_init_def available_update_def available_sort_def py_sort_def py_get_def)

text \<open>
  Claim C4, amended. On a ladder in which no two rows share an identity, a completed update
  with a batch whose rows all have a nonzero size field, applied a second time, returns and
  leaves the rows and the cached rendering exactly as the first application left them.
\<close>

theorem nonzero_batch_idempotent:
  assumes "ladder a"
    and "distinct (identities (prices a))"
    and "\<forall>b\<in>set bu. py_get b (deletion_select a) \<noteq> Inr 0"
    and "available_update a bu = Inr a'"
  shows "available_update a' bu = Inr a'"
proof -
  let ?ds = "deletion_select a"
  let ?F = "fold (\<lambda>b r. if hd r = hd b then b else r) bu"
  have ne: "[] \<notin> set (prices a)" using assms(1) by (rule ladder_nonempty)
  from available_update_Inr [OF assms(4)] obtain ps srt where
    u: "update_books ?ds bu (prices a) False = Inr (ps, srt)" and
    p: "prices a' = (if srt then py_sort (reverse a) ps else ps)" and
    ds: "deletion_select a' = ?ds" and
    ren: "render_rows ?ds (prices a') = Inr (serialise a')"
    by blast
  have sp: "set (prices a') = set ps" using p by (simp add: set_py_sort)
  have ne': "[] \<notin> set (prices a')" using ren by (rule render_rows_nonempty)
  have d': "distinct (identities (prices a'))"
    using assms(4) ne assms(2) by (rule available_update_distinct)
  have fixed: "\<forall>r\<in>set (prices a'). ?F r = r"
    using update_books_fixed [OF u ne assms(2,3)] sp by blast
  have present: "\<forall>b\<in>set bu. hd b \<in> hd ` set (prices a')"
    using update_books_identities_present [OF u ne assms(2,3)] sp by simp
  have fields: "\<forall>b\<in>set bu. \<exists>s. py_get b ?ds = Inr s"
    using u ne by (rule update_books_fields)
  have "\<forall>b\<in>set bu. hd b \<in> hd ` set (prices a') \<and> (\<exists>s. py_get b ?ds = Inr s \<and> s \<noteq> 0)"
    using present fields assms(3) by fastforce
  then have "update_books ?ds bu (prices a') False = Inr (map ?F (prices a'), False)"
    using ne' d' by (intro update_books_all_present)
  moreover have "map ?F (prices a') = prices a'" using fixed by (intro map_idI) simp
  ultimately have "update_books (deletion_select a') bu (prices a') False = Inr (prices a', False)"
    using ds by simp
  then show ?thesis using ren ds
    by (simp add: available_update_def available_sort_def)
qed

theorem nonzero_batch_idempotent_witness:
  "ladder \<lparr>prices = [[1, 4], [3, 6]], deletion_select = 1, reverse = False,
          serialise = [\<lparr>price = 1, size_val = 4\<rparr>, \<lparr>price = 3, size_val = 6\<rparr>]\<rparr> \<and>
   distinct (identities [[1, 4], [3, 6]]) \<and>
   py_get [3, 5 :: num] 1 \<noteq> Inr 0 \<and> py_get [2, 7 :: num] 1 \<noteq> Inr 0 \<and>
   py_get [3, 8 :: num] 1 \<noteq> Inr 0 \<and>
   available_update \<lparr>prices = [[1, 4], [3, 6]], deletion_select = 1, reverse = False,
          serialise = [\<lparr>price = 1, size_val = 4\<rparr>, \<lparr>price = 3, size_val = 6\<rparr>]\<rparr>
       [[3, 5], [2, 7], [3, 8]] =
     Inr \<lparr>prices = [[1, 4], [2, 7], [3, 8]], deletion_select = 1, reverse = False,
          serialise = [\<lparr>price = 1, size_val = 4\<rparr>, \<lparr>price = 2, size_val = 7\<rparr>,
                       \<lparr>price = 3, size_val = 8\<rparr>]\<rparr> \<and>
   available_update \<lparr>prices = [[1, 4], [2, 7], [3, 8]], deletion_select = 1, reverse = False,
          serialise = [\<lparr>price = 1, size_val = 4\<rparr>, \<lparr>price = 2, size_val = 7\<rparr>,
                       \<lparr>price = 3, size_val = 8\<rparr>]\<rparr>
       [[3, 5], [2, 7], [3, 8]] =
     Inr \<lparr>prices = [[1, 4], [2, 7], [3, 8]], deletion_select = 1, reverse = False,
          serialise = [\<lparr>price = 1, size_val = 4\<rparr>, \<lparr>price = 2, size_val = 7\<rparr>,
                       \<lparr>price = 3, size_val = 8\<rparr>]\<rparr>"
proof -
  let ?a = "\<lparr>prices = [[1, 4], [3, 6]], deletion_select = 1, reverse = False,
          serialise = [\<lparr>price = 1, size_val = 4\<rparr>, \<lparr>price = 3, size_val = 6\<rparr>]\<rparr>"
  let ?a' = "\<lparr>prices = [[1, 4], [2, 7], [3, 8]], deletion_select = 1, reverse = False,
          serialise = [\<lparr>price = 1, size_val = 4\<rparr>, \<lparr>price = 2, size_val = 7\<rparr>,
                       \<lparr>price = 3, size_val = 8\<rparr>]\<rparr>"
  have "available_init (Some [[3, 6], [1, 4]]) 1 False = Inr ?a"
    by (simp add: available_init_def available_sort_def py_sort_def py_get_def)
  then have l: "ladder ?a" by (rule ladder_init)
  have d: "distinct (identities (prices ?a))" by (simp add: identities_def)
  have nz: "\<forall>b\<in>set [[3, 5], [2, 7], [3, 8 :: num]]. py_get b (deletion_select ?a) \<noteq> Inr 0"
    by (simp add: py_get_def)
  have u: "available_update ?a [[3, 5], [2, 7], [3, 8]] = Inr ?a'"
    by (simp add: available_update_def available_sort_def py_sort_def py_get_def)
  have "available_update ?a' [[3, 5], [2, 7], [3, 8]] = Inr ?a'"
    using l d nz u by (rule nonzero_batch_idempotent)
  then show ?thesis using l d nz u by simp
qed

section \<open>Properties of the runner and market caches\<close>

lemma update_ladder_form:
  assumes "update_ladder v get put r = Inr r'" "put (get r) r = r"
  shows "\<exists>a. r' = put (case v of None \<Rightarrow> get r | Some _ \<Rightarrow> a) r"
  using assms by (cases v) (auto simp: update_ladder_def ebind_def split: sum.splits)

lemma update_traded_form:
  assumes "update_traded r t = Inr r'"
  shows "\<exists>a. r' = r\<lparr>traded := a\<rparr>"
  using assms by (auto simp: update_traded_def ebind_def split: sum.splits if_splits)

lemma ebind_Inr: "(ebind m f = Inr y) = (\<exists>x. m = Inr x \<and> f x = Inr y)"
  by (cases m) (simp_all add: ebind_def)

lemma update_runner_form:
  assumes "update_runner r nd = Inr r'"
  shows "\<exists>t a1 a2 a3 a4 a5 a6 a7 a8.
    r' = r\<lparr>last_price_traded := (case rc_ltp nd of None \<Rightarrow> last_price_traded r | Some v \<Rightarrow> Some v),
           total_matched := (case rc_tv nd of None \<Rightarrow> total_matched r | Some v \<Rightarrow> Some v),
           starting_price_near := (case rc_spn nd of None \<Rightarrow> starting_price_near r | Some v \<Rightarrow> Some v),
           starting_price_far := (case rc_spf nd of None \<Rightarrow> starting_price_far r | Some v \<Rightarrow> Some v),
           traded := (case rc_trd nd of None \<Rightarrow> traded r | Some _ \<Rightarrow> t),
           available_to_back := (case rc_atb nd of None \<Rightarrow> available_to_back r | Some _ \<Rightarrow> a1),
           available_to_lay := (case rc_atl nd of None \<Rightarrow> available_to_lay r | Some _ \<Rightarrow> a2),
           best_available_to_back := (case rc_batb nd of None \<Rightarrow> best_available_to_back r | Some _ \<Rightarrow> a3),
           best_available_to_lay := (case rc_batl nd of None \<Rightarrow> best_available_to_lay r | Some _ \<Rightarrow> a4),
           best_display_available_to_back :=
             (case rc_bdatb nd of None \<Rightarrow> best_display_available_to_back r | Some _ \<Rightarrow> a5),
           best_display_available_to_lay :=
             (case rc_bdatl nd of None \<Rightarrow> best_display_available_to_lay r | Some _ \<Rightarrow> a6),
           starting_price_back := (case rc_spb nd of None \<Rightarrow> starting_price_back r | Some _ \<Rightarrow> a7),
           starting_price_lay := (case rc_spl nd of None \<Rightarrow> starting_price_lay r | Some _ \<Rightarrow> a8)\<rparr>"
proof -
  define r1 where "r1 = (case rc_ltp nd of None \<Rightarrow> r | Some v \<Rightarrow> r\<lparr>last_price_traded := Some v\<rparr>)"
  define r2 where "r2 = (case rc_tv nd of None \<Rightarrow> r1 | Some v \<Rightarrow> r1\<lparr>total_matched := Some v\<rparr>)"
  define r3 where "r3 = (case rc_spn nd of None \<Rightarrow> r2 | Some v \<Rightarrow> r2\<lparr>starting_price_near := Some v\<rparr>)"
  define r4 where "r4 = (case rc_spf nd of None \<Rightarrow> r3 | Some v \<Rightarrow> r3\<lparr>starting_price_far := Some v\<rparr>)"
  have r4: "r4 = r\<lparr>last_price_traded := (case rc_ltp nd of None \<Rightarrow> last_price_traded r | Some v \<Rightarrow> Some v),
           total_matched := (case rc_tv nd of None \<Rightarrow> total_matched r | Some v \<Rightarrow> Some v),
           starting_price_near := (case rc_spn nd of None \<Rightarrow> starting_price_near r | Some v \<Rightarrow> Some v),
           starting_price_far := (case rc_spf nd of None \<Rightarrow> starting_price_far r | Some v \<Rightarrow> Some v)\<rparr>"
    unfolding r4_def r3_def r2_def r1_def
    by (cases "rc_ltp nd"; cases "rc_tv nd"; cases "rc_spn nd"; cases "rc_spf nd") simp_all
  have "ebind (case rc_trd nd of None \<Rightarrow> Inr r4 | Some t \<Rightarrow> update_traded r4 t) (\<lambda>r.
      ebind (update_ladder (rc_atb nd) available_to_back
               (\<lambda>a r. r\<lparr>available_to_back := a\<rparr>) r) (\<lambda>r.
      ebind (update_ladder (rc_atl nd) available_to_lay
               (\<lambda>a r. r\<lparr>available_to_lay := a\<rparr>) r) (\<lambda>r.
      ebind (update_ladder (rc_batb nd) best_available_to_back
               (\<lambda>a r. r\<lparr>best_available_to_back := a\<rparr>) r) (\<lambda>r.
      ebind (update_ladder (rc_batl nd) best_available_to_lay
               (\<lambda>a r. r\<lparr>best_available_to_lay := a\<rparr>) r) (\<lambda>r.
      ebind (update_ladder (rc_bdatb nd) best_display_available_to_back
               (\<lambda>a r. r\<lparr>best_display_available_to_back := a\<rparr>) r) (\<lambda>r.
      ebind (update_ladder (rc_bdatl nd) best_display_available_to_lay
               (\<lambda>a r. r\<lparr>best_display_available_to_lay := a\<rparr>) r) (\<lambda>r.
      ebind (update_ladder (rc_spb nd) starting_price_back
               (\<lambda>a r. r\<lparr>starting_price_back := a\<rparr>) r) (\<lambda>r.
      update_ladder (rc_spl nd) starting_price_lay
               (\<lambda>a r. r\<lparr>starting_price_lay := a\<rparr>) r)))))))) = Inr r'"
    using assms unfolding update_runner_def Let_def r4_def r3_def r2_def r1_def .
  then obtain r5 r6 r7 r8 r9 r10 r11 r12 where
    s5: "(case rc_trd nd of None \<Rightarrow> Inr r4 | Some t \<Rightarrow> update_traded r4 t) = Inr r5" and
    s6: "update_ladder (rc_atb nd) available_to_back (\<lambda>a r. r\<lparr>available_to_back := a\<rparr>) r5 = Inr r6" and
    s7: "update_ladder (rc_atl nd) available_to_lay (\<lambda>a r. r\<lparr>available_to_lay := a\<rparr>) r6 = Inr r7" and
    s8: "update_ladder (rc_batb nd) best_available_to_back (\<lambda>a r. r\<lparr>best_available_to_back := a\<rparr>) r7 = Inr r8" and
    s9: "update_ladder (rc_batl nd) best_available_to_lay (\<lambda>a r. r\<lparr>best_available_to_lay := a\<rparr>) r8 = Inr r9" and
    s10: "update_ladder (rc_bdatb nd) best_display_available_to_back
            (\<lambda>a r. r\<lparr>best_display_available_to_back := a\<rparr>) r9 = Inr r10" and
    s11: "update_ladder (rc_bdatl nd) best_display_available_to_lay
            (\<lambda>a r. r\<lparr>best_display_available_to_lay := a\<rparr>) r10 = Inr r11" and
    s12: "update_ladder (rc_spb nd) starting_price_back (\<lambda>a r. r\<lparr>starting_price_back := a\<rparr>) r11 = Inr r12" and
    s13: "update_ladder (rc_spl nd) starting_price_lay (\<lambda>a r. r\<lparr>starting_price_lay := a\<rparr>) r12 = Inr r'"
    unfolding ebind_Inr by blast
  from s5 obtain t where t: "r5 = r4\<lparr>traded := (case rc_trd nd of None \<Rightarrow> traded r4 | Some _ \<Rightarrow> t)\<rparr>"
    using update_traded_form by (cases "rc_trd nd") fastforce+
  from update_ladder_form [OF s6] obtain a1 where a1: "r6 = r5\<lparr>available_to_back :=
      (case rc_atb nd of None \<Rightarrow> available_to_back r5 | Some _ \<Rightarrow> a1)\<rparr>" by auto
  from update_ladder_form [OF s7] obtain a2 where a2: "r7 = r6\<lparr>available_to_lay :=
      (case rc_atl nd of None \<Rightarrow> available_to_lay r6 | Some _ \<Rightarrow> a2)\<rparr>" by auto
  from update_ladder_form [OF s8] obtain a3 where a3: "r8 = r7\<lparr>best_available_to_back :=
      (case rc_batb nd of None \<Rightarrow> best_available_to_back r7 | Some _ \<Rightarrow> a3)\<rparr>" by auto
  from update_ladder_form [OF s9] obtain a4 where a4: "r9 = r8\<lparr>best_available_to_lay :=
      (case rc_batl nd of None \<Rightarrow> best_available_to_lay r8 | Some _ \<Rightarrow> a4)\<rparr>" by auto
  from update_ladder_form [OF s10] obtain a5 where a5: "r10 = r9\<lparr>best_display_available_to_back :=
      (case rc_bdatb nd of None \<Rightarrow> best_display_available_to_back r9 | Some _ \<Rightarrow> a5)\<rparr>" by auto
  from update_ladder_form [OF s11] obtain a6 where a6: "r11 = r10\<lparr>best_display_available_to_lay :=
      (case rc_bdatl nd of None \<Rightarrow> best_display_available_to_lay r10 | Some _ \<Rightarrow> a6)\<rparr>" by auto
  from update_ladder_form [OF s12] obtain a7 where a7: "r12 = r11\<lparr>starting_price_back :=
      (case rc_spb nd of None \<Rightarrow> starting_price_back r11 | Some _ \<Rightarrow> a7)\<rparr>" by auto
  from update_ladder_form [OF s13] obtain a8 where a8: "r' = r12\<lparr>starting_price_lay :=
      (case rc_spl nd of None \<Rightarrow> starting_price_lay r12 | Some _ \<Rightarrow> a8)\<rparr>" by auto
  have "r' = r\<lparr>last_price_traded := (case rc_ltp nd of None \<Rightarrow> last_price_traded r | Some v \<Rightarrow> Some v),
           total_matched := (case rc_tv nd of None \<Rightarrow> total_matched r | Some v \<Rightarrow> Some v),
           starting_price_near := (case rc_spn nd of None \<Rightarrow> starting_price_near r | Some v \<Rightarrow> Some v),
           starting_price_far := (case rc_spf nd of None \<Rightarrow> starting_price_far r | Some v \<Rightarrow> Some v),
           traded := (case rc_trd nd of None \<Rightarrow> traded r | Some _ \<Rightarrow> t),
           available_to_back := (case rc_atb nd of None \<Rightarrow> available_to_back r | Some _ \<Rightarrow> a1),
           available_to_lay := (case rc_atl nd of None \<Rightarrow> available_to_lay r | Some _ \<Rightarrow> a2),
           best_available_to_back := (case rc_batb nd of None \<Rightarrow> best_available_to_back r | Some _ \<Rightarrow> a3),
           best_available_to_lay := (case rc_batl nd of None \<Rightarrow> best_available_to_lay r | Some _ \<Rightarrow> a4),
           best_display_available_to_back :=
             (case rc_bdatb nd of None \<Rightarrow> best_display_available_to_back r | Some _ \<Rightarrow> a5),
           best_display_available_to_lay :=
             (case rc_bdatl nd of None \<Rightarrow> best_display_available_to_lay r | Some _ \<Rightarrow> a6),
           starting_price_back := (case rc_spb nd of None \<Rightarrow> starting_price_back r | Some _ \<Rightarrow> a7),
           starting_price_lay := (case rc_spl nd of None \<Rightarrow> starting_price_lay r | Some _ \<Rightarrow> a8)\<rparr>"
    unfolding a8 a7 a6 a5 a4 a3 a2 a1 t r4 by (simp cong: option.case_cong)
  then show ?thesis by blast
qed

lemma serialise_available_serialised [simp]:
  "serialise_available_to_back (r\<lparr>serialised := x\<rparr>) = serialise_available_to_back r"
  "serialise_available_to_lay (r\<lparr>serialised := x\<rparr>) = serialise_available_to_lay r"
  by (simp_all add: serialise_available_to_back_def serialise_available_to_lay_def)

lemma runner_snapshot_of_serialised [simp]:
  "runner_snapshot_of (r\<lparr>serialised := x\<rparr>) = runner_snapshot_of r"
  by (simp add: runner_snapshot_of_def)

lemma runner_serialise_synced:
  "serialised (runner_serialise r) = Some (runner_snapshot_of (runner_serialise r))"
  by (simp add: runner_serialise_def)

lemma runner_serialise_key:
  "selection_id (runner_serialise r) = selection_id r"
  "handicap (runner_serialise r) = handicap r"
  by (simp_all add: runner_serialise_def)

lemma update_definition_key:
  "selection_id (update_definition r d) = selection_id r"
  "handicap (update_definition r d) = handicap r"
  by (simp_all add: update_definition_def)

lemma update_runner_key:
  assumes "update_runner r nd = Inr r'"
  shows "selection_id r' = selection_id r \<and> handicap r' = handicap r"
  using update_runner_form [OF assms] by auto

lemma runner_book_init_key:
  assumes "runner_book_init nd d = Inr r"
  shows "selection_id r = rc_id nd \<and> handicap r = (case rc_hc nd of None \<Rightarrow> 0 | Some h \<Rightarrow> h)"
  using assms unfolding runner_book_init_def ebind_Inr
  by (auto simp: update_definition_def)

lemma build_runner_dict_Some:
  "build_runner_dict rs n m k = Some i \<Longrightarrow>
     m k = Some i \<or>
     (n \<le> i \<and> i < n + length rs \<and> (selection_id (rs ! (i - n)), handicap (rs ! (i - n))) = k)"
proof (induction rs arbitrary: n m)
  case Nil
  then show ?case by simp
next
  case (Cons r rs)
  have "build_runner_dict rs (Suc n) (m((selection_id r, handicap r) \<mapsto> n)) k = Some i"
    using Cons.prems by simp
  from Cons.IH [OF this]
  have "(m((selection_id r, handicap r) \<mapsto> n)) k = Some i \<or>
     (Suc n \<le> i \<and> i < Suc n + length rs \<and>
      (selection_id (rs ! (i - Suc n)), handicap (rs ! (i - Suc n))) = k)" .
  then show ?case
  proof
    assume "(m((selection_id r, handicap r) \<mapsto> n)) k = Some i"
    then show ?thesis by (auto split: if_splits)
  next
    assume a: "Suc n \<le> i \<and> i < Suc n + length rs \<and>
      (selection_id (rs ! (i - Suc n)), handicap (rs ! (i - Suc n))) = k"
    then have "(r # rs) ! (i - n) = rs ! (i - Suc n)"
      by (metis Suc_diff_Suc Suc_le_lessD nth_Cons_Suc)
    then show ?thesis using a by auto
  qed
qed

lemma market_invD:
  "market_inv mb \<Longrightarrow> runner_dict mb k = Some i \<Longrightarrow>
     i < length (runners mb) \<and> (selection_id (runners mb ! i), handicap (runners mb ! i)) = k"
  unfolding market_inv_def by blast

lemma market_inv_update_at:
  assumes "market_inv mb" "runner_dict mb k = Some i"
    "serialised r' = Some (runner_snapshot_of r')" "(selection_id r', handicap r') = k"
  shows "market_inv (mb\<lparr>runners := (runners mb)[i := r']\<rparr>)"
proof -
  have il: "i < length (runners mb)" using market_invD [OF assms(1,2)] by simp
  have "\<forall>r\<in>set ((runners mb)[i := r']). serialised r = Some (runner_snapshot_of r)"
    using assms(1,3) set_update_subset_insert [of "runners mb" i r']
    by (auto simp: market_inv_def)
  moreover have "\<forall>k' j. runner_dict mb k' = Some j \<longrightarrow>
         j < length ((runners mb)[i := r']) \<and>
         (selection_id ((runners mb)[i := r'] ! j), handicap ((runners mb)[i := r'] ! j)) = k'"
  proof (intro allI impI)
    fix k' j assume d: "runner_dict mb k' = Some j"
    then have j: "j < length (runners mb)"
      "(selection_id (runners mb ! j), handicap (runners mb ! j)) = k'"
      using market_invD [OF assms(1)] by simp_all
    show "j < length ((runners mb)[i := r']) \<and>
         (selection_id ((runners mb)[i := r'] ! j), handicap ((runners mb)[i := r'] ! j)) = k'"
    proof (cases "j = i")
      case True
      have "(selection_id (runners mb ! i), handicap (runners mb ! i)) = k"
        using market_invD [OF assms(1,2)] by simp
      then show ?thesis using True j il assms(4) by simp
    next
      case False
      then show ?thesis using j by simp
    qed
  qed
  ultimately show ?thesis by (simp add: market_inv_def)
qed

lemma add_new_runner_inv:
  assumes "add_new_runner mb nd d = Inr (mb', i)" "market_inv mb"
  shows "market_inv (mb'\<lparr>runners := (runners mb')[i := runner_serialise (runners mb' ! i)]\<rparr>)"
proof -
  from assms(1) obtain r where r: "runner_book_init nd d = Inr r"
    and mb': "mb' = mb\<lparr>runners := runners mb @ [r], number_of_runners := length (runners mb @ [r]),
                  runner_dict := build_runner_dict (runners mb @ [r]) 0 Map.empty\<rparr>"
    and i: "i = length (runners mb)"
    unfolding add_new_runner_def ebind_Inr Let_def by auto
  have rs: "(runners mb')[i := runner_serialise (runners mb' ! i)] = runners mb @ [runner_serialise r]"
    using mb' i by simp
  have "\<forall>x\<in>set (runners mb @ [runner_serialise r]). serialised x = Some (runner_snapshot_of x)"
    using assms(2) runner_serialise_synced by (auto simp: market_inv_def)
  moreover have "\<forall>k j. runner_dict mb' k = Some j \<longrightarrow>
      j < length (runners mb @ [runner_serialise r]) \<and>
      (selection_id ((runners mb @ [runner_serialise r]) ! j),
       handicap ((runners mb @ [runner_serialise r]) ! j)) = k"
  proof (intro allI impI)
    fix k j assume "runner_dict mb' k = Some j"
    then have "build_runner_dict (runners mb @ [r]) 0 Map.empty k = Some j" using mb' by simp
    from build_runner_dict_Some [OF this]
    have j: "j < length (runners mb @ [r])"
      "(selection_id ((runners mb @ [r]) ! j), handicap ((runners mb @ [r]) ! j)) = k"
      by auto
    show "j < length (runners mb @ [runner_serialise r]) \<and>
      (selection_id ((runners mb @ [runner_serialise r]) ! j),
       handicap ((runners mb @ [runner_serialise r]) ! j)) = k"
      using j by (cases "j < length (runners mb)") (auto simp: nth_append runner_serialise_key)
  qed
  ultimately show ?thesis unfolding market_inv_def using rs mb' by simp
qed

lemma process_runner_changes_inv:
  "process_runner_changes mb rc = Inr mb' \<Longrightarrow> market_inv mb \<Longrightarrow> market_inv mb'"
proof (induction rc arbitrary: mb)
  case Nil
  then show ?case by simp
next
  case (Cons nd rc)
  let ?k = "(rc_id nd, (case rc_hc nd of None \<Rightarrow> 0 | Some h \<Rightarrow> h))"
  show ?case
  proof (cases "runner_dict mb ?k")
    case None
    with Cons.prems(1) obtain mb1 i where a: "add_new_runner mb nd None = Inr (mb1, i)"
      and p: "process_runner_changes
              (mb1\<lparr>runners := (runners mb1)[i := runner_serialise (runners mb1 ! i)]\<rparr>) rc = Inr mb'"
      by (auto simp: ebind_Inr)
    from add_new_runner_inv [OF a Cons.prems(2)] Cons.IH [OF p] show ?thesis by blast
  next
    case (Some i)
    with Cons.prems(1) obtain r' where u: "update_runner (runners mb ! i) nd = Inr r'"
      and p: "process_runner_changes (mb\<lparr>runners := (runners mb)[i := runner_serialise r']\<rparr>) rc = Inr mb'"
      by (auto simp: ebind_Inr)
    have "(selection_id (runners mb ! i), handicap (runners mb ! i)) = ?k"
      using market_invD [OF Cons.prems(2) Some] by simp
    then have "(selection_id (runner_serialise r'), handicap (runner_serialise r')) = ?k"
      using update_runner_key [OF u] by (simp add: runner_serialise_key)
    from market_inv_update_at [OF Cons.prems(2) Some runner_serialise_synced this] Cons.IH [OF p]
    show ?thesis by blast
  qed
qed

lemma process_runner_definitions_inv:
  "process_runner_definitions mb rds = Inr mb' \<Longrightarrow> market_inv mb \<Longrightarrow> market_inv mb'"
proof (induction rds arbitrary: mb)
  case Nil
  then show ?case by simp
next
  case (Cons rd rds)
  let ?k = "(rd_id rd, (case rd_hc rd of None \<Rightarrow> 0 | Some h \<Rightarrow> h))"
  show ?case
  proof (cases "runner_dict mb ?k")
    case None
    with Cons.prems(1) obtain mb1 i where
      a: "add_new_runner mb (definition_kwargs (rd_id rd) (case rd_hc rd of None \<Rightarrow> 0 | Some h \<Rightarrow> h))
            (Some rd) = Inr (mb1, i)"
      and p: "process_runner_definitions
              (mb1\<lparr>runners := (runners mb1)[i := runner_serialise (runners mb1 ! i)]\<rparr>) rds = Inr mb'"
      by (auto simp: ebind_Inr Let_def)
    from add_new_runner_inv [OF a Cons.prems(2)] Cons.IH [OF p] show ?thesis by blast
  next
    case (Some i)
    with Cons.prems(1) have
      p: "process_runner_definitions
            (mb\<lparr>runners := (runners mb)
                 [i := runner_serialise (update_definition (runners mb ! i) (Some rd))]\<rparr>) rds = Inr mb'"
      by (auto simp: Let_def)
    have "(selection_id (runners mb ! i), handicap (runners mb ! i)) = ?k"
      using market_invD [OF Cons.prems(2) Some] by simp
    then have "(selection_id (runner_serialise (update_definition (runners mb ! i) (Some rd))),
                handicap (runner_serialise (update_definition (runners mb ! i) (Some rd)))) = ?k"
      by (simp add: runner_serialise_key update_definition_key)
    from market_inv_update_at [OF Cons.prems(2) Some runner_serialise_synced this] Cons.IH [OF p]
    show ?thesis by blast
  qed
qed

lemma update_cache_inv:
  assumes "update_cache mb mc pt = Inr mb'" "market_inv mb"
  shows "market_inv mb'"
proof -
  let ?mb1 = "mb\<lparr>publish_time := pt\<rparr>"
  have i1: "market_inv ?mb1" using assms(2) by (simp add: market_inv_def)
  from assms(1) obtain mb2 where
    s2: "(case mc_marketDefinition mc of None \<Rightarrow> Inr ?mb1
          | Some md \<Rightarrow> process_market_definition ?mb1 md) = Inr mb2" and
    s3: "(case mc_rc mc of
            None \<Rightarrow> Inr (case mc_tv mc of None \<Rightarrow> mb2 | Some v \<Rightarrow> mb2\<lparr>market_total_matched := Some v\<rparr>)
          | Some rc \<Rightarrow> process_runner_changes
              (case mc_tv mc of None \<Rightarrow> mb2 | Some v \<Rightarrow> mb2\<lparr>market_total_matched := Some v\<rparr>) rc) = Inr mb'"
    unfolding update_cache_def Let_def ebind_Inr by blast
  have i2: "market_inv mb2"
  proof (cases "mc_marketDefinition mc")
    case None
    then show ?thesis using s2 i1 by simp
  next
    case (Some md)
    with s2 have "process_market_definition ?mb1 md = Inr mb2" by simp
    then show ?thesis unfolding process_market_definition_def
      by (rule process_runner_definitions_inv) (use i1 in \<open>simp add: market_inv_def\<close>)
  qed
  have i3: "market_inv (case mc_tv mc of None \<Rightarrow> mb2 | Some v \<Rightarrow> mb2\<lparr>market_total_matched := Some v\<rparr>)"
    using i2 by (cases "mc_tv mc") (simp_all add: market_inv_def)
  show ?thesis
  proof (cases "mc_rc mc")
    case None
    then show ?thesis using s3 i3 by simp
  next
    case (Some rc)
    then show ?thesis using s3 i3 process_runner_changes_inv by simp
  qed
qed

lemma market_market_inv: "market mb \<Longrightarrow> market_inv mb"
proof (induction rule: market.induct)
  case (market_init mid pt)
  then show ?case by (simp add: market_inv_def market_book_cache_init_def)
next
  case (market_update mb mc pt mb')
  then show ?case using update_cache_inv by blast
qed

lemma runner_snapshot_of_last_price_traded:
  "runner_snapshot_of (r\<lparr>last_price_traded := x\<rparr>) = (runner_snapshot_of r)\<lparr>lastPriceTraded := x\<rparr>"
  by (simp add: runner_snapshot_of_def serialise_available_to_back_def serialise_available_to_lay_def)

lemma update_runner_ltp_only:
  assumes "rc_ltp nd = Some v" "rc_tv nd = None" "rc_spn nd = None" "rc_spf nd = None"
    "rc_trd nd = None" "rc_atb nd = None" "rc_atl nd = None" "rc_batb nd = None"
    "rc_batl nd = None" "rc_bdatb nd = None" "rc_bdatl nd = None" "rc_spb nd = None"
    "rc_spl nd = None"
  shows "update_runner r nd = Inr (r\<lparr>last_price_traded := Some v\<rparr>)"
  using assms by (simp add: update_runner_def update_ladder_def ebind_def)

text \<open>
  Claim C6. \<^verbatim>\<open>serialise_available_to_back\<close> returns the rendering of the full-depth
  ladder when that ladder has rows, otherwise that of the best-display ladder when it has
  rows, otherwise that of the best ladder when it has rows, otherwise the empty list;
  \<^verbatim>\<open>serialise_available_to_lay\<close> does the same for the lay side, and these are the lists
  that the runner's serialised dict carries.
\<close>

theorem serialise_available_precedence:
  "serialise_available_to_back r =
     (if prices (available_to_back r) \<noteq> [] then serialise (available_to_back r)
      else if prices (best_display_available_to_back r) \<noteq> []
        then serialise (best_display_available_to_back r)
      else if prices (best_available_to_back r) \<noteq> [] then serialise (best_available_to_back r)
      else []) \<and>
   serialise_available_to_lay r =
     (if prices (available_to_lay r) \<noteq> [] then serialise (available_to_lay r)
      else if prices (best_display_available_to_lay r) \<noteq> []
        then serialise (best_display_available_to_lay r)
      else if prices (best_available_to_lay r) \<noteq> [] then serialise (best_available_to_lay r)
      else []) \<and>
   availableToBack (ex (runner_snapshot_of r)) = serialise_available_to_back r \<and>
   availableToLay (ex (runner_snapshot_of r)) = serialise_available_to_lay r"
  by (simp add: serialise_available_to_back_def serialise_available_to_lay_def runner_snapshot_of_def)

lemma ebind_assoc: "ebind (ebind m f) g = ebind m (\<lambda>x. ebind (f x) g)"
  by (cases m) (simp_all add: ebind_def)

lemma ebind_Inr_right: "ebind m Inr = m"
  by (cases m) (simp_all add: ebind_def)

lemma process_runner_changes_append:
  "process_runner_changes mb (xs @ ys) =
     ebind (process_runner_changes mb xs) (\<lambda>mb1. process_runner_changes mb1 ys)"
proof (induction xs arbitrary: mb)
  case Nil
  show ?case by (simp add: ebind_def)
next
  case (Cons nd xs)
  show ?case
  proof (cases "runner_dict mb (rc_id nd, (case rc_hc nd of None \<Rightarrow> 0 | Some h \<Rightarrow> h))")
    case None
    then show ?thesis
      by (cases "add_new_runner mb nd None") (auto simp: ebind_def Cons.IH)
  next
    case (Some i)
    then show ?thesis
      by (cases "update_runner (runners mb ! i) nd") (auto simp: ebind_def Cons.IH)
  qed
qed

lemma process_runner_changes_Cons:
  "process_runner_changes mb (nd # post) =
     ebind (process_runner_changes mb [nd]) (\<lambda>mb2. process_runner_changes mb2 post)"
  using process_runner_changes_append [of mb "[nd]" post] by simp

lemma process_runner_changes_single_existing:
  assumes "runner_dict mb (rc_id nd, (case rc_hc nd of None \<Rightarrow> 0 | Some h \<Rightarrow> h)) = Some i"
  shows "process_runner_changes mb [nd] =
     ebind (update_runner (runners mb ! i) nd) (\<lambda>r'.
       Inr (mb\<lparr>runners := (runners mb)[i := runner_serialise r']\<rparr>))"
  using assms by simp

lemma update_cache_split:
  assumes "mc_rc mc = Some (xs @ ys)"
  shows "update_cache mb mc pt =
     ebind (update_cache mb (mc\<lparr>mc_rc := Some xs\<rparr>) pt) (\<lambda>mb1. process_runner_changes mb1 ys)"
  unfolding update_cache_def Let_def using assms
  by (simp add: ebind_assoc process_runner_changes_append)

text \<open>
  Claim C7. A runner change at any position of the \<^verbatim>\<open>rc\<close> list of any market change
  (with or without a market definition and a total volume) is applied to the cache that
  the records before it have produced, and the records after it are applied to its result.
  For a runner that this cache holds under the key of the runner change: when the runner
  change has \<^verbatim>\<open>ltp\<close> and none of the other optional keys, its step returns, the runner
  differs from before only in \<^verbatim>\<open>last_price_traded\<close> and in its cached dict, and the
  cached dict is the one before with only \<^verbatim>\<open>lastPriceTraded\<close> changed. For any runner
  change, after its completed step every field of the runner whose key is absent from the
  runner change is as before, the identity and definition fields are as before, the other
  runners and the rest of the cache are as before, and the cached dict is the
  serialisation of the new state. For a message that is this one ltp-only runner change
  and nothing else, the whole update returns with exactly this change.
\<close>

theorem runner_change_touches_only_present_fields:
  assumes "market mb"
    and "mc_rc mc = Some (pre @ nd # post)"
  shows
   "update_cache mb mc pt =
      ebind (update_cache mb (mc\<lparr>mc_rc := Some pre\<rparr>) pt) (\<lambda>mb1.
      ebind (process_runner_changes mb1 [nd]) (\<lambda>mb2. process_runner_changes mb2 post)) \<and>
    (update_cache mb (mc\<lparr>mc_rc := Some pre\<rparr>) pt = Inr mb1 \<and>
     runner_dict mb1 (rc_id nd, (case rc_hc nd of None \<Rightarrow> 0 | Some h \<Rightarrow> h)) = Some i \<longrightarrow>
       i < length (runners mb1) \<and>
       serialised (runners mb1 ! i) = Some (runner_snapshot_of (runners mb1 ! i)) \<and>
       (rc_ltp nd = Some v \<and>
          rc_tv nd = None \<and>
          rc_spn nd = None \<and>
          rc_spf nd = None \<and>
          rc_trd nd = None \<and>
          rc_atb nd = None \<and>
          rc_atl nd = None \<and>
          rc_batb nd = None \<and>
          rc_batl nd = None \<and>
          rc_bdatb nd = None \<and>
          rc_bdatl nd = None \<and>
          rc_spb nd = None \<and>
          rc_spl nd = None \<longrightarrow>
          process_runner_changes mb1 [nd] =
            Inr (mb1\<lparr>runners := (runners mb1)
                  [i := (runners mb1 ! i)
                     \<lparr>last_price_traded := Some v,
                      serialised :=
                        Some ((runner_snapshot_of (runners mb1 ! i))\<lparr>lastPriceTraded := Some v\<rparr>)\<rparr>]\<rparr>)) \<and>
       (process_runner_changes mb1 [nd] = Inr mb2 \<longrightarrow>
          mb2 = mb1\<lparr>runners := runners mb2\<rparr> \<and>
          length (runners mb2) = length (runners mb1) \<and>
          (\<forall>j<length (runners mb1). j \<noteq> i \<longrightarrow> runners mb2 ! j = runners mb1 ! j) \<and>
          serialised (runners mb2 ! i) = Some (runner_snapshot_of (runners mb2 ! i)) \<and>
          selection_id (runners mb2 ! i) = selection_id (runners mb1 ! i) \<and>
          handicap (runners mb2 ! i) = handicap (runners mb1 ! i) \<and>
          runner_def (runners mb2 ! i) = runner_def (runners mb1 ! i) \<and>
          definition_status (runners mb2 ! i) = definition_status (runners mb1 ! i) \<and>
          definition_bsp (runners mb2 ! i) = definition_bsp (runners mb1 ! i) \<and>
          definition_adjustment_factor (runners mb2 ! i) = definition_adjustment_factor (runners mb1 ! i) \<and>
          definition_removal_date (runners mb2 ! i) = definition_removal_date (runners mb1 ! i) \<and>
          (rc_ltp nd = None \<longrightarrow>
             last_price_traded (runners mb2 ! i) = last_price_traded (runners mb1 ! i)) \<and>
          (rc_tv nd = None \<longrightarrow>
             total_matched (runners mb2 ! i) = total_matched (runners mb1 ! i)) \<and>
          (rc_spn nd = None \<longrightarrow>
             starting_price_near (runners mb2 ! i) = starting_price_near (runners mb1 ! i)) \<and>
          (rc_spf nd = None \<longrightarrow>
             starting_price_far (runners mb2 ! i) = starting_price_far (runners mb1 ! i)) \<and>
          (rc_trd nd = None \<longrightarrow>
             traded (runners mb2 ! i) = traded (runners mb1 ! i)) \<and>
          (rc_atb nd = None \<longrightarrow>
             available_to_back (runners mb2 ! i) = available_to_back (runners mb1 ! i)) \<and>
          (rc_atl nd = None \<longrightarrow>
             available_to_lay (runners mb2 ! i) = available_to_lay (runners mb1 ! i)) \<and>
          (rc_batb nd = None \<longrightarrow>
             best_available_to_back (runners mb2 ! i) = best_available_to_back (runners mb1 ! i)) \<and>
          (rc_batl nd = None \<longrightarrow>
             best_available_to_lay (runners mb2 ! i) = best_available_to_lay (runners mb1 ! i)) \<and>
          (rc_bdatb nd = None \<longrightarrow>
             best_display_available_to_back (runners mb2 ! i) = best_display_available_to_back (runners mb1 ! i)) \<and>
          (rc_bdatl nd = None \<longrightarrow>
             best_display_available_to_lay (runners mb2 ! i) = best_display_available_to_lay (runners mb1 ! i)) \<and>
          (rc_spb nd = None \<longrightarrow>
             starting_price_back (runners mb2 ! i) = starting_price_back (runners mb1 ! i)) \<and>
          (rc_spl nd = None \<longrightarrow>
             starting_price_lay (runners mb2 ! i) = starting_price_lay (runners mb1 ! i)))) \<and>
    (mc_marketDefinition mc = None \<and> pre = [] \<and> post = [] \<and>
     runner_dict mb (rc_id nd, (case rc_hc nd of None \<Rightarrow> 0 | Some h \<Rightarrow> h)) = Some i \<and>
     rc_ltp nd = Some v \<and>
     rc_tv nd = None \<and>
     rc_spn nd = None \<and>
     rc_spf nd = None \<and>
     rc_trd nd = None \<and>
     rc_atb nd = None \<and>
     rc_atl nd = None \<and>
     rc_batb nd = None \<and>
     rc_batl nd = None \<and>
     rc_bdatb nd = None \<and>
     rc_bdatl nd = None \<and>
     rc_spb nd = None \<and>
     rc_spl nd = None \<longrightarrow>
       serialised (runners mb ! i) = Some (runner_snapshot_of (runners mb ! i)) \<and>
       (\<exists>mbr. update_cache mb mc pt = Inr mbr \<and>
          runners mbr = (runners mb)
            [i := (runners mb ! i)
                  \<lparr>last_price_traded := Some v,
                   serialised :=
                     Some ((runner_snapshot_of (runners mb ! i))\<lparr>lastPriceTraded := Some v\<rparr>)\<rparr>]))"
proof (intro conjI impI)
  show "update_cache mb mc pt =
      ebind (update_cache mb (mc\<lparr>mc_rc := Some pre\<rparr>) pt) (\<lambda>mb1.
      ebind (process_runner_changes mb1 [nd]) (\<lambda>mb2. process_runner_changes mb2 post))"
    unfolding update_cache_split [OF assms(2), of mb pt]
    by (simp only: process_runner_changes_Cons [of _ nd post])
next
  assume h: "update_cache mb (mc\<lparr>mc_rc := Some pre\<rparr>) pt = Inr mb1 \<and>
     runner_dict mb1 (rc_id nd, (case rc_hc nd of None \<Rightarrow> 0 | Some h \<Rightarrow> h)) = Some i"
  then have u1: "update_cache mb (mc\<lparr>mc_rc := Some pre\<rparr>) pt = Inr mb1"
    and d: "runner_dict mb1 (rc_id nd, (case rc_hc nd of None \<Rightarrow> 0 | Some h \<Rightarrow> h)) = Some i" by blast+
  have m1: "market mb1" using assms(1) u1 by (rule market_update)
  have inv: "market_inv mb1" using m1 by (rule market_market_inv)
  show il: "i < length (runners mb1)" using market_invD [OF inv d] by simp
  then have mem: "runners mb1 ! i \<in> set (runners mb1)" by simp
  show "serialised (runners mb1 ! i) = Some (runner_snapshot_of (runners mb1 ! i))"
    using inv mem unfolding market_inv_def by blast
  note st = process_runner_changes_single_existing [OF d]
  {
    assume only: "rc_ltp nd = Some v \<and>
          rc_tv nd = None \<and>
          rc_spn nd = None \<and>
          rc_spf nd = None \<and>
          rc_trd nd = None \<and>
          rc_atb nd = None \<and>
          rc_atl nd = None \<and>
          rc_batb nd = None \<and>
          rc_batl nd = None \<and>
          rc_bdatb nd = None \<and>
          rc_bdatl nd = None \<and>
          rc_spb nd = None \<and>
          rc_spl nd = None"
    have u: "update_runner (runners mb1 ! i) nd = Inr ((runners mb1 ! i)\<lparr>last_price_traded := Some v\<rparr>)"
      using only by (intro update_runner_ltp_only) simp_all
    have s: "runner_serialise ((runners mb1 ! i)\<lparr>last_price_traded := Some v\<rparr>) =
        (runners mb1 ! i)
          \<lparr>last_price_traded := Some v,
           serialised :=
             Some ((runner_snapshot_of (runners mb1 ! i))\<lparr>lastPriceTraded := Some v\<rparr>)\<rparr>"
      by (simp add: runner_serialise_def runner_snapshot_of_last_price_traded)
    show "process_runner_changes mb1 [nd] =
            Inr (mb1\<lparr>runners := (runners mb1)
                  [i := (runners mb1 ! i)
                     \<lparr>last_price_traded := Some v,
                      serialised :=
                        Some ((runner_snapshot_of (runners mb1 ! i))\<lparr>lastPriceTraded := Some v\<rparr>)\<rparr>]\<rparr>)"
      unfolding st u by (simp add: ebind_def s)
  }
  assume upd: "process_runner_changes mb1 [nd] = Inr mb2"
  then obtain r' where u: "update_runner (runners mb1 ! i) nd = Inr r'"
    and m2: "mb2 = mb1\<lparr>runners := (runners mb1)[i := runner_serialise r']\<rparr>"
    unfolding st ebind_Inr by auto
  have rs: "runners mb2 = (runners mb1)[i := runner_serialise r']" unfolding m2 by simp
  have ri: "runners mb2 ! i = runner_serialise r'" using rs il by simp
  from update_runner_form [OF u] obtain t a1 a2 a3 a4 a5 a6 a7 a8 where
    f: "r' = (runners mb1 ! i)\<lparr>last_price_traded := (case rc_ltp nd of None \<Rightarrow> last_price_traded (runners mb1 ! i) | Some v \<Rightarrow> Some v),
           total_matched := (case rc_tv nd of None \<Rightarrow> total_matched (runners mb1 ! i) | Some v \<Rightarrow> Some v),
           starting_price_near := (case rc_spn nd of None \<Rightarrow> starting_price_near (runners mb1 ! i) | Some v \<Rightarrow> Some v),
           starting_price_far := (case rc_spf nd of None \<Rightarrow> starting_price_far (runners mb1 ! i) | Some v \<Rightarrow> Some v),
           traded := (case rc_trd nd of None \<Rightarrow> traded (runners mb1 ! i) | Some _ \<Rightarrow> t),
           available_to_back := (case rc_atb nd of None \<Rightarrow> available_to_back (runners mb1 ! i) | Some _ \<Rightarrow> a1),
           available_to_lay := (case rc_atl nd of None \<Rightarrow> available_to_lay (runners mb1 ! i) | Some _ \<Rightarrow> a2),
           best_available_to_back := (case rc_batb nd of None \<Rightarrow> best_available_to_back (runners mb1 ! i) | Some _ \<Rightarrow> a3),
           best_available_to_lay := (case rc_batl nd of None \<Rightarrow> best_available_to_lay (runners mb1 ! i) | Some _ \<Rightarrow> a4),
           best_display_available_to_back := (case rc_bdatb nd of None \<Rightarrow> best_display_available_to_back (runners mb1 ! i) | Some _ \<Rightarrow> a5),
           best_display_available_to_lay := (case rc_bdatl nd of None \<Rightarrow> best_display_available_to_lay (runners mb1 ! i) | Some _ \<Rightarrow> a6),
           starting_price_back := (case rc_spb nd of None \<Rightarrow> starting_price_back (runners mb1 ! i) | Some _ \<Rightarrow> a7),
           starting_price_lay := (case rc_spl nd of None \<Rightarrow> starting_price_lay (runners mb1 ! i) | Some _ \<Rightarrow> a8)\<rparr>"
    by blast
  show "mb2 = mb1\<lparr>runners := runners mb2\<rparr>" unfolding m2 by simp
  show "length (runners mb2) = length (runners mb1)" using rs by simp
  show "\<forall>j<length (runners mb1). j \<noteq> i \<longrightarrow> runners mb2 ! j = runners mb1 ! j" using rs by simp
  show "serialised (runners mb2 ! i) = Some (runner_snapshot_of (runners mb2 ! i))"
    unfolding ri by (rule runner_serialise_synced)
  show "selection_id (runners mb2 ! i) = selection_id (runners mb1 ! i)"
    unfolding ri runner_serialise_def by (simp add: f)
  show "handicap (runners mb2 ! i) = handicap (runners mb1 ! i)"
    unfolding ri runner_serialise_def by (simp add: f)
  show "runner_def (runners mb2 ! i) = runner_def (runners mb1 ! i)"
    unfolding ri runner_serialise_def by (simp add: f)
  show "definition_status (runners mb2 ! i) = definition_status (runners mb1 ! i)"
    unfolding ri runner_serialise_def by (simp add: f)
  show "definition_bsp (runners mb2 ! i) = definition_bsp (runners mb1 ! i)"
    unfolding ri runner_serialise_def by (simp add: f)
  show "definition_adjustment_factor (runners mb2 ! i) = definition_adjustment_factor (runners mb1 ! i)"
    unfolding ri runner_serialise_def by (simp add: f)
  show "definition_removal_date (runners mb2 ! i) = definition_removal_date (runners mb1 ! i)"
    unfolding ri runner_serialise_def by (simp add: f)
  { assume "rc_ltp nd = None"
    then show "last_price_traded (runners mb2 ! i) = last_price_traded (runners mb1 ! i)"
      unfolding ri runner_serialise_def by (simp add: f) }
  { assume "rc_tv nd = None"
    then show "total_matched (runners mb2 ! i) = total_matched (runners mb1 ! i)"
      unfolding ri runner_serialise_def by (simp add: f) }
  { assume "rc_spn nd = None"
    then show "starting_price_near (runners mb2 ! i) = starting_price_near (runners mb1 ! i)"
      unfolding ri runner_serialise_def by (simp add: f) }
  { assume "rc_spf nd = None"
    then show "starting_price_far (runners mb2 ! i) = starting_price_far (runners mb1 ! i)"
      unfolding ri runner_serialise_def by (simp add: f) }
  { assume "rc_trd nd = None"
    then show "traded (runners mb2 ! i) = traded (runners mb1 ! i)"
      unfolding ri runner_serialise_def by (simp add: f) }
  { assume "rc_atb nd = None"
    then show "available_to_back (runners mb2 ! i) = available_to_back (runners mb1 ! i)"
      unfolding ri runner_serialise_def by (simp add: f) }
  { assume "rc_atl nd = None"
    then show "available_to_lay (runners mb2 ! i) = available_to_lay (runners mb1 ! i)"
      unfolding ri runner_serialise_def by (simp add: f) }
  { assume "rc_batb nd = None"
    then show "best_available_to_back (runners mb2 ! i) = best_available_to_back (runners mb1 ! i)"
      unfolding ri runner_serialise_def by (simp add: f) }
  { assume "rc_batl nd = None"
    then show "best_available_to_lay (runners mb2 ! i) = best_available_to_lay (runners mb1 ! i)"
      unfolding ri runner_serialise_def by (simp add: f) }
  { assume "rc_bdatb nd = None"
    then show "best_display_available_to_back (runners mb2 ! i) = best_display_available_to_back (runners mb1 ! i)"
      unfolding ri runner_serialise_def by (simp add: f) }
  { assume "rc_bdatl nd = None"
    then show "best_display_available_to_lay (runners mb2 ! i) = best_display_available_to_lay (runners mb1 ! i)"
      unfolding ri runner_serialise_def by (simp add: f) }
  { assume "rc_spb nd = None"
    then show "starting_price_back (runners mb2 ! i) = starting_price_back (runners mb1 ! i)"
      unfolding ri runner_serialise_def by (simp add: f) }
  { assume "rc_spl nd = None"
    then show "starting_price_lay (runners mb2 ! i) = starting_price_lay (runners mb1 ! i)"
      unfolding ri runner_serialise_def by (simp add: f) }
next
  assume h: "mc_marketDefinition mc = None \<and> pre = [] \<and> post = [] \<and>
     runner_dict mb (rc_id nd, (case rc_hc nd of None \<Rightarrow> 0 | Some h \<Rightarrow> h)) = Some i \<and>
     rc_ltp nd = Some v \<and>
     rc_tv nd = None \<and>
     rc_spn nd = None \<and>
     rc_spf nd = None \<and>
     rc_trd nd = None \<and>
     rc_atb nd = None \<and>
     rc_atl nd = None \<and>
     rc_batb nd = None \<and>
     rc_batl nd = None \<and>
     rc_bdatb nd = None \<and>
     rc_bdatl nd = None \<and>
     rc_spb nd = None \<and>
     rc_spl nd = None"
  then have d: "runner_dict mb (rc_id nd, (case rc_hc nd of None \<Rightarrow> 0 | Some h \<Rightarrow> h)) = Some i" by blast
  have inv: "market_inv mb" using assms(1) by (rule market_market_inv)
  have il: "i < length (runners mb)" using market_invD [OF inv d] by simp
  then have mem: "runners mb ! i \<in> set (runners mb)" by simp
  show "serialised (runners mb ! i) = Some (runner_snapshot_of (runners mb ! i))"
    using inv mem unfolding market_inv_def by blast
  have rc: "mc_rc mc = Some [nd]" using assms(2) h by simp
  have u: "update_runner (runners mb ! i) nd = Inr ((runners mb ! i)\<lparr>last_price_traded := Some v\<rparr>)"
    using h by (intro update_runner_ltp_only) simp_all
  have s: "runner_serialise ((runners mb ! i)\<lparr>last_price_traded := Some v\<rparr>) =
        (runners mb ! i)
          \<lparr>last_price_traded := Some v,
           serialised :=
             Some ((runner_snapshot_of (runners mb ! i))\<lparr>lastPriceTraded := Some v\<rparr>)\<rparr>"
    by (simp add: runner_serialise_def runner_snapshot_of_last_price_traded)
  show "\<exists>mbr. update_cache mb mc pt = Inr mbr \<and>
          runners mbr = (runners mb)
            [i := (runners mb ! i)
                  \<lparr>last_price_traded := Some v,
                   serialised :=
                     Some ((runner_snapshot_of (runners mb ! i))\<lparr>lastPriceTraded := Some v\<rparr>)\<rparr>]"
    using h d rc u by (cases "mc_tv mc") (simp_all add: update_cache_def ebind_def s)
qed

lemmas eval_defs = update_cache_def market_book_cache_init_def ebind_def add_new_runner_def
  runner_book_init_def available_init_def available_sort_def py_sort_def py_get_def
  update_definition_def definition_get_def runner_serialise_def runner_snapshot_of_def
  serialise_available_to_back_def serialise_available_to_lay_def update_runner_def
  update_ladder_def available_update_def

theorem runner_change_touches_only_present_fields_witness:
  "\<exists>mb mb1 mb2 mb'.
     update_cache (market_book_cache_init ''1.101'' 0)
       \<lparr>mc_marketDefinition = None, mc_tv = None,
        mc_rc = Some [\<lparr>rc_id = 7, rc_hc = None, rc_ltp = Some 2, rc_tv = Some 100,
                  rc_spn = None, rc_spf = None, rc_trd = None, rc_atb = Some [[2, 10]],
                  rc_atl = None, rc_batb = None, rc_batl = None, rc_bdatb = None,
                  rc_bdatl = None, rc_spb = None, rc_spl = None\<rparr>,
         \<lparr>rc_id = 8, rc_hc = None, rc_ltp = Some 9, rc_tv = None,
                  rc_spn = None, rc_spf = None, rc_trd = None, rc_atb = None,
                  rc_atl = None, rc_batb = None, rc_batl = None, rc_bdatb = None,
                  rc_bdatl = None, rc_spb = None, rc_spl = None\<rparr>]\<rparr> 1 = Inr mb \<and>
     market mb \<and>
     update_cache mb
       \<lparr>mc_marketDefinition = None, mc_tv = Some 500,
        mc_rc = Some [\<lparr>rc_id = 7, rc_hc = None, rc_ltp = None, rc_tv = Some 150,
                  rc_spn = None, rc_spf = None, rc_trd = None, rc_atb = None,
                  rc_atl = None, rc_batb = None, rc_batl = None, rc_bdatb = None,
                  rc_bdatl = None, rc_spb = None, rc_spl = None\<rparr>]\<rparr> 2 = Inr mb1 \<and>
     runner_dict mb1 (7, 0) = Some 0 \<and>
     process_runner_changes mb1
       [\<lparr>rc_id = 7, rc_hc = None, rc_ltp = Some 3, rc_tv = None,
          rc_spn = None, rc_spf = None, rc_trd = None, rc_atb = None,
          rc_atl = None, rc_batb = None, rc_batl = None, rc_bdatb = None,
          rc_bdatl = None, rc_spb = None, rc_spl = None\<rparr>] = Inr mb2 \<and>
     process_runner_changes mb2
       [\<lparr>rc_id = 7, rc_hc = None, rc_ltp = None, rc_tv = None,
          rc_spn = Some 5, rc_spf = None, rc_trd = None, rc_atb = None,
          rc_atl = None, rc_batb = None, rc_batl = None, rc_bdatb = None,
          rc_bdatl = None, rc_spb = None, rc_spl = None\<rparr>] = Inr mb' \<and>
     update_cache mb
       \<lparr>mc_marketDefinition = None, mc_tv = Some 500,
        mc_rc = Some [\<lparr>rc_id = 7, rc_hc = None, rc_ltp = None, rc_tv = Some 150,
                  rc_spn = None, rc_spf = None, rc_trd = None, rc_atb = None,
                  rc_atl = None, rc_batb = None, rc_batl = None, rc_bdatb = None,
                  rc_bdatl = None, rc_spb = None, rc_spl = None\<rparr>,
         \<lparr>rc_id = 7, rc_hc = None, rc_ltp = Some 3, rc_tv = None,
                  rc_spn = None, rc_spf = None, rc_trd = None, rc_atb = None,
                  rc_atl = None, rc_batb = None, rc_batl = None, rc_bdatb = None,
                  rc_bdatl = None, rc_spb = None, rc_spl = None\<rparr>,
         \<lparr>rc_id = 7, rc_hc = None, rc_ltp = None, rc_tv = None,
                  rc_spn = Some 5, rc_spf = None, rc_trd = None, rc_atb = None,
                  rc_atl = None, rc_batb = None, rc_batl = None, rc_bdatb = None,
                  rc_bdatl = None, rc_spb = None, rc_spl = None\<rparr>]\<rparr> 2 = Inr mb' \<and>
     serialised (runners mb1 ! 0) =
       Some \<lparr>status = JNone,
             ex = \<lparr>tradedVolume = [], availableToBack = [\<lparr>price = 2, size_val = 10\<rparr>],
                   availableToLay = []\<rparr>,
             sp = \<lparr>nearPrice = None, farPrice = None, backStakeTaken = [],
                   layLiabilityTaken = [], actualSP = JNone\<rparr>,
             adjustmentFactor = JNone, removalDate = JNone, lastPriceTraded = Some 2,
             handicap_out = 0, totalMatched = Some 150, selectionId = 7\<rparr> \<and>
     serialised (runners mb2 ! 0) =
       Some \<lparr>status = JNone,
             ex = \<lparr>tradedVolume = [], availableToBack = [\<lparr>price = 2, size_val = 10\<rparr>],
                   availableToLay = []\<rparr>,
             sp = \<lparr>nearPrice = None, farPrice = None, backStakeTaken = [],
                   layLiabilityTaken = [], actualSP = JNone\<rparr>,
             adjustmentFactor = JNone, removalDate = JNone, lastPriceTraded = Some 3,
             handicap_out = 0, totalMatched = Some 150, selectionId = 7\<rparr> \<and>
     serialised (runners mb' ! 0) =
       Some \<lparr>status = JNone,
             ex = \<lparr>tradedVolume = [], availableToBack = [\<lparr>price = 2, size_val = 10\<rparr>],
                   availableToLay = []\<rparr>,
             sp = \<lparr>nearPrice = Some 5, farPrice = None, backStakeTaken = [],
                   layLiabilityTaken = [], actualSP = JNone\<rparr>,
             adjustmentFactor = JNone, removalDate = JNone, lastPriceTraded = Some 3,
             handicap_out = 0, totalMatched = Some 150, selectionId = 7\<rparr> \<and>
     length (runners mb') = 2 \<and>
     serialised (runners mb' ! 1) =
       Some \<lparr>status = JNone,
             ex = \<lparr>tradedVolume = [], availableToBack = [],
                   availableToLay = []\<rparr>,
             sp = \<lparr>nearPrice = None, farPrice = None, backStakeTaken = [],
                   layLiabilityTaken = [], actualSP = JNone\<rparr>,
             adjustmentFactor = JNone, removalDate = JNone, lastPriceTraded = Some 9,
             handicap_out = 0, totalMatched = None, selectionId = 8\<rparr>"
proof -
  let ?nda = "\<lparr>rc_id = 7, rc_hc = None, rc_ltp = Some 2, rc_tv = Some 100,
          rc_spn = None, rc_spf = None, rc_trd = None, rc_atb = Some [[2, 10]],
          rc_atl = None, rc_batb = None, rc_batl = None, rc_bdatb = None,
          rc_bdatl = None, rc_spb = None, rc_spl = None\<rparr>"
  let ?nde = "\<lparr>rc_id = 8, rc_hc = None, rc_ltp = Some 9, rc_tv = None,
          rc_spn = None, rc_spf = None, rc_trd = None, rc_atb = None,
          rc_atl = None, rc_batb = None, rc_batl = None, rc_bdatb = None,
          rc_bdatl = None, rc_spb = None, rc_spl = None\<rparr>"
  let ?ndp = "\<lparr>rc_id = 7, rc_hc = None, rc_ltp = None, rc_tv = Some 150,
          rc_spn = None, rc_spf = None, rc_trd = None, rc_atb = None,
          rc_atl = None, rc_batb = None, rc_batl = None, rc_bdatb = None,
          rc_bdatl = None, rc_spb = None, rc_spl = None\<rparr>"
  let ?ndb = "\<lparr>rc_id = 7, rc_hc = None, rc_ltp = Some 3, rc_tv = None,
          rc_spn = None, rc_spf = None, rc_trd = None, rc_atb = None,
          rc_atl = None, rc_batb = None, rc_batl = None, rc_bdatb = None,
          rc_bdatl = None, rc_spb = None, rc_spl = None\<rparr>"
  let ?ndq = "\<lparr>rc_id = 7, rc_hc = None, rc_ltp = None, rc_tv = None,
          rc_spn = Some 5, rc_spf = None, rc_trd = None, rc_atb = None,
          rc_atl = None, rc_batb = None, rc_batl = None, rc_bdatb = None,
          rc_bdatl = None, rc_spb = None, rc_spl = None\<rparr>"
  let ?mca = "\<lparr>mc_marketDefinition = None, mc_tv = None, mc_rc = Some [?nda, ?nde]\<rparr>"
  let ?mcb = "\<lparr>mc_marketDefinition = None, mc_tv = Some 500, mc_rc = Some [?ndp, ?ndb, ?ndq]\<rparr>"
  let ?mcp = "\<lparr>mc_marketDefinition = None, mc_tv = Some 500, mc_rc = Some [?ndp]\<rparr>"
  obtain mb where u0: "update_cache (market_book_cache_init ''1.101'' 0) ?mca 1 = Inr mb"
    by (simp add: eval_defs)
  have m: "market mb" using market_init u0 by (rule market_update)
  have rc: "mc_rc ?mcb = Some ([?ndp] @ ?ndb # [?ndq])" by simp
  have mcp: "?mcb\<lparr>mc_rc := Some [?ndp]\<rparr> = ?mcp" by simp
  obtain mb1 where u1: "update_cache mb ?mcp 2 = Inr mb1"
    using u0 by (auto simp: eval_defs)
  have u1': "update_cache mb (?mcb\<lparr>mc_rc := Some [?ndp]\<rparr>) 2 = Inr mb1"
    unfolding mcp by (rule u1)
  have d: "runner_dict mb1 (rc_id ?ndb, (case rc_hc ?ndb of None \<Rightarrow> 0 | Some h \<Rightarrow> h)) = Some 0"
    using u0 u1 by (auto simp: eval_defs)
  have s1: "serialised (runners mb1 ! 0) =
       Some \<lparr>status = JNone,
             ex = \<lparr>tradedVolume = [], availableToBack = [\<lparr>price = 2, size_val = 10\<rparr>],
                   availableToLay = []\<rparr>,
             sp = \<lparr>nearPrice = None, farPrice = None, backStakeTaken = [],
                   layLiabilityTaken = [], actualSP = JNone\<rparr>,
             adjustmentFactor = JNone, removalDate = JNone, lastPriceTraded = Some 2,
             handicap_out = 0, totalMatched = Some 150, selectionId = 7\<rparr>"
    using u0 u1 by (auto simp: eval_defs)
  have l1: "length (runners mb1) = 2" using u0 u1 by (auto simp: eval_defs)
  have s8: "serialised (runners mb1 ! 1) =
       Some \<lparr>status = JNone,
             ex = \<lparr>tradedVolume = [], availableToBack = [],
                   availableToLay = []\<rparr>,
             sp = \<lparr>nearPrice = None, farPrice = None, backStakeTaken = [],
                   layLiabilityTaken = [], actualSP = JNone\<rparr>,
             adjustmentFactor = JNone, removalDate = JNone, lastPriceTraded = Some 9,
             handicap_out = 0, totalMatched = None, selectionId = 8\<rparr>"
    using u0 u1 by (auto simp: eval_defs)
  have only: "rc_ltp ?ndb = Some 3 \<and> rc_tv ?ndb = None \<and> rc_spn ?ndb = None \<and>
      rc_spf ?ndb = None \<and> rc_trd ?ndb = None \<and> rc_atb ?ndb = None \<and>
      rc_atl ?ndb = None \<and> rc_batb ?ndb = None \<and> rc_batl ?ndb = None \<and>
      rc_bdatb ?ndb = None \<and> rc_bdatl ?ndb = None \<and> rc_spb ?ndb = None \<and>
      rc_spl ?ndb = None" by simp
  note t = runner_change_touches_only_present_fields [OF m rc]
  note t2 = t [THEN conjunct2, THEN conjunct1, THEN mp, OF conjI [OF u1' d]]
  have sy: "serialised (runners mb1 ! 0) = Some (runner_snapshot_of (runners mb1 ! 0))"
    using t2 by blast
  define mb2 where "mb2 = mb1\<lparr>runners := (runners mb1)
            [0 := (runners mb1 ! 0)
                  \<lparr>last_price_traded := Some 3,
                   serialised :=
                     Some ((runner_snapshot_of (runners mb1 ! 0))\<lparr>lastPriceTraded := Some 3\<rparr>)\<rparr>]\<rparr>"
  have step: "process_runner_changes mb1 [?ndb] = Inr mb2"
    unfolding mb2_def
    using t2 [THEN conjunct2, THEN conjunct2, THEN conjunct1, THEN mp, OF only] .
  have s2: "serialised (runners mb2 ! 0) =
       Some \<lparr>status = JNone,
             ex = \<lparr>tradedVolume = [], availableToBack = [\<lparr>price = 2, size_val = 10\<rparr>],
                   availableToLay = []\<rparr>,
             sp = \<lparr>nearPrice = None, farPrice = None, backStakeTaken = [],
                   layLiabilityTaken = [], actualSP = JNone\<rparr>,
             adjustmentFactor = JNone, removalDate = JNone, lastPriceTraded = Some 3,
             handicap_out = 0, totalMatched = Some 150, selectionId = 7\<rparr>"
    using s1 sy l1 by (simp add: mb2_def)
  have s8b: "runners mb2 ! 1 = runners mb1 ! 1" "length (runners mb2) = 2"
    using l1 by (simp_all add: mb2_def)
  have d2: "runner_dict mb2 (7, 0) = Some 0" using d by (simp add: mb2_def)
  obtain mb' where u3: "process_runner_changes mb2 [?ndq] = Inr mb'"
    using d2 by (simp add: eval_defs)
  have u: "update_cache mb ?mcb 2 = Inr mb'"
    using t [THEN conjunct1, of 2] u1' step u3 by (simp only: ebind_def sum.case)
  have s3: "serialised (runners mb' ! 0) =
       Some \<lparr>status = JNone,
             ex = \<lparr>tradedVolume = [], availableToBack = [\<lparr>price = 2, size_val = 10\<rparr>],
                   availableToLay = []\<rparr>,
             sp = \<lparr>nearPrice = Some 5, farPrice = None, backStakeTaken = [],
                   layLiabilityTaken = [], actualSP = JNone\<rparr>,
             adjustmentFactor = JNone, removalDate = JNone, lastPriceTraded = Some 3,
             handicap_out = 0, totalMatched = Some 150, selectionId = 7\<rparr>"
    using u0 u1 u3 by (auto simp: eval_defs mb2_def)
  have l3: "length (runners mb') = 2"
    using u0 u1 u3 by (auto simp: eval_defs mb2_def)
  have s8c: "serialised (runners mb' ! 1) =
       Some \<lparr>status = JNone,
             ex = \<lparr>tradedVolume = [], availableToBack = [],
                   availableToLay = []\<rparr>,
             sp = \<lparr>nearPrice = None, farPrice = None, backStakeTaken = [],
                   layLiabilityTaken = [], actualSP = JNone\<rparr>,
             adjustmentFactor = JNone, removalDate = JNone, lastPriceTraded = Some 9,
             handicap_out = 0, totalMatched = None, selectionId = 8\<rparr>"
    using u0 u1 u3 by (auto simp: eval_defs mb2_def)
  have d1: "runner_dict mb1 (7, 0) = Some 0" using d by simp
  show ?thesis
    using u0 m u1 d1 step u3 u s1 s2 s3 l3 s8c by blast
qed

section \<open>Properties of the order book cache\<close>

lemma map_of_dict_set: "map_of (dict_set k v d) = (map_of d)(k \<mapsto> v)"
  by (induction d) (auto simp: fun_eq_iff)

lemma order_book_runner_init_Inr:
  assumes "order_book_runner_init sd cds oc = Inr r"
  shows "prices (matched_lays r) = py_sort False (case oc_ml oc of None \<Rightarrow> [] | Some l \<Rightarrow> l) \<and>
         render_rows 1 (prices (matched_lays r)) = Inr (serialise (matched_lays r)) \<and>
         prices (matched_backs r) = py_sort False (case oc_mb oc of None \<Rightarrow> [] | Some l \<Rightarrow> l) \<and>
         render_rows 1 (prices (matched_backs r)) = Inr (serialise (matched_backs r)) \<and>
         unmatched_orders r =
           (case oc_uo oc of None \<Rightarrow> [] | Some uo \<Rightarrow> store_orders sd cds uo []) \<and>
         obr_selection_id r = oc_id oc \<and>
         obr_handicap r = (case oc_hc oc of None \<Rightarrow> 0 | Some h \<Rightarrow> h) \<and>
         full_image r = oc_fullImage oc \<and> strategy_matches r = oc_smc oc"
proof -
  from assms obtain ml mb where ml: "available_init (oc_ml oc) 1 False = Inr ml"
    and mb: "available_init (oc_mb oc) 1 False = Inr mb"
    and r: "r = \<lparr>obr_selection_id = oc_id oc, full_image = oc_fullImage oc, matched_lays = ml,
            matched_backs = mb,
            unmatched_orders =
              (case oc_uo oc of None \<Rightarrow> [] | Some uo \<Rightarrow> store_orders sd cds uo []),
            obr_handicap = (case oc_hc oc of None \<Rightarrow> 0 | Some h \<Rightarrow> h),
            strategy_matches = oc_smc oc\<rparr>"
    unfolding order_book_runner_init_def ebind_Inr by auto
  from available_init_Inr [OF ml] have l1:
    "prices ml = py_sort False (case oc_ml oc of None \<Rightarrow> [] | Some l \<Rightarrow> l)"
    and l2: "render_rows 1 (prices ml) = Inr (serialise ml)" by blast+
  from available_init_Inr [OF mb] have b1:
    "prices mb = py_sort False (case oc_mb oc of None \<Rightarrow> [] | Some l \<Rightarrow> l)"
    and b2: "render_rows 1 (prices mb) = Inr (serialise mb)" by blast+
  have "matched_lays r = ml" "matched_backs r = mb" unfolding r by simp_all
  then show ?thesis using l1 l2 b1 b2 by (simp only: r) simp
qed

lemma keys_dict_set:
  "map fst (dict_set k v d) = (if k \<in> set (map fst d) then map fst d else map fst d @ [k])"
proof (induction d)
  case Nil
  show ?case by simp
next
  case (Cons p d)
  show ?case
  proof (cases "fst p = k")
    case True
    then show ?thesis by (cases p) simp
  next
    case False
    then show ?thesis using Cons.IH by (cases p) (simp split: if_splits)
  qed
qed

lemma dict_set_fresh: "k \<notin> set (map fst d) \<Longrightarrow> dict_set k v d = d @ [(k, v)]"
  by (induction d) auto

lemma remdups_snoc: "remdups (xs @ [x]) = remdups (filter (\<lambda>y. y \<noteq> x) xs) @ [x]"
  by (induction xs) auto

lemma fold_dict_set_keys:
  "map fst (fold (\<lambda>i d. dict_set (f i) (g i) d) uo d) =
     map fst d @ rev (remdups (rev (filter (\<lambda>k. k \<notin> set (map fst d)) (map f uo))))"
proof (induction uo arbitrary: d)
  case Nil
  show ?case by simp
next
  case (Cons i uo)
  show ?case
  proof (cases "f i \<in> set (map fst d)")
    case True
    then show ?thesis by (simp add: Cons.IH keys_dict_set)
  next
    case False
    have "filter (\<lambda>k. k \<noteq> f i \<and> k \<notin> fst ` set d) (map f uo) =
          filter (\<lambda>y. y \<noteq> f i) (filter (\<lambda>k. k \<notin> fst ` set d) (map f uo))"
      by (simp add: conj_commute)
    then show ?thesis using False
      by (simp add: Cons.IH keys_dict_set remdups_snoc rev_filter del: filter_filter)
  qed
qed

lemma fold_dict_set_map_of:
  "map_of (fold (\<lambda>i d. dict_set (f i) (g i) d) uo d) =
     map_of (rev (map (\<lambda>i. (f i, g i)) uo) @ d)"
  by (induction uo arbitrary: d) (simp_all add: map_of_dict_set)

lemma fold_dict_set_distinct:
  "distinct (map f uo) \<Longrightarrow> set (map f uo) \<inter> set (map fst d) = {} \<Longrightarrow>
     fold (\<lambda>i d. dict_set (f i) (g i) d) uo d = d @ map (\<lambda>i. (f i, g i)) uo"
proof (induction uo arbitrary: d)
  case Nil
  show ?case by simp
next
  case (Cons i uo)
  have fr: "f i \<notin> set (map fst d)" using Cons.prems(2) by auto
  have "fold (\<lambda>i d. dict_set (f i) (g i) d) uo (d @ [(f i, g i)]) =
        (d @ [(f i, g i)]) @ map (\<lambda>i. (f i, g i)) uo"
    using Cons.prems by (intro Cons.IH) auto
  then show ?case by (simp add: dict_set_fresh [OF fr])
qed

lemma process_order_changes_append:
  "process_order_changes sd cds rs (xs @ ys) =
     ebind (process_order_changes sd cds rs xs) (\<lambda>rs1. process_order_changes sd cds rs1 ys)"
proof (induction xs arbitrary: rs)
  case Nil
  show ?case by (simp add: ebind_def)
next
  case (Cons oc xs)
  show ?case
    by (simp add: Let_def Cons.IH ebind_assoc)
qed

lemma process_order_changes_Cons:
  "process_order_changes sd cds rs (oc # post) =
     ebind (process_order_changes sd cds rs [oc]) (\<lambda>rs2. process_order_changes sd cds rs2 post)"
  using process_order_changes_append [of sd cds rs "[oc]" post] by simp

lemma order_update_cache_split:
  assumes "ob_orc ob = Some (xs @ ys)"
  shows "order_update_cache sd cds c ob pt =
     ebind (order_update_cache sd cds c (ob\<lparr>ob_orc := Some xs\<rparr>) pt) (\<lambda>c1.
     ebind (process_order_changes sd cds (obc_runners c1) ys) (\<lambda>rs. Inr (c1\<lparr>obc_runners := rs\<rparr>)))"
  unfolding order_update_cache_def Let_def using assms
  by (cases "ob_closed ob";
      cases "process_order_changes sd cds (obc_runners c) xs")
     (simp_all add: process_order_changes_append ebind_def cong: sum.case_cong)

text \<open>
  Claim C8. An order runner change at any position of the \<^verbatim>\<open>orc\<close> list is applied to the
  runners that the changes before it have produced, and the changes after it are applied
  to its result. When it carries \<^verbatim>\<open>fullImage=true\<close> or its key is not among these
  runners, its step stores under that key the runner that the constructor builds from the
  change alone, whatever was stored before, and leaves the other keys as they were; it
  raises exactly when the constructor does. The runner so built has the ids, the flag and
  the strategy matches of the change; each matched ladder holds the rows of the change in
  ascending order, rendered row by row; the orders are those of \<^verbatim>\<open>uo\<close> under their
  ids, in the order in which each id first occurs and with the last order of each id,
  every field taken from the payload. A part that the change omits is empty.
\<close>

theorem full_image_replaces_runner_wholesale:
  assumes "ob_orc ob = Some (pre @ oc # post)"
  shows
   "order_update_cache sd cds c ob pt =
      ebind (order_update_cache sd cds c (ob\<lparr>ob_orc := Some pre\<rparr>) pt) (\<lambda>c1.
      ebind (process_order_changes sd cds (obc_runners c1) [oc]) (\<lambda>rs2.
      ebind (process_order_changes sd cds rs2 post) (\<lambda>rs3. Inr (c1\<lparr>obc_runners := rs3\<rparr>)))) \<and>
    (oc_fullImage oc = Some True \<or> map_of rs1 (oc_id oc, (case oc_hc oc of None \<Rightarrow> 0 | Some h \<Rightarrow> h)) = None \<longrightarrow>
       (order_book_runner_init sd cds oc = Inl e \<longrightarrow>
          process_order_changes sd cds rs1 [oc] = Inl e) \<and>
       (order_book_runner_init sd cds oc = Inr r \<longrightarrow>
          process_order_changes sd cds rs1 [oc] =
            Inr (dict_set (oc_id oc, (case oc_hc oc of None \<Rightarrow> 0 | Some h \<Rightarrow> h)) r rs1) \<and>
          map_of (dict_set (oc_id oc, (case oc_hc oc of None \<Rightarrow> 0 | Some h \<Rightarrow> h)) r rs1)
            (oc_id oc, (case oc_hc oc of None \<Rightarrow> 0 | Some h \<Rightarrow> h)) = Some r \<and>
          (\<forall>k. k \<noteq> (oc_id oc, (case oc_hc oc of None \<Rightarrow> 0 | Some h \<Rightarrow> h)) \<longrightarrow>
             map_of (dict_set (oc_id oc, (case oc_hc oc of None \<Rightarrow> 0 | Some h \<Rightarrow> h)) r rs1) k = map_of rs1 k))) \<and>
    (order_book_runner_init sd cds oc = Inr r \<longrightarrow>
       obr_selection_id r = oc_id oc \<and>
       obr_handicap r = (case oc_hc oc of None \<Rightarrow> 0 | Some h \<Rightarrow> h) \<and>
       full_image r = oc_fullImage oc \<and>
       strategy_matches r = oc_smc oc \<and>
       prices (matched_lays r) = sort (case oc_ml oc of None \<Rightarrow> [] | Some l \<Rightarrow> l) \<and>
       mset (prices (matched_lays r)) = mset (case oc_ml oc of None \<Rightarrow> [] | Some l \<Rightarrow> l) \<and>
       deletion_select (matched_lays r) = 1 \<and>
       reverse (matched_lays r) = False \<and>
       list_all2 (\<lambda>v p. py_get v 0 = Inr (price p) \<and> py_get v 1 = Inr (size_val p))
         (prices (matched_lays r)) (serialise (matched_lays r)) \<and>
       prices (matched_backs r) = sort (case oc_mb oc of None \<Rightarrow> [] | Some l \<Rightarrow> l) \<and>
       mset (prices (matched_backs r)) = mset (case oc_mb oc of None \<Rightarrow> [] | Some l \<Rightarrow> l) \<and>
       deletion_select (matched_backs r) = 1 \<and>
       reverse (matched_backs r) = False \<and>
       list_all2 (\<lambda>v p. py_get v 0 = Inr (price p) \<and> py_get v 1 = Inr (size_val p))
         (prices (matched_backs r)) (serialise (matched_backs r)) \<and>
       map fst (unmatched_orders r) = rev (remdups (rev (map o_id (case oc_uo oc of None \<Rightarrow> [] | Some l \<Rightarrow> l)))) \<and>
       map_of (unmatched_orders r) =
         map_of (rev (map (\<lambda>i. (o_id i,
              \<lparr>uo_bet_id = o_id i, uo_price = o_p i, uo_size = o_s i,
               uo_bsp_liability = o_bsp i, uo_side = o_side i, uo_status = o_status i,
               uo_persistence_type = o_pt i, uo_order_type = o_ot i, uo_placed_date = sd (Some (o_pd i)),
               uo_placed_date_string = cds (sd (Some (o_pd i))), uo_matched_date = sd (o_md i), uo_matched_date_string = cds (sd (o_md i)),
               uo_average_price_matched = o_avp i, uo_size_matched = o_sm i, uo_size_remaining = o_sr i,
               uo_size_lapsed = o_sl i, uo_size_cancelled = o_sc i, uo_size_voided = o_sv i,
               uo_regulator_auth_code = o_rac i, uo_regulator_code = o_rc i, uo_reference_order = o_rfo i,
               uo_reference_strategy = o_rfs i, uo_lapsed_date = sd (o_ld i), uo_lapsed_date_string = cds (sd (o_ld i)),
               uo_lapse_status_reason_code = o_lsrc i, uo_cancelled_date = sd (o_cd i), uo_cancelled_date_string = cds (sd (o_cd i))\<rparr>))
            (case oc_uo oc of None \<Rightarrow> [] | Some l \<Rightarrow> l))) \<and>
       (distinct (map o_id (case oc_uo oc of None \<Rightarrow> [] | Some l \<Rightarrow> l)) \<longrightarrow>
         unmatched_orders r =
           map (\<lambda>i. (o_id i,
              \<lparr>uo_bet_id = o_id i, uo_price = o_p i, uo_size = o_s i,
               uo_bsp_liability = o_bsp i, uo_side = o_side i, uo_status = o_status i,
               uo_persistence_type = o_pt i, uo_order_type = o_ot i, uo_placed_date = sd (Some (o_pd i)),
               uo_placed_date_string = cds (sd (Some (o_pd i))), uo_matched_date = sd (o_md i), uo_matched_date_string = cds (sd (o_md i)),
               uo_average_price_matched = o_avp i, uo_size_matched = o_sm i, uo_size_remaining = o_sr i,
               uo_size_lapsed = o_sl i, uo_size_cancelled = o_sc i, uo_size_voided = o_sv i,
               uo_regulator_auth_code = o_rac i, uo_regulator_code = o_rc i, uo_reference_order = o_rfo i,
               uo_reference_strategy = o_rfs i, uo_lapsed_date = sd (o_ld i), uo_lapsed_date_string = cds (sd (o_ld i)),
               uo_lapse_status_reason_code = o_lsrc i, uo_cancelled_date = sd (o_cd i), uo_cancelled_date_string = cds (sd (o_cd i))\<rparr>))
            (case oc_uo oc of None \<Rightarrow> [] | Some l \<Rightarrow> l)) \<and>
       (oc_ml oc = None \<longrightarrow> prices (matched_lays r) = [] \<and> serialise (matched_lays r) = []) \<and>
       (oc_mb oc = None \<longrightarrow> prices (matched_backs r) = [] \<and> serialise (matched_backs r) = []) \<and>
       (oc_uo oc = None \<longrightarrow> unmatched_orders r = []))"
proof (intro conjI impI allI)
  let ?k = "(oc_id oc, (case oc_hc oc of None \<Rightarrow> 0 | Some h \<Rightarrow> h))"
  let ?ent = "(\<lambda>i. (o_id i,
              \<lparr>uo_bet_id = o_id i, uo_price = o_p i, uo_size = o_s i,
               uo_bsp_liability = o_bsp i, uo_side = o_side i, uo_status = o_status i,
               uo_persistence_type = o_pt i, uo_order_type = o_ot i, uo_placed_date = sd (Some (o_pd i)),
               uo_placed_date_string = cds (sd (Some (o_pd i))), uo_matched_date = sd (o_md i), uo_matched_date_string = cds (sd (o_md i)),
               uo_average_price_matched = o_avp i, uo_size_matched = o_sm i, uo_size_remaining = o_sr i,
               uo_size_lapsed = o_sl i, uo_size_cancelled = o_sc i, uo_size_voided = o_sv i,
               uo_regulator_auth_code = o_rac i, uo_regulator_code = o_rc i, uo_reference_order = o_rfo i,
               uo_reference_strategy = o_rfs i, uo_lapsed_date = sd (o_ld i), uo_lapsed_date_string = cds (sd (o_ld i)),
               uo_lapse_status_reason_code = o_lsrc i, uo_cancelled_date = sd (o_cd i), uo_cancelled_date_string = cds (sd (o_cd i))\<rparr>))"
  have ent: "?ent = (\<lambda>i. (o_id i, unmatched_order_init sd cds i))"
    by (simp add: unmatched_order_init_def)
  show "order_update_cache sd cds c ob pt =
      ebind (order_update_cache sd cds c (ob\<lparr>ob_orc := Some pre\<rparr>) pt) (\<lambda>c1.
      ebind (process_order_changes sd cds (obc_runners c1) [oc]) (\<lambda>rs2.
      ebind (process_order_changes sd cds rs2 post) (\<lambda>rs3. Inr (c1\<lparr>obc_runners := rs3\<rparr>))))"
    unfolding order_update_cache_split [OF assms, of sd cds c pt]
    by (simp only: process_order_changes_Cons [of sd cds _ oc post] ebind_assoc)
  {
    assume h: "oc_fullImage oc = Some True \<or> map_of rs1 (oc_id oc, (case oc_hc oc of None \<Rightarrow> 0 | Some h \<Rightarrow> h)) = None"
    then have step: "process_order_changes sd cds rs1 [oc] =
        ebind (order_book_runner_init sd cds oc) (\<lambda>r. Inr (dict_set ?k r rs1))"
      by (auto simp: Let_def)
    {
      assume "order_book_runner_init sd cds oc = Inl e"
      then show "process_order_changes sd cds rs1 [oc] = Inl e"
        unfolding step by (simp add: ebind_def)
    }
    {
      assume i: "order_book_runner_init sd cds oc = Inr r"
      show "process_order_changes sd cds rs1 [oc] = Inr (dict_set ?k r rs1)"
        unfolding step i by (simp add: ebind_def)
      show "map_of (dict_set ?k r rs1) ?k = Some r" by (simp add: map_of_dict_set)
      fix k
      assume "k \<noteq> ?k"
      then show "map_of (dict_set ?k r rs1) k = map_of rs1 k" by (simp add: map_of_dict_set)
    }
  }
  assume i: "order_book_runner_init sd cds oc = Inr r"
  note f = order_book_runner_init_Inr [OF i]
  from f show "obr_selection_id r = oc_id oc" by blast
  from f show "obr_handicap r = (case oc_hc oc of None \<Rightarrow> 0 | Some h \<Rightarrow> h)" by blast
  from f show "full_image r = oc_fullImage oc" by blast
  from f show "strategy_matches r = oc_smc oc" by blast
  from i obtain ml mb where ml: "available_init (oc_ml oc) 1 False = Inr ml"
    and mb: "available_init (oc_mb oc) 1 False = Inr mb"
    and rl: "matched_lays r = ml" and rb: "matched_backs r = mb"
    unfolding order_book_runner_init_def ebind_Inr by auto
  note aml = available_init_Inr [OF ml]
  from aml have pml: "prices (matched_lays r) = py_sort False (case oc_ml oc of None \<Rightarrow> [] | Some l \<Rightarrow> l)"
    unfolding rl by blast
  show "prices (matched_lays r) = sort (case oc_ml oc of None \<Rightarrow> [] | Some l \<Rightarrow> l)"
    unfolding pml by (simp add: py_sort_def)
  show "mset (prices (matched_lays r)) = mset (case oc_ml oc of None \<Rightarrow> [] | Some l \<Rightarrow> l)"
    unfolding pml by (rule mset_py_sort)
  from aml show "deletion_select (matched_lays r) = 1" unfolding rl by blast
  from aml show "reverse (matched_lays r) = False" unfolding rl by blast
  from aml have rrml: "render_rows 1 (prices (matched_lays r)) = Inr (serialise (matched_lays r))"
    unfolding rl by blast
  show "list_all2 (\<lambda>v p. py_get v 0 = Inr (price p) \<and> py_get v 1 = Inr (size_val p))
         (prices (matched_lays r)) (serialise (matched_lays r))"
    using rrml unfolding render_rows_iff by simp
  note amb = available_init_Inr [OF mb]
  from amb have pmb: "prices (matched_backs r) = py_sort False (case oc_mb oc of None \<Rightarrow> [] | Some l \<Rightarrow> l)"
    unfolding rb by blast
  show "prices (matched_backs r) = sort (case oc_mb oc of None \<Rightarrow> [] | Some l \<Rightarrow> l)"
    unfolding pmb by (simp add: py_sort_def)
  show "mset (prices (matched_backs r)) = mset (case oc_mb oc of None \<Rightarrow> [] | Some l \<Rightarrow> l)"
    unfolding pmb by (rule mset_py_sort)
  from amb show "deletion_select (matched_backs r) = 1" unfolding rb by blast
  from amb show "reverse (matched_backs r) = False" unfolding rb by blast
  from amb have rrmb: "render_rows 1 (prices (matched_backs r)) = Inr (serialise (matched_backs r))"
    unfolding rb by blast
  show "list_all2 (\<lambda>v p. py_get v 0 = Inr (price p) \<and> py_get v 1 = Inr (size_val p))
         (prices (matched_backs r)) (serialise (matched_backs r))"
    using rrmb unfolding render_rows_iff by simp
  from f have uo: "unmatched_orders r = store_orders sd cds (case oc_uo oc of None \<Rightarrow> [] | Some l \<Rightarrow> l) []"
    by (cases "oc_uo oc") (simp_all add: store_orders_def)
  show "map fst (unmatched_orders r) = rev (remdups (rev (map o_id (case oc_uo oc of None \<Rightarrow> [] | Some l \<Rightarrow> l))))"
    unfolding uo store_orders_def fold_dict_set_keys by simp
  show "map_of (unmatched_orders r) =
         map_of (rev (map ?ent
            (case oc_uo oc of None \<Rightarrow> [] | Some l \<Rightarrow> l)))"
    unfolding uo store_orders_def fold_dict_set_map_of ent by simp
  {
    assume d: "distinct (map o_id (case oc_uo oc of None \<Rightarrow> [] | Some l \<Rightarrow> l))"
    show "unmatched_orders r =
           map ?ent
            (case oc_uo oc of None \<Rightarrow> [] | Some l \<Rightarrow> l)"
      unfolding uo store_orders_def ent using fold_dict_set_distinct [OF d, of "[]"] by simp
  }
  { assume n: "oc_ml oc = None"
    show p: "prices (matched_lays r) = []" unfolding pml by (simp add: n py_sort_def)
    show "serialise (matched_lays r) = []" using rrml unfolding p by simp }
  { assume n: "oc_mb oc = None"
    show p: "prices (matched_backs r) = []" unfolding pmb by (simp add: n py_sort_def)
    show "serialise (matched_backs r) = []" using rrmb unfolding p by simp }
  { assume "oc_uo oc = None"
    then show "unmatched_orders r = []" unfolding uo by (simp add: store_orders_def) }
qed

lemmas order_eval_defs = order_update_cache_def order_book_runner_init_def merge_order_changes_def
  update_unmatched_def store_orders_def unmatched_order_init_def ebind_def Let_def
  available_init_def available_update_def available_sort_def py_sort_def py_get_def

theorem full_image_replaces_runner_wholesale_witness:
  "\<exists>c1 rs2 c'.
     order_update_cache (\<lambda>x. x) (\<lambda>_. None)
        (\<lparr>obc_datetime_updated = None, obc_publish_time = None, obc_market_id = Some ''1.101'',
         closed = None,
         obc_runners =
          [((5, 0),
            \<lparr>obr_selection_id = 5, full_image = None,
             matched_lays = \<lparr>prices = [[3, 4]], deletion_select = 1, reverse = False,
                serialise = [\<lparr>price = 3, size_val = 4\<rparr>]\<rparr>,
             matched_backs = \<lparr>prices = [[2, 10]], deletion_select = 1, reverse = False,
                serialise = [\<lparr>price = 2, size_val = 10\<rparr>]\<rparr>,
             unmatched_orders =
               [(''b1'',
                 \<lparr>uo_bet_id = ''b1'', uo_price = 2, uo_size = 10, uo_bsp_liability = None,
                  uo_side = ''B'', uo_status = ''E'', uo_persistence_type = None,
                  uo_order_type = ''L'', uo_placed_date = Some 1, uo_placed_date_string = None,
                  uo_matched_date = None, uo_matched_date_string = None,
                  uo_average_price_matched = None, uo_size_matched = 0, uo_size_remaining = 10,
                  uo_size_lapsed = 0, uo_size_cancelled = 0, uo_size_voided = 0,
                  uo_regulator_auth_code = None, uo_regulator_code = None,
                  uo_reference_order = ''a'', uo_reference_strategy = ''b'', uo_lapsed_date = None,
                  uo_lapsed_date_string = None, uo_lapse_status_reason_code = None,
                  uo_cancelled_date = None, uo_cancelled_date_string = None\<rparr>),
                (''b2'',
                 \<lparr>uo_bet_id = ''b2'', uo_price = 2, uo_size = 4, uo_bsp_liability = None,
                  uo_side = ''B'', uo_status = ''E'', uo_persistence_type = None,
                  uo_order_type = ''L'', uo_placed_date = Some 1, uo_placed_date_string = None,
                  uo_matched_date = None, uo_matched_date_string = None,
                  uo_average_price_matched = None, uo_size_matched = 0, uo_size_remaining = 4,
                  uo_size_lapsed = 0, uo_size_cancelled = 0, uo_size_voided = 0,
                  uo_regulator_auth_code = None, uo_regulator_code = None,
                  uo_reference_order = ''a'', uo_reference_strategy = ''b'', uo_lapsed_date = None,
                  uo_lapsed_date_string = None, uo_lapse_status_reason_code = None,
                  uo_cancelled_date = None, uo_cancelled_date_string = None\<rparr>)],
             obr_handicap = 0, strategy_matches = None\<rparr>)]\<rparr> :: int order_book_cache)
        \<lparr>ob_closed = None,
         ob_orc = Some [\<lparr>oc_id = 6, oc_fullImage = None, oc_ml = Some [[7, 1]], oc_mb = None,
           oc_uo = None, oc_hc = None, oc_smc = None\<rparr>]\<rparr> 9 = Inr c1 \<and>
     map fst (obc_runners c1) = [(5, 0), (6, 0)] \<and>
     map_of (obc_runners c1) (5, 0) =
       Some \<lparr>obr_selection_id = 5, full_image = None,
             matched_lays = \<lparr>prices = [[3, 4]], deletion_select = 1, reverse = False,
                serialise = [\<lparr>price = 3, size_val = 4\<rparr>]\<rparr>,
             matched_backs = \<lparr>prices = [[2, 10]], deletion_select = 1, reverse = False,
                serialise = [\<lparr>price = 2, size_val = 10\<rparr>]\<rparr>,
             unmatched_orders =
               [(''b1'',
                 \<lparr>uo_bet_id = ''b1'', uo_price = 2, uo_size = 10, uo_bsp_liability = None,
                  uo_side = ''B'', uo_status = ''E'', uo_persistence_type = None,
                  uo_order_type = ''L'', uo_placed_date = Some 1, uo_placed_date_string = None,
                  uo_matched_date = None, uo_matched_date_string = None,
                  uo_average_price_matched = None, uo_size_matched = 0, uo_size_remaining = 10,
                  uo_size_lapsed = 0, uo_size_cancelled = 0, uo_size_voided = 0,
                  uo_regulator_auth_code = None, uo_regulator_code = None,
                  uo_reference_order = ''a'', uo_reference_strategy = ''b'', uo_lapsed_date = None,
                  uo_lapsed_date_string = None, uo_lapse_status_reason_code = None,
                  uo_cancelled_date = None, uo_cancelled_date_string = None\<rparr>),
                (''b2'',
                 \<lparr>uo_bet_id = ''b2'', uo_price = 2, uo_size = 4, uo_bsp_liability = None,
                  uo_side = ''B'', uo_status = ''E'', uo_persistence_type = None,
                  uo_order_type = ''L'', uo_placed_date = Some 1, uo_placed_date_string = None,
                  uo_matched_date = None, uo_matched_date_string = None,
                  uo_average_price_matched = None, uo_size_matched = 0, uo_size_remaining = 4,
                  uo_size_lapsed = 0, uo_size_cancelled = 0, uo_size_voided = 0,
                  uo_regulator_auth_code = None, uo_regulator_code = None,
                  uo_reference_order = ''a'', uo_reference_strategy = ''b'', uo_lapsed_date = None,
                  uo_lapsed_date_string = None, uo_lapse_status_reason_code = None,
                  uo_cancelled_date = None, uo_cancelled_date_string = None\<rparr>)],
             obr_handicap = 0, strategy_matches = None\<rparr> \<and>
     order_book_runner_init (\<lambda>x. x) (\<lambda>_. None)
          \<lparr>oc_id = 5, oc_fullImage = Some True, oc_ml = Some [[3, 5], [1, 2]], oc_mb = None,
           oc_uo = Some [\<lparr>o_id = ''b1'', o_p = 2, o_s = 7, o_side = ''B'', o_status = ''E'',
                        o_ot = ''L'', o_pd = 1, o_sm = 0, o_sr = 7, o_sl = 0, o_sc = 0, o_sv = 0,
                        o_rfo = ''a'', o_rfs = ''b'', o_pt = None, o_md = None, o_avp = None,
                        o_bsp = None, o_ld = None, o_rac = None, o_rc = None, o_lsrc = None,
                        o_cd = None\<rparr>],
           oc_hc = None, oc_smc = None\<rparr> =
       Inr \<lparr>obr_selection_id = 5, full_image = Some True,
             matched_lays = \<lparr>prices = [[1, 2], [3, 5]], deletion_select = 1, reverse = False,
                serialise = [\<lparr>price = 1, size_val = 2\<rparr>, \<lparr>price = 3, size_val = 5\<rparr>]\<rparr>,
             matched_backs = \<lparr>prices = [], deletion_select = 1, reverse = False,
                serialise = []\<rparr>,
             unmatched_orders =
               [(''b1'',
                 \<lparr>uo_bet_id = ''b1'', uo_price = 2, uo_size = 7, uo_bsp_liability = None,
                  uo_side = ''B'', uo_status = ''E'', uo_persistence_type = None,
                  uo_order_type = ''L'', uo_placed_date = Some 1, uo_placed_date_string = None,
                  uo_matched_date = None, uo_matched_date_string = None,
                  uo_average_price_matched = None, uo_size_matched = 0, uo_size_remaining = 7,
                  uo_size_lapsed = 0, uo_size_cancelled = 0, uo_size_voided = 0,
                  uo_regulator_auth_code = None, uo_regulator_code = None,
                  uo_reference_order = ''a'', uo_reference_strategy = ''b'', uo_lapsed_date = None,
                  uo_lapsed_date_string = None, uo_lapse_status_reason_code = None,
                  uo_cancelled_date = None, uo_cancelled_date_string = None\<rparr>)],
             obr_handicap = 0, strategy_matches = None\<rparr> \<and>
     process_order_changes (\<lambda>x. x) (\<lambda>_. None) (obc_runners c1)
          [\<lparr>oc_id = 5, oc_fullImage = Some True, oc_ml = Some [[3, 5], [1, 2]], oc_mb = None,
           oc_uo = Some [\<lparr>o_id = ''b1'', o_p = 2, o_s = 7, o_side = ''B'', o_status = ''E'',
                        o_ot = ''L'', o_pd = 1, o_sm = 0, o_sr = 7, o_sl = 0, o_sc = 0, o_sv = 0,
                        o_rfo = ''a'', o_rfs = ''b'', o_pt = None, o_md = None, o_avp = None,
                        o_bsp = None, o_ld = None, o_rac = None, o_rc = None, o_lsrc = None,
                        o_cd = None\<rparr>],
           oc_hc = None, oc_smc = None\<rparr>] = Inr rs2 \<and>
     map fst rs2 = [(5, 0), (6, 0)] \<and>
     map_of rs2 (5, 0) =
       Some \<lparr>obr_selection_id = 5, full_image = Some True,
             matched_lays = \<lparr>prices = [[1, 2], [3, 5]], deletion_select = 1, reverse = False,
                serialise = [\<lparr>price = 1, size_val = 2\<rparr>, \<lparr>price = 3, size_val = 5\<rparr>]\<rparr>,
             matched_backs = \<lparr>prices = [], deletion_select = 1, reverse = False,
                serialise = []\<rparr>,
             unmatched_orders =
               [(''b1'',
                 \<lparr>uo_bet_id = ''b1'', uo_price = 2, uo_size = 7, uo_bsp_liability = None,
                  uo_side = ''B'', uo_status = ''E'', uo_persistence_type = None,
                  uo_order_type = ''L'', uo_placed_date = Some 1, uo_placed_date_string = None,
                  uo_matched_date = None, uo_matched_date_string = None,
                  uo_average_price_matched = None, uo_size_matched = 0, uo_size_remaining = 7,
                  uo_size_lapsed = 0, uo_size_cancelled = 0, uo_size_voided = 0,
                  uo_regulator_auth_code = None, uo_regulator_code = None,
                  uo_reference_order = ''a'', uo_reference_strategy = ''b'', uo_lapsed_date = None,
                  uo_lapsed_date_string = None, uo_lapse_status_reason_code = None,
                  uo_cancelled_date = None, uo_cancelled_date_string = None\<rparr>)],
             obr_handicap = 0, strategy_matches = None\<rparr> \<and>
     map_of rs2 (6, 0) = map_of (obc_runners c1) (6, 0) \<and>
     order_update_cache (\<lambda>x. x) (\<lambda>_. None)
        \<lparr>obc_datetime_updated = None, obc_publish_time = None, obc_market_id = Some ''1.101'',
         closed = None,
         obc_runners =
          [((5, 0),
            \<lparr>obr_selection_id = 5, full_image = None,
             matched_lays = \<lparr>prices = [[3, 4]], deletion_select = 1, reverse = False,
                serialise = [\<lparr>price = 3, size_val = 4\<rparr>]\<rparr>,
             matched_backs = \<lparr>prices = [[2, 10]], deletion_select = 1, reverse = False,
                serialise = [\<lparr>price = 2, size_val = 10\<rparr>]\<rparr>,
             unmatched_orders =
               [(''b1'',
                 \<lparr>uo_bet_id = ''b1'', uo_price = 2, uo_size = 10, uo_bsp_liability = None,
                  uo_side = ''B'', uo_status = ''E'', uo_persistence_type = None,
                  uo_order_type = ''L'', uo_placed_date = Some 1, uo_placed_date_string = None,
                  uo_matched_date = None, uo_matched_date_string = None,
                  uo_average_price_matched = None, uo_size_matched = 0, uo_size_remaining = 10,
                  uo_size_lapsed = 0, uo_size_cancelled = 0, uo_size_voided = 0,
                  uo_regulator_auth_code = None, uo_regulator_code = None,
                  uo_reference_order = ''a'', uo_reference_strategy = ''b'', uo_lapsed_date = None,
                  uo_lapsed_date_string = None, uo_lapse_status_reason_code = None,
                  uo_cancelled_date = None, uo_cancelled_date_string = None\<rparr>),
                (''b2'',
                 \<lparr>uo_bet_id = ''b2'', uo_price = 2, uo_size = 4, uo_bsp_liability = None,
                  uo_side = ''B'', uo_status = ''E'', uo_persistence_type = None,
                  uo_order_type = ''L'', uo_placed_date = Some 1, uo_placed_date_string = None,
                  uo_matched_date = None, uo_matched_date_string = None,
                  uo_average_price_matched = None, uo_size_matched = 0, uo_size_remaining = 4,
                  uo_size_lapsed = 0, uo_size_cancelled = 0, uo_size_voided = 0,
                  uo_regulator_auth_code = None, uo_regulator_code = None,
                  uo_reference_order = ''a'', uo_reference_strategy = ''b'', uo_lapsed_date = None,
                  uo_lapsed_date_string = None, uo_lapse_status_reason_code = None,
                  uo_cancelled_date = None, uo_cancelled_date_string = None\<rparr>)],
             obr_handicap = 0, strategy_matches = None\<rparr>)]\<rparr>
        \<lparr>ob_closed = None,
         ob_orc = Some [\<lparr>oc_id = 6, oc_fullImage = None, oc_ml = Some [[7, 1]], oc_mb = None,
           oc_uo = None, oc_hc = None, oc_smc = None\<rparr>,
          \<lparr>oc_id = 5, oc_fullImage = Some True, oc_ml = Some [[3, 5], [1, 2]], oc_mb = None,
           oc_uo = Some [\<lparr>o_id = ''b1'', o_p = 2, o_s = 7, o_side = ''B'', o_status = ''E'',
                        o_ot = ''L'', o_pd = 1, o_sm = 0, o_sr = 7, o_sl = 0, o_sc = 0, o_sv = 0,
                        o_rfo = ''a'', o_rfs = ''b'', o_pt = None, o_md = None, o_avp = None,
                        o_bsp = None, o_ld = None, o_rac = None, o_rc = None, o_lsrc = None,
                        o_cd = None\<rparr>],
           oc_hc = None, oc_smc = None\<rparr>,
          \<lparr>oc_id = 6, oc_fullImage = None, oc_ml = None, oc_mb = Some [[4, 1]],
           oc_uo = None, oc_hc = None, oc_smc = None\<rparr>]\<rparr> 9 = Inr c' \<and>
     map fst (obc_runners c') = [(5, 0), (6, 0)] \<and>
     map_of (obc_runners c') (5, 0) =
       Some \<lparr>obr_selection_id = 5, full_image = Some True,
             matched_lays = \<lparr>prices = [[1, 2], [3, 5]], deletion_select = 1, reverse = False,
                serialise = [\<lparr>price = 1, size_val = 2\<rparr>, \<lparr>price = 3, size_val = 5\<rparr>]\<rparr>,
             matched_backs = \<lparr>prices = [], deletion_select = 1, reverse = False,
                serialise = []\<rparr>,
             unmatched_orders =
               [(''b1'',
                 \<lparr>uo_bet_id = ''b1'', uo_price = 2, uo_size = 7, uo_bsp_liability = None,
                  uo_side = ''B'', uo_status = ''E'', uo_persistence_type = None,
                  uo_order_type = ''L'', uo_placed_date = Some 1, uo_placed_date_string = None,
                  uo_matched_date = None, uo_matched_date_string = None,
                  uo_average_price_matched = None, uo_size_matched = 0, uo_size_remaining = 7,
                  uo_size_lapsed = 0, uo_size_cancelled = 0, uo_size_voided = 0,
                  uo_regulator_auth_code = None, uo_regulator_code = None,
                  uo_reference_order = ''a'', uo_reference_strategy = ''b'', uo_lapsed_date = None,
                  uo_lapsed_date_string = None, uo_lapse_status_reason_code = None,
                  uo_cancelled_date = None, uo_cancelled_date_string = None\<rparr>)],
             obr_handicap = 0, strategy_matches = None\<rparr> \<and>
     map_of (obc_runners c') (6, 0) =
       Some \<lparr>obr_selection_id = 6, full_image = None,
             matched_lays = \<lparr>prices = [[7, 1]], deletion_select = 1, reverse = False,
                serialise = [\<lparr>price = 7, size_val = 1\<rparr>]\<rparr>,
             matched_backs = \<lparr>prices = [[4, 1]], deletion_select = 1, reverse = False,
                serialise = [\<lparr>price = 4, size_val = 1\<rparr>]\<rparr>,
             unmatched_orders =
               [],
             obr_handicap = 0, strategy_matches = None\<rparr>"
proof -
  let ?sd = "(\<lambda>x. x) :: int option \<Rightarrow> int option"
  let ?cds = "(\<lambda>_. None) :: int option \<Rightarrow> string option"
  let ?ocp = "\<lparr>oc_id = 6, oc_fullImage = None, oc_ml = Some [[7, 1]], oc_mb = None,
           oc_uo = None, oc_hc = None, oc_smc = None\<rparr>"
  let ?oc = "\<lparr>oc_id = 5, oc_fullImage = Some True, oc_ml = Some [[3, 5], [1, 2]], oc_mb = None,
           oc_uo = Some [\<lparr>o_id = ''b1'', o_p = 2, o_s = 7, o_side = ''B'', o_status = ''E'',
                        o_ot = ''L'', o_pd = 1, o_sm = 0, o_sr = 7, o_sl = 0, o_sc = 0, o_sv = 0,
                        o_rfo = ''a'', o_rfs = ''b'', o_pt = None, o_md = None, o_avp = None,
                        o_bsp = None, o_ld = None, o_rac = None, o_rc = None, o_lsrc = None,
                        o_cd = None\<rparr>],
           oc_hc = None, oc_smc = None\<rparr>"
  let ?ocq = "\<lparr>oc_id = 6, oc_fullImage = None, oc_ml = None, oc_mb = Some [[4, 1]],
           oc_uo = None, oc_hc = None, oc_smc = None\<rparr>"
  let ?prior = "\<lparr>obr_selection_id = 5, full_image = None,
             matched_lays = \<lparr>prices = [[3, 4]], deletion_select = 1, reverse = False,
                serialise = [\<lparr>price = 3, size_val = 4\<rparr>]\<rparr>,
             matched_backs = \<lparr>prices = [[2, 10]], deletion_select = 1, reverse = False,
                serialise = [\<lparr>price = 2, size_val = 10\<rparr>]\<rparr>,
             unmatched_orders =
               [(''b1'',
                 \<lparr>uo_bet_id = ''b1'', uo_price = 2, uo_size = 10, uo_bsp_liability = None,
                  uo_side = ''B'', uo_status = ''E'', uo_persistence_type = None,
                  uo_order_type = ''L'', uo_placed_date = Some 1, uo_placed_date_string = None,
                  uo_matched_date = None, uo_matched_date_string = None,
                  uo_average_price_matched = None, uo_size_matched = 0, uo_size_remaining = 10,
                  uo_size_lapsed = 0, uo_size_cancelled = 0, uo_size_voided = 0,
                  uo_regulator_auth_code = None, uo_regulator_code = None,
                  uo_reference_order = ''a'', uo_reference_strategy = ''b'', uo_lapsed_date = None,
                  uo_lapsed_date_string = None, uo_lapse_status_reason_code = None,
                  uo_cancelled_date = None, uo_cancelled_date_string = None\<rparr>),
                (''b2'',
                 \<lparr>uo_bet_id = ''b2'', uo_price = 2, uo_size = 4, uo_bsp_liability = None,
                  uo_side = ''B'', uo_status = ''E'', uo_persistence_type = None,
                  uo_order_type = ''L'', uo_placed_date = Some 1, uo_placed_date_string = None,
                  uo_matched_date = None, uo_matched_date_string = None,
                  uo_average_price_matched = None, uo_size_matched = 0, uo_size_remaining = 4,
                  uo_size_lapsed = 0, uo_size_cancelled = 0, uo_size_voided = 0,
                  uo_regulator_auth_code = None, uo_regulator_code = None,
                  uo_reference_order = ''a'', uo_reference_strategy = ''b'', uo_lapsed_date = None,
                  uo_lapsed_date_string = None, uo_lapse_status_reason_code = None,
                  uo_cancelled_date = None, uo_cancelled_date_string = None\<rparr>)],
             obr_handicap = 0, strategy_matches = None\<rparr> :: int order_book_runner"
  let ?new = "\<lparr>obr_selection_id = 5, full_image = Some True,
             matched_lays = \<lparr>prices = [[1, 2], [3, 5]], deletion_select = 1, reverse = False,
                serialise = [\<lparr>price = 1, size_val = 2\<rparr>, \<lparr>price = 3, size_val = 5\<rparr>]\<rparr>,
             matched_backs = \<lparr>prices = [], deletion_select = 1, reverse = False,
                serialise = []\<rparr>,
             unmatched_orders =
               [(''b1'',
                 \<lparr>uo_bet_id = ''b1'', uo_price = 2, uo_size = 7, uo_bsp_liability = None,
                  uo_side = ''B'', uo_status = ''E'', uo_persistence_type = None,
                  uo_order_type = ''L'', uo_placed_date = Some 1, uo_placed_date_string = None,
                  uo_matched_date = None, uo_matched_date_string = None,
                  uo_average_price_matched = None, uo_size_matched = 0, uo_size_remaining = 7,
                  uo_size_lapsed = 0, uo_size_cancelled = 0, uo_size_voided = 0,
                  uo_regulator_auth_code = None, uo_regulator_code = None,
                  uo_reference_order = ''a'', uo_reference_strategy = ''b'', uo_lapsed_date = None,
                  uo_lapsed_date_string = None, uo_lapse_status_reason_code = None,
                  uo_cancelled_date = None, uo_cancelled_date_string = None\<rparr>)],
             obr_handicap = 0, strategy_matches = None\<rparr> :: int order_book_runner"
  let ?r6 = "\<lparr>obr_selection_id = 6, full_image = None,
             matched_lays = \<lparr>prices = [[7, 1]], deletion_select = 1, reverse = False,
                serialise = [\<lparr>price = 7, size_val = 1\<rparr>]\<rparr>,
             matched_backs = \<lparr>prices = [[4, 1]], deletion_select = 1, reverse = False,
                serialise = [\<lparr>price = 4, size_val = 1\<rparr>]\<rparr>,
             unmatched_orders =
               [],
             obr_handicap = 0, strategy_matches = None\<rparr> :: int order_book_runner"
  let ?c = "\<lparr>obc_datetime_updated = None, obc_publish_time = None, obc_market_id = Some ''1.101'',
         closed = None, obc_runners = [((5, 0), ?prior)]\<rparr> :: int order_book_cache"
  let ?ob = "\<lparr>ob_closed = None, ob_orc = Some [?ocp, ?oc, ?ocq]\<rparr>"
  let ?obp = "\<lparr>ob_closed = None, ob_orc = Some [?ocp]\<rparr>"
  have h: "ob_orc ?ob = Some ([?ocp] @ ?oc # [?ocq])" by simp
  have obp: "?ob\<lparr>ob_orc := Some [?ocp]\<rparr> = ?obp" by simp
  note t = full_image_replaces_runner_wholesale [OF h, where sd = ?sd and cds = ?cds]
  obtain c1 where u1: "order_update_cache ?sd ?cds ?c ?obp 9 = Inr c1"
    by (simp add: order_eval_defs)
  have u1': "order_update_cache ?sd ?cds ?c (?ob\<lparr>ob_orc := Some [?ocp]\<rparr>) 9 = Inr c1"
    unfolding obp by (rule u1)
  have k1: "map fst (obc_runners c1) = [(5, 0), (6, 0)]"
    using u1 by (auto simp: order_eval_defs)
  have p1: "map_of (obc_runners c1) (5, 0) = Some ?prior"
    using u1 by (auto simp: order_eval_defs)
  have i: "order_book_runner_init ?sd ?cds ?oc = Inr ?new"
    by (simp add: order_eval_defs)
  have hyp: "oc_fullImage ?oc = Some True \<or> map_of (obc_runners c1)
      (oc_id ?oc, (case oc_hc ?oc of None \<Rightarrow> 0 | Some h \<Rightarrow> h)) = None"
    by simp
  note t2 = t [THEN conjunct2, THEN conjunct1, THEN mp, OF hyp, THEN conjunct2, THEN mp, OF i]
  define rs2 where "rs2 = dict_set (5 :: rat, 0 :: rat) ?new (obc_runners c1)"
  have step: "process_order_changes ?sd ?cds (obc_runners c1) [?oc] = Inr rs2"
    using t2 [THEN conjunct1] by (simp add: rs2_def)
  have n2: "map_of rs2 (5, 0) = Some ?new"
    using t2 [THEN conjunct2, THEN conjunct1] by (simp add: rs2_def)
  have o2: "map_of rs2 (6, 0) = map_of (obc_runners c1) (6, 0)"
    using t2 [THEN conjunct2, THEN conjunct2, THEN spec, of "(6, 0)"] by (simp add: rs2_def)
  have k2: "map fst rs2 = [(5, 0), (6, 0)]"
    using k1 by (simp add: rs2_def keys_dict_set)
  have e: "order_update_cache ?sd ?cds ?c ?ob 9 =
      ebind (process_order_changes ?sd ?cds rs2 [?ocq]) (\<lambda>rs3. Inr (c1\<lparr>obc_runners := rs3\<rparr>))"
    using t [THEN conjunct1, of ?c 9] u1' step by (simp only: ebind_def sum.case)
  obtain c' where u: "order_update_cache ?sd ?cds ?c ?ob 9 = Inr c'"
    and k3: "map fst (obc_runners c') = [(5, 0), (6, 0)]"
    and n3: "map_of (obc_runners c') (5, 0) = Some ?new"
    and r3: "map_of (obc_runners c') (6, 0) = Some ?r6"
    unfolding e using u1 by (auto simp: order_eval_defs rs2_def)
  show ?thesis
    apply (rule exI [of _ c1], rule exI [of _ rs2], rule exI [of _ c'])
    apply (intro conjI)
               apply (rule u1)
              apply (rule k1)
             apply (rule p1)
            apply (rule i)
           apply (rule step)
          apply (rule k2)
         apply (rule n2)
        apply (rule o2)
       apply (rule u)
      apply (rule k3)
     apply (rule n3)
    apply (rule r3)
    done
qed

section \<open>Properties of the race cache\<close>

lemma race_runner_dict_Inr:
  "race_runner_dict rs n m = Inr m' \<Longrightarrow>
     (\<forall>r\<in>set rs. \<exists>k. payload_id (change r) = Inr k) \<and>
     (\<forall>k j. m' k = Some j \<longrightarrow>
        m k = Some j \<or>
        (n \<le> j \<and> j < n + length rs \<and> payload_id (change (rs ! (j - n))) = Inr k)) \<and>
     (\<forall>k. m' k = None \<longrightarrow> m k = None \<and> (\<forall>r\<in>set rs. payload_id (change r) \<noteq> Inr k))"
proof (induction rs arbitrary: n m)
  case Nil
  then show ?case by simp
next
  case (Cons r rs)
  from Cons.prems obtain k0 where k0: "payload_id (change r) = Inr k0"
    and rest: "race_runner_dict rs (Suc n) (m(k0 \<mapsto> n)) = Inr m'"
    by (auto split: sum.splits)
  note ih = Cons.IH [OF rest]
  have a: "\<forall>r'\<in>set (r # rs). \<exists>k. payload_id (change r') = Inr k" using ih k0 by simp
  have b: "\<forall>k j. m' k = Some j \<longrightarrow>
        m k = Some j \<or>
        (n \<le> j \<and> j < n + length (r # rs) \<and> payload_id (change ((r # rs) ! (j - n))) = Inr k)"
  proof (intro allI impI)
    fix k j assume "m' k = Some j"
    with ih have d: "(m(k0 \<mapsto> n)) k = Some j \<or>
        (Suc n \<le> j \<and> j < Suc n + length rs \<and> payload_id (change (rs ! (j - Suc n))) = Inr k)"
      by blast
    show "m k = Some j \<or>
        (n \<le> j \<and> j < n + length (r # rs) \<and> payload_id (change ((r # rs) ! (j - n))) = Inr k)"
      using d
    proof
      assume "(m(k0 \<mapsto> n)) k = Some j"
      then show ?thesis using k0 by (auto split: if_splits)
    next
      assume s: "Suc n \<le> j \<and> j < Suc n + length rs \<and>
          payload_id (change (rs ! (j - Suc n))) = Inr k"
      then have "(r # rs) ! (j - n) = rs ! (j - Suc n)"
        by (metis Suc_diff_Suc Suc_le_lessD nth_Cons_Suc)
      then show ?thesis using s by auto
    qed
  qed
  have c: "\<forall>k. m' k = None \<longrightarrow> m k = None \<and> (\<forall>r'\<in>set (r # rs). payload_id (change r') \<noteq> Inr k)"
  proof (intro allI impI)
    fix k assume "m' k = None"
    with ih have "(m(k0 \<mapsto> n)) k = None" "\<forall>r\<in>set rs. payload_id (change r) \<noteq> Inr k" by blast+
    then show "m k = None \<and> (\<forall>r'\<in>set (r # rs). payload_id (change r') \<noteq> Inr k)"
      using k0 by (auto split: if_splits)
  qed
  from a b c show ?case by blast
qed

lemma race_runner_dict_total:
  "\<forall>r\<in>set rs. \<exists>k. payload_id (change r) = Inr k \<Longrightarrow> \<exists>m'. race_runner_dict rs n m = Inr m'"
  by (induction rs arbitrary: n m) auto

lemma apply_runner_updates_total:
  "\<forall>u\<in>set us. \<exists>k. payload_id u = Inr k \<Longrightarrow> \<exists>rs'. apply_runner_updates m us rs = Inr rs'"
proof (induction us arbitrary: rs)
  case Nil
  then show ?case by simp
next
  case (Cons u us)
  then obtain k where k: "payload_id u = Inr k" by auto
  show ?case using Cons.IH Cons.prems k by (cases "m k") auto
qed

lemma apply_runner_updates_Inr:
  assumes "apply_runner_updates m us rs = Inr rs'"
    and "\<forall>k j. m k = Some j \<longrightarrow> j < n0 \<and> payload_id (change (rs ! j)) = Inr k"
    and "n0 \<le> length rs"
  shows "(\<forall>u\<in>set us. \<exists>k. payload_id u = Inr k) \<and>
         length rs \<le> length rs' \<and>
         (\<forall>i. n0 \<le> i \<and> i < length rs \<longrightarrow> rs' ! i = rs ! i) \<and>
         map (\<lambda>r. payload_id (change r)) (take (length rs) rs') =
           map (\<lambda>r. payload_id (change r)) rs \<and>
         drop (length rs) rs' =
           map (\<lambda>u. \<lparr>change = u\<rparr>) (filter (\<lambda>u. \<forall>k. payload_id u = Inr k \<longrightarrow> m k = None) us) \<and>
         (\<forall>x\<in>set rs'. x \<in> set rs \<or> change x \<in> set us)"
  using assms
proof (induction us arbitrary: rs)
  case Nil
  then show ?case by simp
next
  case (Cons u us)
  from Cons.prems(1) obtain k where k: "payload_id u = Inr k" by (auto split: sum.splits)
  show ?case
  proof (cases "m k")
    case (Some i)
    let ?rs1 = "rs[i := \<lparr>change = u\<rparr>]"
    have il: "i < n0" and ik: "payload_id (change (rs ! i)) = Inr k"
      using Cons.prems(2) Some by auto
    have r: "apply_runner_updates m us ?rs1 = Inr rs'" using Cons.prems(1) k Some by simp
    have inv: "\<forall>k j. m k = Some j \<longrightarrow> j < n0 \<and> payload_id (change (?rs1 ! j)) = Inr k"
    proof (intro allI impI)
      fix k' j assume mj: "m k' = Some j"
      then have j: "j < n0" "payload_id (change (rs ! j)) = Inr k'" using Cons.prems(2) by auto
      show "j < n0 \<and> payload_id (change (?rs1 ! j)) = Inr k'"
      proof (cases "j = i")
        case True
        then have "k' = k" using j ik by simp
        then show ?thesis using True j il Cons.prems(3) k by simp
      next
        case False
        then show ?thesis using j by simp
      qed
    qed
    have len: "n0 \<le> length ?rs1" using Cons.prems(3) by simp
    note ih = Cons.IH [OF r inv len]
    have pids: "map (\<lambda>r. payload_id (change r)) ?rs1 = map (\<lambda>r. payload_id (change r)) rs"
      using ik k il Cons.prems(3) by (simp add: map_update list_update_same_conv)
    have f: "filter (\<lambda>u. \<forall>k. payload_id u = Inr k \<longrightarrow> m k = None) (u # us) =
        filter (\<lambda>u. \<forall>k. payload_id u = Inr k \<longrightarrow> m k = None) us"
      using k Some by simp
    have "\<forall>u'\<in>set (u # us). \<exists>k. payload_id u' = Inr k" using ih k by simp
    moreover have "length rs \<le> length rs'" using ih by simp
    moreover have "\<forall>j. n0 \<le> j \<and> j < length rs \<longrightarrow> rs' ! j = rs ! j"
      using ih il by simp
    moreover have "map (\<lambda>r. payload_id (change r)) (take (length rs) rs') =
           map (\<lambda>r. payload_id (change r)) rs" using ih pids by simp
    moreover have "drop (length rs) rs' =
           map (\<lambda>u. \<lparr>change = u\<rparr>)
             (filter (\<lambda>u. \<forall>k. payload_id u = Inr k \<longrightarrow> m k = None) (u # us))"
      unfolding f using ih by simp
    moreover have "\<forall>x\<in>set rs'. x \<in> set rs \<or> change x \<in> set (u # us)"
    proof
      fix x assume "x \<in> set rs'"
      with ih have "x \<in> set ?rs1 \<or> change x \<in> set us" by blast
      moreover have "set ?rs1 \<subseteq> insert \<lparr>change = u\<rparr> (set rs)" by (rule set_update_subset_insert)
      ultimately show "x \<in> set rs \<or> change x \<in> set (u # us)" by auto
    qed
    ultimately show ?thesis by blast
  next
    case None
    let ?rs1 = "rs @ [\<lparr>change = u\<rparr>]"
    have r: "apply_runner_updates m us ?rs1 = Inr rs'" using Cons.prems(1) k None by simp
    have inv: "\<forall>k j. m k = Some j \<longrightarrow> j < n0 \<and> payload_id (change (?rs1 ! j)) = Inr k"
    proof (intro allI impI)
      fix k' j assume "m k' = Some j"
      then have j: "j < n0" "payload_id (change (rs ! j)) = Inr k'" using Cons.prems(2) by auto
      then have "j < length rs" using Cons.prems(3) by simp
      then show "j < n0 \<and> payload_id (change (?rs1 ! j)) = Inr k'"
        using j by (simp add: nth_append)
    qed
    have len: "n0 \<le> length ?rs1" using Cons.prems(3) by simp
    note ih = Cons.IH [OF r inv len]
    have l': "length rs < length rs'" using ih by simp
    have at: "rs' ! length rs = \<lparr>change = u\<rparr>"
      using ih Cons.prems(3) by (metis length_append_singleton lessI nth_append_length)
    have f: "filter (\<lambda>u. \<forall>k. payload_id u = Inr k \<longrightarrow> m k = None) (u # us) =
        u # filter (\<lambda>u. \<forall>k. payload_id u = Inr k \<longrightarrow> m k = None) us"
      using k None by simp
    have tk: "take (length rs) (take (length ?rs1) rs') = take (length rs) rs'"
      by (simp add: min_def)
    have "\<forall>u'\<in>set (u # us). \<exists>k. payload_id u' = Inr k" using ih k by simp
    moreover have "length rs \<le> length rs'" using l' by simp
    moreover have "\<forall>j. n0 \<le> j \<and> j < length rs \<longrightarrow> rs' ! j = rs ! j"
      using ih by (auto simp: nth_append)
    moreover have "map (\<lambda>r. payload_id (change r)) (take (length rs) rs') =
           map (\<lambda>r. payload_id (change r)) rs"
    proof -
      from ih have "map (\<lambda>r. payload_id (change r)) (take (length ?rs1) rs') =
           map (\<lambda>r. payload_id (change r)) ?rs1" by blast
      then have "take (length rs) (map (\<lambda>r. payload_id (change r)) (take (length ?rs1) rs')) =
           take (length rs) (map (\<lambda>r. payload_id (change r)) ?rs1)" by simp
      then show ?thesis unfolding take_map tk by simp
    qed
    moreover have "drop (length rs) rs' =
           map (\<lambda>u. \<lparr>change = u\<rparr>)
             (filter (\<lambda>u. \<forall>k. payload_id u = Inr k \<longrightarrow> m k = None) (u # us))"
    proof -
      have "drop (length rs) rs' = rs' ! length rs # drop (Suc (length rs)) rs'"
        using l' by (simp add: Cons_nth_drop_Suc)
      moreover have "drop (Suc (length rs)) rs' =
          map (\<lambda>u. \<lparr>change = u\<rparr>) (filter (\<lambda>u. \<forall>k. payload_id u = Inr k \<longrightarrow> m k = None) us)"
        using ih by simp
      ultimately show ?thesis unfolding f using at by simp
    qed
    moreover have "\<forall>x\<in>set rs'. x \<in> set rs \<or> change x \<in> set (u # us)"
    proof
      fix x assume "x \<in> set rs'"
      with ih have "x \<in> set ?rs1 \<or> change x \<in> set us" by blast
      then show "x \<in> set rs \<or> change x \<in> set (u # us)" by auto
    qed
    ultimately show ?thesis by blast
  qed
qed

lemma race_update_cache_Inr:
  assumes "race_update_cache sd c \<lparr>ru_rpc = p, ru_rrc = Some us\<rparr> pt = Inr c'"
  shows "\<exists>m. race_runner_dict (rrc c) 0 Map.empty = Inr m \<and>
             apply_runner_updates m us (rrc c) = Inr (rrc c')"
proof -
  let ?c2 = "(case p of
       None \<Rightarrow> c\<lparr>race_datetime_updated := sd (Some pt), race_publish_time := Some pt,
                 race_streaming_update := Some \<lparr>ru_rpc = p, ru_rrc = Some us\<rparr>\<rparr>
     | Some v \<Rightarrow> c\<lparr>race_datetime_updated := sd (Some pt), race_publish_time := Some pt,
                 race_streaming_update := Some \<lparr>ru_rpc = p, ru_rrc = Some us\<rparr>, rpc := v\<rparr>)"
  have rs: "rrc ?c2 = rrc c" by (cases p) simp_all
  have eq: "race_update_cache sd c \<lparr>ru_rpc = p, ru_rrc = Some us\<rparr> pt =
      ebind (race_runner_dict (rrc c) 0 Map.empty) (\<lambda>m.
      ebind (apply_runner_updates m us (rrc c)) (\<lambda>rs. Inr (?c2\<lparr>rrc := rs\<rparr>)))"
    unfolding race_update_cache_def Let_def by (cases p) simp_all
  from assms [unfolded eq ebind_Inr] obtain m rs where
    "race_runner_dict (rrc c) 0 Map.empty = Inr m"
    "apply_runner_updates m us (rrc c) = Inr rs" "Inr (?c2\<lparr>rrc := rs\<rparr>) = (Inr c' :: error + 'a race_cache)"
    by blast
  moreover from this(3) have "rrc c' = rs" by auto
  ultimately show ?thesis by simp
qed

lemma race_update_cache_total:
  assumes "\<forall>r\<in>set (rrc c). \<exists>k. payload_id (change r) = Inr k"
    and "\<forall>u\<in>set us. \<exists>k. payload_id u = Inr k"
  shows "\<exists>c1. race_update_cache sd c \<lparr>ru_rpc = p, ru_rrc = Some us\<rparr> pt = Inr c1"
proof -
  from race_runner_dict_total [OF assms(1)] obtain m where
    m: "race_runner_dict (rrc c) 0 Map.empty = Inr m" by blast
  from apply_runner_updates_total [OF assms(2)] obtain rs' where
    a: "apply_runner_updates m us (rrc c) = Inr rs'" by blast
  show ?thesis unfolding race_update_cache_def Let_def
    using m a by (cases p) (simp_all add: ebind_def)
qed

lemma race_runner_dict_snoc:
  "race_runner_dict (rs @ [r]) n m =
     ebind (race_runner_dict rs n m) (\<lambda>m1.
       case payload_id (change r) of
         Inl e \<Rightarrow> Inl e
       | Inr k \<Rightarrow> Inr (m1(k \<mapsto> n + length rs)))"
proof (induction rs arbitrary: n m)
  case Nil
  show ?case by (simp add: ebind_def split: sum.splits)
next
  case (Cons a rs)
  show ?case
  proof (cases "payload_id (change a)")
    case (Inl e)
    then show ?thesis by (simp add: ebind_def)
  next
    case (Inr k)
    have "race_runner_dict ((a # rs) @ [r]) n m =
        race_runner_dict (rs @ [r]) (Suc n) (m(k \<mapsto> n))"
      using Inr by simp
    also have "\<dots> = ebind (race_runner_dict rs (Suc n) (m(k \<mapsto> n))) (\<lambda>m1.
       case payload_id (change r) of
         Inl e \<Rightarrow> Inl e
       | Inr k \<Rightarrow> Inr (m1(k \<mapsto> Suc n + length rs)))"
      by (rule Cons.IH)
    also have "race_runner_dict rs (Suc n) (m(k \<mapsto> n)) = race_runner_dict (a # rs) n m"
      using Inr by simp
    finally show ?thesis by (simp cong: sum.case_cong)
  qed
qed

lemma race_runner_dict_last:
  "race_runner_dict rs 0 Map.empty = Inr m \<Longrightarrow>
     (m k = Some j) =
     (j < length rs \<and> payload_id (change (rs ! j)) = Inr k \<and>
      (\<forall>i. j < i \<and> i < length rs \<longrightarrow> payload_id (change (rs ! i)) \<noteq> Inr k))"
proof (induction rs arbitrary: m k j rule: rev_induct)
  case Nil
  then show ?case by auto
next
  case (snoc r rs)
  from snoc.prems [unfolded race_runner_dict_snoc ebind_Inr]
  obtain m1 where m1: "race_runner_dict rs 0 Map.empty = Inr m1"
    and c: "(case payload_id (change r) of
               Inl e \<Rightarrow> Inl e
             | Inr k \<Rightarrow> Inr (m1(k \<mapsto> 0 + length rs))) = Inr m"
    by blast
  from c obtain k0 where k0: "payload_id (change r) = Inr k0"
    and m: "m = m1(k0 \<mapsto> length rs)"
    by (cases "payload_id (change r)") auto
  note ih = snoc.IH [OF m1]
  show ?case
  proof (cases "k = k0")
    case True
    have "(j < length (rs @ [r]) \<and> payload_id (change ((rs @ [r]) ! j)) = Inr k \<and>
        (\<forall>i. j < i \<and> i < length (rs @ [r]) \<longrightarrow> payload_id (change ((rs @ [r]) ! i)) \<noteq> Inr k)) =
        (j = length rs)"
    proof
      assume a: "j < length (rs @ [r]) \<and> payload_id (change ((rs @ [r]) ! j)) = Inr k \<and>
        (\<forall>i. j < i \<and> i < length (rs @ [r]) \<longrightarrow> payload_id (change ((rs @ [r]) ! i)) \<noteq> Inr k)"
      show "j = length rs"
      proof (rule ccontr)
        assume "j \<noteq> length rs"
        with a have jl: "j < length rs" by simp
        from a have "\<forall>i. j < i \<and> i < length (rs @ [r]) \<longrightarrow>
            payload_id (change ((rs @ [r]) ! i)) \<noteq> Inr k" by blast
        from this [rule_format, of "length rs"] jl
        have "payload_id (change ((rs @ [r]) ! length rs)) \<noteq> Inr k" by simp
        then show False using k0 True by simp
      qed
    next
      assume "j = length rs"
      then show "j < length (rs @ [r]) \<and> payload_id (change ((rs @ [r]) ! j)) = Inr k \<and>
        (\<forall>i. j < i \<and> i < length (rs @ [r]) \<longrightarrow> payload_id (change ((rs @ [r]) ! i)) \<noteq> Inr k)"
        using k0 True by auto
    qed
    then show ?thesis unfolding m using True by auto
  next
    case False
    have "(j < length (rs @ [r]) \<and> payload_id (change ((rs @ [r]) ! j)) = Inr k \<and>
        (\<forall>i. j < i \<and> i < length (rs @ [r]) \<longrightarrow> payload_id (change ((rs @ [r]) ! i)) \<noteq> Inr k)) =
        (j < length rs \<and> payload_id (change (rs ! j)) = Inr k \<and>
        (\<forall>i. j < i \<and> i < length rs \<longrightarrow> payload_id (change (rs ! i)) \<noteq> Inr k))"
      (is "?l = ?r")
    proof
      assume a: ?l
      have jl: "j < length rs"
      proof (rule ccontr)
        assume "\<not> j < length rs"
        with a have "j = length rs" by simp
        with a k0 False show False by simp
      qed
      moreover have "payload_id (change (rs ! j)) = Inr k" using a jl by (simp add: nth_append)
      moreover have "\<forall>i. j < i \<and> i < length rs \<longrightarrow> payload_id (change (rs ! i)) \<noteq> Inr k"
      proof (intro allI impI)
        fix i assume i: "j < i \<and> i < length rs"
        then have "payload_id (change ((rs @ [r]) ! i)) \<noteq> Inr k" using a by simp
        then show "payload_id (change (rs ! i)) \<noteq> Inr k" using i by (simp add: nth_append)
      qed
      ultimately show ?r by blast
    next
      assume a: ?r
      have "\<forall>i. j < i \<and> i < length (rs @ [r]) \<longrightarrow> payload_id (change ((rs @ [r]) ! i)) \<noteq> Inr k"
      proof (intro allI impI)
        fix i assume i: "j < i \<and> i < length (rs @ [r])"
        show "payload_id (change ((rs @ [r]) ! i)) \<noteq> Inr k"
        proof (cases "i < length rs")
          case True
          then show ?thesis using a i by (simp add: nth_append)
        next
          case False
          then have "i = length rs" using i by simp
          then show ?thesis using k0 \<open>k \<noteq> k0\<close> by simp
        qed
      qed
      then show ?l using a by (simp add: nth_append)
    qed
    then show ?thesis unfolding m using False ih [of k j] by simp
  qed
qed

lemma apply_runner_updates_at:
  assumes "apply_runner_updates m us rs = Inr rs'"
    and "\<forall>k i. m k = Some i \<longrightarrow> i < n0"
    and "n0 \<le> length rs"
    and "j < n0"
  shows "rs' ! j =
     (if filter (\<lambda>u. \<exists>k. payload_id u = Inr k \<and> m k = Some j) us = [] then rs ! j
      else \<lparr>change = last (filter (\<lambda>u. \<exists>k. payload_id u = Inr k \<and> m k = Some j) us)\<rparr>)"
  using assms(1,3)
proof (induction us arbitrary: rs)
  case Nil
  then show ?case by simp
next
  case (Cons u us)
  from Cons.prems(1) obtain k where k: "payload_id u = Inr k" by (auto split: sum.splits)
  let ?f = "\<lambda>u. \<exists>k. payload_id u = Inr k \<and> m k = Some j"
  show ?case
  proof (cases "m k")
    case None
    have r: "apply_runner_updates m us (rs @ [\<lparr>change = u\<rparr>]) = Inr rs'"
      using Cons.prems(1) k None by simp
    have nf: "\<not> ?f u" using k None by simp
    have "(rs @ [\<lparr>change = u\<rparr>]) ! j = rs ! j"
      using assms(4) Cons.prems(2) by (simp add: nth_append)
    then show ?thesis using Cons.IH [OF r] Cons.prems(2) nf by simp
  next
    case (Some i)
    have r: "apply_runner_updates m us (rs[i := \<lparr>change = u\<rparr>]) = Inr rs'"
      using Cons.prems(1) k Some by simp
    have il: "i < length rs" using assms(2) Some Cons.prems(2) by fastforce
    note ih = Cons.IH [OF r]
    show ?thesis
    proof (cases "i = j")
      case True
      have f: "?f u" using k Some True by simp
      have "rs[i := \<lparr>change = u\<rparr>] ! j = \<lparr>change = u\<rparr>" using True il by simp
      then show ?thesis using ih Cons.prems(2) f by simp
    next
      case False
      have nf: "\<not> ?f u" using k Some False by simp
      have "rs[i := \<lparr>change = u\<rparr>] ! j = rs ! j" using False by simp
      then show ?thesis using ih Cons.prems(2) nf by simp
    qed
  qed
qed

text \<open>
  Claim C9, as stated, fails: the lookup from ids to entries is built once, before the loop
  over the runner changes, and the loop does not extend it. A runner change whose id an
  entry already has, because an earlier change of the same update appended it, is appended
  again and replaces nothing.
\<close>

theorem race_same_unseen_id_twice_counterexample:
  "race_update_cache (\<lambda>x. x)
     \<lparr>race_datetime_updated = None, race_publish_time = None, race_market_id = JStr ''1.101'',
      race_id = JStr ''28.1'', rpc = JNone, rrc = [], race_streaming_update = None\<rparr>
     \<lparr>ru_rpc = None,
      ru_rrc = Some [[(''id'', JStr ''r1''), (''x'', JNum 1)],
                     [(''id'', JStr ''r1''), (''x'', JNum 2)]]\<rparr> 1 =
     Inr \<lparr>race_datetime_updated = Some 1, race_publish_time = Some 1,
          race_market_id = JStr ''1.101'', race_id = JStr ''28.1'', rpc = JNone,
          rrc = [\<lparr>change = [(''id'', JStr ''r1''), (''x'', JNum 1)]\<rparr>,
                 \<lparr>change = [(''id'', JStr ''r1''), (''x'', JNum 2)]\<rparr>],
          race_streaming_update =
            Some \<lparr>ru_rpc = None,
                  ru_rrc = Some [[(''id'', JStr ''r1''), (''x'', JNum 1)],
                                 [(''id'', JStr ''r1''), (''x'', JNum 2)]]\<rparr>\<rparr> \<and>
   payload_id [(''id'', JStr ''r1''), (''x'', JNum 1)] =
     payload_id [(''id'', JStr ''r1''), (''x'', JNum 2)] \<and>
   [\<lparr>change = [(''id'', JStr ''r1''), (''x'', JNum 1)]\<rparr>,
    \<lparr>change = [(''id'', JStr ''r1''), (''x'', JNum 2)]\<rparr>] \<noteq>
     [\<lparr>change = [(''id'', JStr ''r1''), (''x'', JNum 2)]\<rparr>]"
  by (simp add: race_update_cache_def ebind_def payload_id_def)

text \<open>
  Claim C9, amended. An update whose runner changes and whose stored payloads all have a
  hashable \<^verbatim>\<open>id\<close> returns. After a completed update the entries that existed before the
  call are at their positions with their ids: the last entry that had an id before the call
  holds the last incoming payload with this id, as it came, when there is one, and every
  other such entry is as it was. Behind them stand, in the order of arrival, the incoming
  payloads whose id no entry had before the call, one entry for each such payload, also when
  an earlier payload of the same update had the same id. Every entry is an old entry or
  holds an incoming payload as it came, so nothing is merged field by field. A single runner
  change whose id an entry has replaces the whole payload of one entry with that id and
  leaves the number of entries; one with an unseen id is appended.
\<close>

theorem race_runner_change_replaces_or_appends:
  "((\<forall>r\<in>set (rrc c). \<exists>k. payload_id (change r) = Inr k) \<and>
    (\<forall>u\<in>set us. \<exists>k. payload_id u = Inr k) \<longrightarrow>
      (\<exists>c1. race_update_cache sd c \<lparr>ru_rpc = p, ru_rrc = Some us\<rparr> pt = Inr c1)) \<and>
   (race_update_cache sd c \<lparr>ru_rpc = p, ru_rrc = Some us\<rparr> pt = Inr c' \<longrightarrow>
      length (rrc c) \<le> length (rrc c') \<and>
      map (\<lambda>r. payload_id (change r)) (take (length (rrc c)) (rrc c')) =
        map (\<lambda>r. payload_id (change r)) (rrc c) \<and>
      (\<forall>j<length (rrc c).
         rrc c' ! j =
           (if (\<forall>i. j < i \<and> i < length (rrc c) \<longrightarrow>
               payload_id (change (rrc c ! i)) \<noteq> payload_id (change (rrc c ! j))) \<and>
               filter (\<lambda>u. payload_id u = payload_id (change (rrc c ! j))) us \<noteq> []
            then \<lparr>change = last (filter (\<lambda>u. payload_id u = payload_id (change (rrc c ! j))) us)\<rparr>
            else rrc c ! j)) \<and>
      drop (length (rrc c)) (rrc c') =
        map (\<lambda>u. \<lparr>change = u\<rparr>)
          (filter (\<lambda>u. payload_id u \<notin> (\<lambda>r. payload_id (change r)) ` set (rrc c)) us) \<and>
      (\<forall>x\<in>set (rrc c'). x \<in> set (rrc c) \<or> change x \<in> set us) \<and>
      (\<forall>u. us = [u] \<longrightarrow>
         (if payload_id u \<in> (\<lambda>r. payload_id (change r)) ` set (rrc c)
          then \<exists>j<length (rrc c). payload_id (change (rrc c ! j)) = payload_id u \<and>
                 rrc c' = (rrc c)[j := \<lparr>change = u\<rparr>]
          else rrc c' = rrc c @ [\<lparr>change = u\<rparr>])))"
proof (intro conjI impI)
  assume "(\<forall>r\<in>set (rrc c). \<exists>k. payload_id (change r) = Inr k) \<and>
    (\<forall>u\<in>set us. \<exists>k. payload_id u = Inr k)"
  then show "\<exists>c1. race_update_cache sd c \<lparr>ru_rpc = p, ru_rrc = Some us\<rparr> pt = Inr c1"
    using race_update_cache_total by blast
next
  assume upd: "race_update_cache sd c \<lparr>ru_rpc = p, ru_rrc = Some us\<rparr> pt = Inr c'"
  from race_update_cache_Inr [OF upd] obtain m where
    d: "race_runner_dict (rrc c) 0 Map.empty = Inr m" and
    a: "apply_runner_updates m us (rrc c) = Inr (rrc c')" by blast
  from race_runner_dict_Inr [OF d] have
    some: "\<And>k j. m k = Some j \<Longrightarrow> j < length (rrc c) \<and> payload_id (change (rrc c ! j)) = Inr k"
    and none: "\<And>k. m k = None \<Longrightarrow> \<forall>r\<in>set (rrc c). payload_id (change r) \<noteq> Inr k"
    by auto
  have inv: "\<forall>k j. m k = Some j \<longrightarrow>
      j < length (rrc c) \<and> payload_id (change (rrc c ! j)) = Inr k"
    using some by blast
  note ap = apply_runner_updates_Inr [OF a inv order_refl]
  have seen: "(m k = None) = (Inr k \<notin> (\<lambda>r. payload_id (change r)) ` set (rrc c))" for k
  proof (cases "m k")
    case None
    then show ?thesis using none [OF None] by force
  next
    case (Some j)
    from some [OF Some] have "rrc c ! j \<in> set (rrc c)" "payload_id (change (rrc c ! j)) = Inr k"
      by simp_all
    then have "Inr k \<in> (\<lambda>r. payload_id (change r)) ` set (rrc c)" by force
    then show ?thesis using Some by simp
  qed
  have valid: "\<forall>u\<in>set us. \<exists>k. payload_id u = Inr k" using ap by blast
  have flt: "filter (\<lambda>u. \<forall>k. payload_id u = Inr k \<longrightarrow> m k = None) us =
      filter (\<lambda>u. payload_id u \<notin> (\<lambda>r. payload_id (change r)) ` set (rrc c)) us"
  proof (rule filter_cong [OF refl])
    fix u assume "u \<in> set us"
    with valid obtain k where k: "payload_id u = Inr k" by blast
    show "(\<forall>k. payload_id u = Inr k \<longrightarrow> m k = None) =
        (payload_id u \<notin> (\<lambda>r. payload_id (change r)) ` set (rrc c))"
      using k seen [of k] by simp
  qed
  show "length (rrc c) \<le> length (rrc c')" using ap by blast
  show "map (\<lambda>r. payload_id (change r)) (take (length (rrc c)) (rrc c')) =
        map (\<lambda>r. payload_id (change r)) (rrc c)" using ap by blast
  show "\<forall>j<length (rrc c).
        rrc c' ! j =
          (if (\<forall>i. j < i \<and> i < length (rrc c) \<longrightarrow>
              payload_id (change (rrc c ! i)) \<noteq> payload_id (change (rrc c ! j))) \<and>
              filter (\<lambda>u. payload_id u = payload_id (change (rrc c ! j))) us \<noteq> []
           then \<lparr>change = last (filter (\<lambda>u. payload_id u = payload_id (change (rrc c ! j))) us)\<rparr>
           else rrc c ! j)"
  proof (intro allI impI)
    fix j assume jl: "j < length (rrc c)"
    let ?last = "\<forall>i. j < i \<and> i < length (rrc c) \<longrightarrow>
               payload_id (change (rrc c ! i)) \<noteq> payload_id (change (rrc c ! j))"
    have bound: "\<forall>k i. m k = Some i \<longrightarrow> i < length (rrc c)" using some by blast
    note at = apply_runner_updates_at [OF a bound order_refl jl]
    have mem: "rrc c ! j \<in> set (rrc c)" using jl by simp
    from race_runner_dict_Inr [OF d] mem obtain kj where
      kj: "payload_id (change (rrc c ! j)) = Inr kj" by blast
    have flt2: "filter (\<lambda>u. \<exists>k. payload_id u = Inr k \<and> m k = Some j) us =
        (if ?last then filter (\<lambda>u. payload_id u = payload_id (change (rrc c ! j))) us else [])"
    proof (cases ?last)
      case True
      have "filter (\<lambda>u. \<exists>k. payload_id u = Inr k \<and> m k = Some j) us = filter (\<lambda>u. payload_id u = payload_id (change (rrc c ! j))) us"
      proof (rule filter_cong [OF refl])
        fix u assume "u \<in> set us"
        with valid obtain k where k: "payload_id u = Inr k" by blast
        show "(\<exists>k. payload_id u = Inr k \<and> m k = Some j) =
            (payload_id u = payload_id (change (rrc c ! j)))"
          using k kj jl True race_runner_dict_last [OF d, of k j] by auto
      qed
      then show ?thesis unfolding if_P [OF True] .
    next
      case False
      have "m k \<noteq> Some j" for k
      proof
        assume "m k = Some j"
        with race_runner_dict_last [OF d, of k j] have
          "payload_id (change (rrc c ! j)) = Inr k"
          "\<forall>i. j < i \<and> i < length (rrc c) \<longrightarrow> payload_id (change (rrc c ! i)) \<noteq> Inr k"
          by blast+
        then have ?last by simp
        with False show False by blast
      qed
      then have "filter (\<lambda>u. \<exists>k. payload_id u = Inr k \<and> m k = Some j) us = []" by simp
      then show ?thesis unfolding if_not_P [OF False] .
    qed
    define lastj where "lastj = ?last"
    define F where "F = filter (\<lambda>u. payload_id u = payload_id (change (rrc c ! j))) us"
    have flt3: "filter (\<lambda>u. \<exists>k. payload_id u = Inr k \<and> m k = Some j) us =
        (if lastj then F else [])"
      using flt2 unfolding lastj_def F_def .
    have "rrc c' ! j = (if lastj \<and> F \<noteq> [] then \<lparr>change = last F\<rparr> else rrc c ! j)"
      unfolding at flt3 by simp
    then show "rrc c' ! j =
           (if ?last \<and>
               filter (\<lambda>u. payload_id u = payload_id (change (rrc c ! j))) us \<noteq> []
            then \<lparr>change = last (filter (\<lambda>u. payload_id u = payload_id (change (rrc c ! j))) us)\<rparr>
            else rrc c ! j)"
      unfolding lastj_def F_def .
  qed
  show "drop (length (rrc c)) (rrc c') =
        map (\<lambda>u. \<lparr>change = u\<rparr>)
          (filter (\<lambda>u. payload_id u \<notin> (\<lambda>r. payload_id (change r)) ` set (rrc c)) us)"
    using ap unfolding flt by blast
  show "\<forall>x\<in>set (rrc c'). x \<in> set (rrc c) \<or> change x \<in> set us" using ap by blast
  show "\<forall>u. us = [u] \<longrightarrow>
         (if payload_id u \<in> (\<lambda>r. payload_id (change r)) ` set (rrc c)
          then \<exists>j<length (rrc c). payload_id (change (rrc c ! j)) = payload_id u \<and>
                 rrc c' = (rrc c)[j := \<lparr>change = u\<rparr>]
          else rrc c' = rrc c @ [\<lparr>change = u\<rparr>])"
  proof (intro allI impI)
    fix u assume us: "us = [u]"
    with valid obtain k where k: "payload_id u = Inr k" by auto
    show "if payload_id u \<in> (\<lambda>r. payload_id (change r)) ` set (rrc c)
          then \<exists>j<length (rrc c). payload_id (change (rrc c ! j)) = payload_id u \<and>
                 rrc c' = (rrc c)[j := \<lparr>change = u\<rparr>]
          else rrc c' = rrc c @ [\<lparr>change = u\<rparr>]"
    proof (cases "m k")
      case None
      then have "payload_id u \<notin> (\<lambda>r. payload_id (change r)) ` set (rrc c)"
        using seen [of k] k by simp
      moreover have "rrc c' = rrc c @ [\<lparr>change = u\<rparr>]" using a us k None by simp
      ultimately show ?thesis by simp
    next
      case (Some j)
      then have "payload_id u \<in> (\<lambda>r. payload_id (change r)) ` set (rrc c)"
        using seen [of k] k by simp
      moreover have "rrc c' = (rrc c)[j := \<lparr>change = u\<rparr>]" using a us k Some by simp
      moreover have "j < length (rrc c)" "payload_id (change (rrc c ! j)) = payload_id u"
        using some [OF Some] k by simp_all
      ultimately show ?thesis by auto
    qed
  qed
qed

theorem race_runner_change_replaces_or_appends_witness:
  "payload_id [(''id'', JStr ''r1''), (''x'', JNum 1)] = Inr (HStr ''r1'') \<and>
   payload_id [(''id'', JStr ''r1''), (''x'', JNum 2)] = Inr (HStr ''r1'') \<and>
   race_update_cache (\<lambda>x. x)
     \<lparr>race_datetime_updated = None, race_publish_time = None,
      race_market_id = JStr ''1.101'', race_id = JStr ''28.1'', rpc = JNone,
      rrc = [],
      race_streaming_update =
        None\<rparr>
     \<lparr>ru_rpc = None,
      ru_rrc = Some [[(''id'', JStr ''r1''), (''x'', JNum 1)]]\<rparr> 1 =
     Inr \<lparr>race_datetime_updated = Some 1, race_publish_time = Some 1,
          race_market_id = JStr ''1.101'', race_id = JStr ''28.1'', rpc = JNone,
          rrc = [\<lparr>change = [(''id'', JStr ''r1''), (''x'', JNum 1)]\<rparr>],
          race_streaming_update =
            Some \<lparr>ru_rpc = None,
                  ru_rrc = Some [[(''id'', JStr ''r1''), (''x'', JNum 1)]]\<rparr>\<rparr> \<and>
   race_update_cache (\<lambda>x. x)
     \<lparr>race_datetime_updated = Some 1, race_publish_time = Some 1,
      race_market_id = JStr ''1.101'', race_id = JStr ''28.1'', rpc = JNone,
      rrc = [\<lparr>change = [(''id'', JStr ''r1''), (''x'', JNum 1)]\<rparr>],
      race_streaming_update =
        Some \<lparr>ru_rpc = None,
              ru_rrc = Some [[(''id'', JStr ''r1''), (''x'', JNum 1)]]\<rparr>\<rparr>
     \<lparr>ru_rpc = None,
      ru_rrc = Some [[(''id'', JStr ''r1''), (''x'', JNum 2)]]\<rparr> 2 =
     Inr \<lparr>race_datetime_updated = Some 2, race_publish_time = Some 2,
          race_market_id = JStr ''1.101'', race_id = JStr ''28.1'', rpc = JNone,
          rrc = [\<lparr>change = [(''id'', JStr ''r1''), (''x'', JNum 2)]\<rparr>],
          race_streaming_update =
            Some \<lparr>ru_rpc = None,
                  ru_rrc = Some [[(''id'', JStr ''r1''), (''x'', JNum 2)]]\<rparr>\<rparr> \<and>
   race_update_cache (\<lambda>x. x)
     \<lparr>race_datetime_updated = Some 1, race_publish_time = Some 1,
      race_market_id = JStr ''1.101'', race_id = JStr ''28.1'', rpc = JNone,
      rrc = [\<lparr>change = [(''id'', JStr ''r1''), (''x'', JNum 1)]\<rparr>,
             \<lparr>change = [(''id'', JStr ''r2''), (''x'', JNum 1)]\<rparr>],
      race_streaming_update =
        Some \<lparr>ru_rpc = None,
              ru_rrc = Some [[(''id'', JStr ''r1''), (''x'', JNum 1)],
                             [(''id'', JStr ''r2''), (''x'', JNum 1)]]\<rparr>\<rparr>
     \<lparr>ru_rpc = None,
      ru_rrc = Some [[(''id'', JStr ''r1''), (''x'', JNum 2)],
                     [(''id'', JStr ''r3''), (''x'', JNum 1)],
                     [(''id'', JStr ''r1''), (''x'', JNum 3)],
                     [(''id'', JStr ''r3''), (''x'', JNum 2)]]\<rparr> 3 =
     Inr \<lparr>race_datetime_updated = Some 3, race_publish_time = Some 3,
          race_market_id = JStr ''1.101'', race_id = JStr ''28.1'', rpc = JNone,
          rrc = [\<lparr>change = [(''id'', JStr ''r1''), (''x'', JNum 3)]\<rparr>,
                 \<lparr>change = [(''id'', JStr ''r2''), (''x'', JNum 1)]\<rparr>,
                 \<lparr>change = [(''id'', JStr ''r3''), (''x'', JNum 1)]\<rparr>,
                 \<lparr>change = [(''id'', JStr ''r3''), (''x'', JNum 2)]\<rparr>],
          race_streaming_update =
            Some \<lparr>ru_rpc = None,
                  ru_rrc = Some [[(''id'', JStr ''r1''), (''x'', JNum 2)],
                                 [(''id'', JStr ''r3''), (''x'', JNum 1)],
                                 [(''id'', JStr ''r1''), (''x'', JNum 3)],
                                 [(''id'', JStr ''r3''), (''x'', JNum 2)]]\<rparr>\<rparr>"
proof -
  let ?u1 = "[(''id'', JStr ''r1''), (''x'', JNum 1)]"
  let ?u2 = "[(''id'', JStr ''r1''), (''x'', JNum 2)]"
  let ?a2 = "[(''id'', JStr ''r2''), (''x'', JNum 1)]"
  let ?b2 = "[(''id'', JStr ''r3''), (''x'', JNum 1)]"
  let ?b3 = "[(''id'', JStr ''r1''), (''x'', JNum 3)]"
  let ?b4 = "[(''id'', JStr ''r3''), (''x'', JNum 2)]"
  let ?ca = "\<lparr>race_datetime_updated = None :: int option, race_publish_time = None,
      race_market_id = JStr ''1.101'', race_id = JStr ''28.1'', rpc = JNone,
      rrc = [],
      race_streaming_update =
        None\<rparr>"
  let ?cb = "\<lparr>race_datetime_updated = Some (1::int), race_publish_time = Some 1,
      race_market_id = JStr ''1.101'', race_id = JStr ''28.1'', rpc = JNone,
      rrc = [\<lparr>change = ?u1\<rparr>],
      race_streaming_update =
        Some \<lparr>ru_rpc = None,
              ru_rrc = Some [?u1]\<rparr>\<rparr>"
  let ?cc = "\<lparr>race_datetime_updated = Some (2::int), race_publish_time = Some 2,
      race_market_id = JStr ''1.101'', race_id = JStr ''28.1'', rpc = JNone,
      rrc = [\<lparr>change = ?u2\<rparr>],
      race_streaming_update =
        Some \<lparr>ru_rpc = None,
              ru_rrc = Some [?u2]\<rparr>\<rparr>"
  let ?cd = "\<lparr>race_datetime_updated = Some (1::int), race_publish_time = Some 1,
      race_market_id = JStr ''1.101'', race_id = JStr ''28.1'', rpc = JNone,
      rrc = [\<lparr>change = ?u1\<rparr>,
             \<lparr>change = ?a2\<rparr>],
      race_streaming_update =
        Some \<lparr>ru_rpc = None,
              ru_rrc = Some [?u1,
                             ?a2]\<rparr>\<rparr>"
  let ?ce = "\<lparr>race_datetime_updated = Some (3::int), race_publish_time = Some 3,
      race_market_id = JStr ''1.101'', race_id = JStr ''28.1'', rpc = JNone,
      rrc = [\<lparr>change = ?b3\<rparr>,
             \<lparr>change = ?a2\<rparr>,
             \<lparr>change = ?b2\<rparr>,
             \<lparr>change = ?b4\<rparr>],
      race_streaming_update =
        Some \<lparr>ru_rpc = None,
              ru_rrc = Some [?u2,
                             ?b2,
                             ?b3,
                             ?b4]\<rparr>\<rparr>"
  have p: "payload_id ?u1 = Inr (HStr ''r1'')" "payload_id ?u2 = Inr (HStr ''r1'')"
    by (simp_all add: payload_id_def)
  have s1: "race_update_cache (\<lambda>x. x) ?ca \<lparr>ru_rpc = None, ru_rrc = Some [?u1]\<rparr> 1 = Inr ?cb"
    by (simp add: race_update_cache_def ebind_def payload_id_def)
  have s2: "race_update_cache (\<lambda>x. x) ?cb \<lparr>ru_rpc = None, ru_rrc = Some [?u2]\<rparr> 2 = Inr ?cc"
    by (simp add: race_update_cache_def ebind_def payload_id_def)
  have s3: "race_update_cache (\<lambda>x. x) ?cd
      \<lparr>ru_rpc = None, ru_rrc = Some [?u2, ?b2, ?b3, ?b4]\<rparr> 3 = Inr ?ce"
    by (simp add: race_update_cache_def ebind_def payload_id_def)
  note t2 = race_runner_change_replaces_or_appends
    [of ?cb "[?u2]" "\<lambda>x. x" None 2 ?cc, THEN conjunct2, THEN mp, OF s2]
  note t3 = race_runner_change_replaces_or_appends
    [of ?cd "[?u2, ?b2, ?b3, ?b4]" "\<lambda>x. x" None 3 ?ce, THEN conjunct2, THEN mp, OF s3]
  have l2: "length (rrc ?cb) \<le> length (rrc ?cc)" using t2 by blast
  have l3: "drop (length (rrc ?cd)) (rrc ?ce) =
      map (\<lambda>u. \<lparr>change = u\<rparr>)
        (filter (\<lambda>u. payload_id u \<notin> (\<lambda>r. payload_id (change r)) ` set (rrc ?cd))
           [?u2, ?b2, ?b3, ?b4])"
    using t3 by blast
  from l2 l3 show ?thesis using p s1 s2 s3 by simp
qed

end
